(* ===== verification/Prelude.thy ===== *)
theory Prelude
  imports Complex_Main "HOL-Library.AList" "HOL-Library.Char_ord" "HOL-Library.List_Lexorder"
    "HOL-Library.Product_Lexorder" "HOL-Library.Sublist"
begin

text \<open>
  Shared vocabulary of the development: the exceptions of the Python code as values, a result
  type with its sequencing operator, Python dictionaries as insertion-ordered association lists,
  the string operations the sources use, and \<open>int(...)\<close> / \<open>str(...)\<close> on integers.

  A Python \<open>str\<close> is a HOL \<^typ>\<open>string\<close>, so a character stands for a code point below 256. The
  length of its UTF-8 encoding is written out (\<open>utf8_length\<close>), because the size limits of the
  sources count both code points and bytes. The configurable cap of the interpreter on the number
  of digits of an integer literal is not modelled.
\<close>

named_theorems res_simps \<open>rewrite rules of the result type\<close>
named_theorems dict_simps \<open>rewrite rules of insertion-ordered dictionaries\<close>
named_theorems str_simps \<open>rewrite rules of string operations\<close>

section \<open>Exceptions and results\<close>

text \<open>
  \<open>AuthError\<close> is caught by \<open>except AuthError\<close> together with its subclass
  \<open>UnstableSpecAuthError\<close>; both, and \<open>EventSizeError\<close>, \<open>LoginError\<close>, \<open>StoreError\<close> and
  \<open>LimitExceededError\<close>, are subclasses of \<open>SynapseError\<close>. The argument of
  \<open>LimitExceededError\<close> is the time in milliseconds after which the client may retry.
  The string argument is the message without its interpolated values.
\<close>

datatype py_error =
    AuthError int string
  | UnstableSpecAuthError int string string
  | SynapseError int string
  | LoginError int string
  | StoreError int string
  | LimitExceededError int
  | EventSizeError string bool
  | KeyError
  | AttributeError
  | TypeError
  | ValueError
  | IndexError
  | AssertionError
  | RuntimeError
  | ZeroDivisionError
  | SignatureVerifyException
  | OtherException string

type_synonym 'a res = "py_error + 'a"

fun is_AuthError :: "py_error \<Rightarrow> bool" where
  "is_AuthError (AuthError c m) = True"
| "is_AuthError (UnstableSpecAuthError c m e) = True"
| "is_AuthError _ = False"

fun rbind :: "'a res \<Rightarrow> ('a \<Rightarrow> 'b res) \<Rightarrow> 'b res" where
  "rbind (Inl e) f = Inl e"
| "rbind (Inr x) f = f x"

definition raise_if :: "bool \<Rightarrow> py_error \<Rightarrow> unit res" where
  "raise_if b e = (if b then Inl e else Inr ())"

definition ok :: "'a res \<Rightarrow> bool" where
  "ok r \<longleftrightarrow> (case r of Inl e \<Rightarrow> False | Inr x \<Rightarrow> True)"

fun rmap :: "('a \<Rightarrow> 'b res) \<Rightarrow> 'a list \<Rightarrow> 'b list res" where
  "rmap f [] = Inr []"
| "rmap f (x # xs) = rbind (f x) (\<lambda>y. rbind (rmap f xs) (\<lambda>ys. Inr (y # ys)))"

fun riter :: "('a \<Rightarrow> unit res) \<Rightarrow> 'a list \<Rightarrow> unit res" where
  "riter f [] = Inr ()"
| "riter f (x # xs) = rbind (f x) (\<lambda>u. riter f xs)"

fun rfold :: "('a \<Rightarrow> 's \<Rightarrow> 's res) \<Rightarrow> 'a list \<Rightarrow> 's \<Rightarrow> 's res" where
  "rfold f [] s = Inr s"
| "rfold f (x # xs) s = rbind (f x s) (rfold f xs)"

lemma rbind_cong [fundef_cong]:
  "m = m' \<Longrightarrow> (\<And>x. m' = Inr x \<Longrightarrow> f x = g x) \<Longrightarrow> rbind m f = rbind m' g"
  by (cases m') auto

lemma rbind_eq_Inr [simp, res_simps]: "rbind m f = Inr y \<longleftrightarrow> (\<exists>x. m = Inr x \<and> f x = Inr y)"
  by (cases m) auto

lemma Inr_eq_rbind [simp, res_simps]: "Inr y = rbind m f \<longleftrightarrow> (\<exists>x. m = Inr x \<and> f x = Inr y)"
  by (cases m) auto

lemma rbind_eq_Inl [res_simps]:
  "rbind m f = Inl e \<longleftrightarrow> m = Inl e \<or> (\<exists>x. m = Inr x \<and> f x = Inl e)"
  by (cases m) auto

lemma rbind_assoc [res_simps]: "rbind (rbind m f) g = rbind m (\<lambda>x. rbind (f x) g)"
  by (cases m) auto

lemma raise_if_simps [simp, res_simps]:
  "raise_if b e = Inr u \<longleftrightarrow> \<not> b"
  "raise_if b e = Inl e' \<longleftrightarrow> b \<and> e' = e"
  "raise_if True e = Inl e"
  "raise_if False e = Inr ()"
  by (auto simp: raise_if_def)

lemma ok_simps [simp, res_simps]: "ok (Inr x)" "\<not> ok (Inl e)"
  by (auto simp: ok_def)

lemma ok_iff: "ok r \<longleftrightarrow> (\<exists>x. r = Inr x)"
  by (cases r) auto

lemma ok_rbind [res_simps]: "ok (rbind m f) \<longleftrightarrow> (\<exists>x. m = Inr x \<and> ok (f x))"
  by (cases m) auto

lemma riter_cong [fundef_cong]:
  "xs = ys \<Longrightarrow> (\<And>x. x \<in> set ys \<Longrightarrow> f x = g x) \<Longrightarrow> riter f xs = riter g ys"
proof (induction ys arbitrary: xs)
  case (Cons y ys)
  then show ?case by (cases "g y") auto
qed simp

lemma riter_ok: "riter f xs = Inr u \<longleftrightarrow> (\<forall>x \<in> set xs. f x = Inr ())"
  by (induction xs) auto

lemma riter_append: "riter f (xs @ ys) = rbind (riter f xs) (\<lambda>u. riter f ys)"
  by (induction xs) (auto simp: rbind_assoc)

lemma riter_error: "riter f xs = Inl e \<Longrightarrow> \<exists>x \<in> set xs. f x = Inl e"
  by (induction xs) (auto simp: rbind_eq_Inl)

lemma rmap_ok: "rmap f xs = Inr ys \<longleftrightarrow> list_all2 (\<lambda>x y. f x = Inr y) xs ys"
  by (induction xs arbitrary: ys) (auto simp: list_all2_Cons1)

lemma rmap_cong [fundef_cong]:
  "xs = ys \<Longrightarrow> (\<And>x. x \<in> set ys \<Longrightarrow> f x = g x) \<Longrightarrow> rmap f xs = rmap g ys"
  by (induction ys arbitrary: xs) auto

lemma rfold_append: "rfold f (xs @ ys) s = rbind (rfold f xs s) (rfold f ys)"
  by (induction xs arbitrary: s) (auto simp: rbind_assoc intro: rbind_cong)

text \<open>An invariant of every step of a fallible loop holds of its result.\<close>

lemma rfold_invariant:
  assumes "rfold f xs s = Inr t" and "P s"
    and "\<And>x s t. x \<in> set xs \<Longrightarrow> P s \<Longrightarrow> f x s = Inr t \<Longrightarrow> P t"
  shows "P t"
  using assms by (induction xs arbitrary: s) auto

section \<open>Dictionaries\<close>

text \<open>
  A Python dictionary iterates in insertion order: assigning to a present key keeps its place,
  a new key goes to the end. Association lists with \<open>AList.update\<close> and \<open>AList.delete\<close>
  behave exactly so; the invariant is that the keys are distinct.
\<close>

type_synonym ('k, 'v) dict = "('k \<times> 'v) list"

abbreviation dget :: "('k, 'v) dict \<Rightarrow> 'k \<Rightarrow> 'v option" where
  "dget d k \<equiv> map_of d k"

abbreviation dset :: "'k \<Rightarrow> 'v \<Rightarrow> ('k, 'v) dict \<Rightarrow> ('k, 'v) dict" where
  "dset k v d \<equiv> AList.update k v d"

abbreviation dpop :: "'k \<Rightarrow> ('k, 'v) dict \<Rightarrow> ('k, 'v) dict" where
  "dpop k d \<equiv> AList.delete k d"

abbreviation dkeys :: "('k, 'v) dict \<Rightarrow> 'k list" where
  "dkeys d \<equiv> map fst d"

abbreviation dvalues :: "('k, 'v) dict \<Rightarrow> 'v list" where
  "dvalues d \<equiv> map snd d"

definition wf_dict :: "('k, 'v) dict \<Rightarrow> bool" where
  "wf_dict d \<longleftrightarrow> distinct (dkeys d)"

definition dhas :: "('k, 'v) dict \<Rightarrow> 'k \<Rightarrow> bool" where
  "dhas d k \<longleftrightarrow> dget d k \<noteq> None"

definition dget_or :: "('k, 'v) dict \<Rightarrow> 'k \<Rightarrow> 'v \<Rightarrow> 'v" where
  "dget_or d k v = (case dget d k of None \<Rightarrow> v | Some w \<Rightarrow> w)"

definition dsub :: "('k, 'v) dict \<Rightarrow> 'k \<Rightarrow> 'v res" where
  "dsub d k = (case dget d k of None \<Rightarrow> Inl KeyError | Some v \<Rightarrow> Inr v)"

definition dupdate :: "('k, 'v) dict \<Rightarrow> ('k, 'v) dict \<Rightarrow> ('k, 'v) dict" where
  "dupdate d d' = fold (\<lambda>(k, v). AList.update k v) d' d"

definition dict_of :: "('k \<times> 'v) list \<Rightarrow> ('k, 'v) dict" where
  "dict_of kvs = dupdate [] kvs"

lemma wf_dict_simps [simp, dict_simps]: "wf_dict []"
  by (simp add: wf_dict_def)

lemma wf_dset [simp, dict_simps]: "wf_dict d \<Longrightarrow> wf_dict (dset k v d)"
  by (simp add: wf_dict_def AList.distinct_update)

lemma wf_dpop [simp, dict_simps]: "wf_dict d \<Longrightarrow> wf_dict (dpop k d)"
  by (simp add: wf_dict_def AList.distinct_delete)

lemma dget_dset [simp, dict_simps]: "dget (dset k v d) k' = (if k' = k then Some v else dget d k')"
  by (simp add: AList.update_conv')

lemma dget_dpop [simp, dict_simps]: "dget (dpop k d) k' = (if k' = k then None else dget d k')"
  by (simp add: AList.delete_conv')

lemma dupdate_simps [simp, dict_simps]:
  "dupdate d [] = d"
  "dupdate d ((k, v) # d') = dupdate (dset k v d) d'"
  by (simp_all add: dupdate_def)

lemma wf_dupdate [simp, dict_simps]: "wf_dict d \<Longrightarrow> wf_dict (dupdate d d')"
  by (induction d' arbitrary: d) auto

lemma dget_dupdate:
  "wf_dict d' \<Longrightarrow> dget (dupdate d d') k = (case dget d' k of None \<Rightarrow> dget d k | Some v \<Rightarrow> Some v)"
proof (induction d' arbitrary: d)
  case (Cons p d')
  obtain k' v where p: "p = (k', v)" by (cases p)
  have "dget d' k' = None" using Cons.prems by (simp add: p wf_dict_def map_of_eq_None_iff)
  moreover have "wf_dict d'" using Cons.prems by (simp add: wf_dict_def)
  ultimately show ?case using Cons.IH by (auto simp: p split: option.splits)
qed simp

lemma dhas_iff: "dhas d k \<longleftrightarrow> k \<in> set (dkeys d)"
  by (auto simp: dhas_def map_of_eq_None_iff image_iff)

lemma dhas_dset [simp, dict_simps]: "dhas (dset k v d) k' \<longleftrightarrow> k' = k \<or> dhas d k'"
  by (simp add: dhas_def)

lemma dget_or_simps [simp, dict_simps]:
  "dget_or [] k d = d"
  "dget_or (dset k' v g) k d = (if k = k' then v else dget_or g k d)"
  by (simp_all add: dget_or_def)

lemma dget_or_absent [simp]: "\<not> dhas g k \<Longrightarrow> dget_or g k d = d"
  by (simp add: dget_or_def dhas_def)

lemma dsub_ok [simp]: "dsub d k = Inr v \<longleftrightarrow> dget d k = Some v"
  by (auto simp: dsub_def split: option.splits)

lemma in_dict_iff: "wf_dict d \<Longrightarrow> (k, v) \<in> set d \<longleftrightarrow> dget d k = Some v"
  by (simp add: wf_dict_def)

lemma dget_in: "dget d k = Some v \<Longrightarrow> (k, v) \<in> set d"
  by (rule map_of_SomeD)

lemma wf_filter_dict [simp, dict_simps]: "wf_dict d \<Longrightarrow> wf_dict (filter P d)"
  by (simp add: wf_dict_def distinct_map_filter)

lemma dget_filter_key:
  "wf_dict d \<Longrightarrow> dget (filter P d) k = (case dget d k of None \<Rightarrow> None | Some v \<Rightarrow> if P (k, v) then Some v else None)"
proof (induction d)
  case (Cons p d)
  then show ?case
    by (cases p) (auto simp: wf_dict_def map_of_eq_None_iff split: option.splits dest!: map_of_SomeD)
qed simp

lemma dset_same: "dget d k = Some v \<Longrightarrow> dset k v d = d"
  by (induction d) auto

lemma dget_filter_keys: "dget (filter (\<lambda>(k, _). P k) d) k = (if P k then dget d k else None)"
  by (induction d) auto

lemma dset_fresh: "\<not> dhas d k \<Longrightarrow> dset k v d = d @ [(k, v)]"
  by (induction d) (auto simp: dhas_def)

lemma set_dset: "wf_dict d \<Longrightarrow> set (dset k v d) = insert (k, v) {p \<in> set d. fst p \<noteq> k}"
  by (auto simp: in_dict_iff split: if_splits)

text \<open>The members of a set other than \<open>None\<close>.\<close>

definition somes :: "'a option list \<Rightarrow> 'a list" where
  "somes xs = map the (filter (\<lambda>x. x \<noteq> None) xs)"

lemma set_somes [simp]: "set (somes xs) = {x. Some x \<in> set xs}"
  by (force simp: somes_def image_iff)

section \<open>Strings\<close>

definition utf8_length :: "string \<Rightarrow> nat" where
  "utf8_length s = sum_list (map (\<lambda>c. if of_char c < (128::nat) then 1 else 2) s)"

lemma length_le_utf8_length: "length s \<le> utf8_length s"
  by (induction s) (auto simp: utf8_length_def)

lemma utf8_length_le: "utf8_length s \<le> 2 * length s"
  by (induction s) (auto simp: utf8_length_def)

definition starts_with :: "string \<Rightarrow> string \<Rightarrow> bool" where
  "starts_with p s \<longleftrightarrow> take (length p) s = p"

text \<open>\<open>find_from\<close> is \<open>s.find(c)\<close> with the missing case as \<^const>\<open>None\<close>.\<close>

fun find_char :: "char \<Rightarrow> string \<Rightarrow> nat option" where
  "find_char c [] = None"
| "find_char c (x # xs) = (if x = c then Some 0 else map_option Suc (find_char c xs))"

text \<open>\<open>split_once c s\<close> is \<open>s.split(c, 1)\<close> and \<open>split_on c s\<close> is \<open>s.split(c)\<close>.\<close>

definition split_once :: "char \<Rightarrow> string \<Rightarrow> string list" where
  "split_once c s = (case find_char c s of None \<Rightarrow> [s] | Some i \<Rightarrow> [take i s, drop (Suc i) s])"

definition rsplit_once :: "char \<Rightarrow> string \<Rightarrow> string list" where
  "rsplit_once c s = (case find_char c (rev s) of None \<Rightarrow> [s]
     | Some i \<Rightarrow> [take (length s - Suc i) s, drop (length s - i) s])"

fun split_on :: "char \<Rightarrow> string \<Rightarrow> string list" where
  "split_on c [] = [[]]"
| "split_on c (x # xs) = (if x = c then [] # split_on c xs
     else (case split_on c xs of [] \<Rightarrow> [[x]] | w # ws \<Rightarrow> (x # w) # ws))"

text \<open>\<open>join_with sep ws\<close> is \<open>sep.join(ws)\<close> for a one-character separator.\<close>

fun join_with :: "char \<Rightarrow> string list \<Rightarrow> string" where
  "join_with c [] = []"
| "join_with c [w] = w"
| "join_with c (w # v # ws) = w @ c # join_with c (v # ws)"

lemma find_char_None [simp, str_simps]: "find_char c s = None \<longleftrightarrow> c \<notin> set s"
  by (induction s) auto

lemma find_char_Some: "find_char c s = Some i \<Longrightarrow> i < length s \<and> s ! i = c \<and> c \<notin> set (take i s)"
  by (induction s arbitrary: i) (auto split: if_splits)

lemma find_char_append [simp, str_simps]: "c \<notin> set a \<Longrightarrow> find_char c (a @ c # b) = Some (length a)"
  by (induction a) auto

lemma find_char_split: "find_char c s = Some i \<Longrightarrow> s = take i s @ c # drop (Suc i) s"
  using find_char_Some[of c s i] by (metis id_take_nth_drop)

lemma split_once_append [simp, str_simps]: "c \<notin> set a \<Longrightarrow> split_once c (a @ c # b) = [a, b]"
  by (simp add: split_once_def)

lemma split_once_none [simp, str_simps]: "c \<notin> set s \<Longrightarrow> split_once c s = [s]"
  by (simp add: split_once_def flip: find_char_None)

lemma split_once_eq_pair: "split_once c s = [a, b] \<longleftrightarrow> s = a @ c # b \<and> c \<notin> set a"
proof
  assume "split_once c s = [a, b]"
  then obtain i where i: "find_char c s = Some i" and ab: "a = take i s" "b = drop (Suc i) s"
    by (auto simp: split_once_def split: option.splits)
  then show "s = a @ c # b \<and> c \<notin> set a"
    using find_char_split[OF i] find_char_Some[OF i] by simp
qed auto

lemma split_on_ne [simp]: "split_on c s \<noteq> []"
  by (induction s) (auto split: list.splits)

lemma split_on_none [simp, str_simps]: "c \<notin> set s \<Longrightarrow> split_on c s = [s]"
  by (induction s) auto

lemma split_on_append [simp, str_simps]: "c \<notin> set a \<Longrightarrow> split_on c (a @ c # b) = a # split_on c b"
  by (induction a) auto

lemma split_on_join:
  "ws \<noteq> [] \<Longrightarrow> (\<forall>w \<in> set ws. c \<notin> set w) \<Longrightarrow> split_on c (join_with c ws) = ws"
  by (induction c ws rule: join_with.induct) auto

lemma set_join_with: "set (join_with c ws) \<subseteq> insert c (\<Union> (set ` set ws))"
  by (induction c ws rule: join_with.induct) auto

section \<open>Integers as strings\<close>

definition digit_char :: "nat \<Rightarrow> char" where
  "digit_char d = char_of (48 + d)"

definition is_digit :: "char \<Rightarrow> bool" where
  "is_digit c \<longleftrightarrow> 48 \<le> (of_char c :: nat) \<and> of_char c \<le> (57 :: nat)"

definition digit_val :: "char \<Rightarrow> int" where
  "digit_val c = int (of_char c) - 48"

fun string_of_nat :: "nat \<Rightarrow> string" where
  "string_of_nat n = (if n < 10 then [digit_char n] else string_of_nat (n div 10) @ [digit_char (n mod 10)])"

declare string_of_nat.simps [simp del]

definition string_of_int :: "int \<Rightarrow> string" where
  "string_of_int i = (if i < 0 then CHR ''-'' # string_of_nat (nat (- i)) else string_of_nat (nat i))"

text \<open>
  The digits of \<open>int(s)\<close>: single underscores may stand between digits. The flag says whether the
  text read so far ends in a digit.
\<close>

fun int_digits :: "bool \<Rightarrow> int \<Rightarrow> string \<Rightarrow> int option" where
  "int_digits d acc [] = (if d then Some acc else None)"
| "int_digits d acc (c # cs) =
     (if is_digit c then int_digits True (10 * acc + digit_val c) cs
      else if c = CHR ''_'' \<and> d then int_digits False acc cs else None)"

text \<open>White space that \<open>int(s)\<close> strips, among the code points below 256.\<close>

definition is_int_space :: "char \<Rightarrow> bool" where
  "is_int_space c \<longleftrightarrow> (of_char c :: nat) \<in> {9, 10, 11, 12, 13, 32, 133, 160}"

definition strip_space :: "string \<Rightarrow> string" where
  "strip_space s = rev (dropWhile is_int_space (rev (dropWhile is_int_space s)))"

definition py_int_str :: "string \<Rightarrow> int res" where
  "py_int_str s =
     (let t = strip_space s;
          r = (case t of [] \<Rightarrow> None
               | c # cs \<Rightarrow> if c = CHR ''-'' then map_option uminus (int_digits False 0 cs)
                           else if c = CHR ''+'' then int_digits False 0 cs
                           else int_digits False 0 t)
      in case r of None \<Rightarrow> Inl ValueError | Some i \<Rightarrow> Inr i)"

lemma of_digit_char: "d < 10 \<Longrightarrow> (of_char (digit_char d) :: nat) = 48 + d"
  by (simp add: digit_char_def)

lemma is_digit_digit_char [simp]: "d < 10 \<Longrightarrow> is_digit (digit_char d)"
  by (simp add: is_digit_def of_digit_char)

lemma digit_val_digit_char [simp]: "d < 10 \<Longrightarrow> digit_val (digit_char d) = int d"
  by (simp add: digit_val_def of_digit_char)

lemma set_string_of_nat: "c \<in> set (string_of_nat n) \<Longrightarrow> is_digit c"
proof (induction n rule: string_of_nat.induct)
  case (1 n)
  then show ?case by (subst (asm) (2) string_of_nat.simps) (auto split: if_splits)
qed

lemma string_of_nat_ne [simp]: "string_of_nat n \<noteq> []"
  by (subst string_of_nat.simps) simp

lemma int_digits_append:
  "(\<forall>c \<in> set xs. is_digit c) \<Longrightarrow> xs \<noteq> [] \<Longrightarrow> int_digits d acc (xs @ ys)
     = int_digits True (foldl (\<lambda>a c. 10 * a + digit_val c) acc xs) ys"
proof (induction xs arbitrary: d acc)
  case (Cons x xs)
  then show ?case by (cases "xs = []") auto
qed simp

lemma foldl_string_of_nat: "foldl (\<lambda>a c. 10 * a + digit_val c) 0 (string_of_nat n) = int n"
proof (induction n rule: string_of_nat.induct)
  case (1 n)
  show ?case
  proof (cases "n < 10")
    case True
    then show ?thesis by (subst string_of_nat.simps) simp
  next
    case False
    have "10 * int (n div 10) + int (n mod 10) = int n"
      by (metis mult.commute div_mult_mod_eq of_nat_add of_nat_mult of_nat_numeral)
    with False 1 show ?thesis by (subst string_of_nat.simps) simp
  qed
qed

lemma int_digits_string_of_nat: "int_digits False 0 (string_of_nat n) = Some (int n)"
  using int_digits_append[of "string_of_nat n" False 0 "[]"]
  by (simp add: foldl_string_of_nat set_string_of_nat)

lemma strip_space_id:
  "s \<noteq> [] \<Longrightarrow> \<not> is_int_space (hd s) \<Longrightarrow> \<not> is_int_space (last s) \<Longrightarrow> strip_space s = s"
proof -
  assume "s \<noteq> []" "\<not> is_int_space (hd s)" "\<not> is_int_space (last s)"
  then have "dropWhile is_int_space s = s" and "dropWhile is_int_space (rev s) = rev s"
    by (simp_all add: dropWhile_eq_self_iff hd_rev)
  then show ?thesis by (simp add: strip_space_def)
qed

lemma digit_not_space: "is_digit c \<Longrightarrow> \<not> is_int_space c"
  by (auto simp: is_digit_def is_int_space_def)

lemma digit_not_special: "is_digit c \<Longrightarrow> c \<noteq> CHR ''-'' \<and> c \<noteq> CHR ''+'' \<and> c \<noteq> CHR ''_''
    \<and> c \<noteq> CHR ''.'' \<and> c \<noteq> CHR ''~'' \<and> c \<noteq> CHR ''s'' \<and> c \<noteq> CHR ''m'' \<and> c \<noteq> CHR ''t'' \<and> c \<noteq> CHR ''/''"
  by (auto simp: is_digit_def)

lemma last_string_of_nat: "is_digit (last (string_of_nat n))"
  by (rule set_string_of_nat[of _ n]) simp

lemma hd_string_of_nat: "is_digit (hd (string_of_nat n))"
  by (rule set_string_of_nat[of _ n]) simp

text \<open>\<open>int(str(i))\<close> is \<open>i\<close>.\<close>

lemma py_int_string_of_int [simp, str_simps]: "py_int_str (string_of_int i) = Inr i"
proof (cases "i < 0")
  case True
  have "\<not> is_int_space CHR ''-''" by (simp add: is_int_space_def)
  then have "strip_space (string_of_int i) = string_of_int i"
    using True last_string_of_nat by (intro strip_space_id) (auto simp: string_of_int_def digit_not_space)
  with True show ?thesis
    by (simp add: py_int_str_def string_of_int_def int_digits_string_of_nat)
next
  case False
  let ?s = "string_of_nat (nat i)"
  have "strip_space ?s = ?s"
    using hd_string_of_nat last_string_of_nat by (intro strip_space_id) (auto simp: digit_not_space)
  moreover obtain c cs where "?s = c # cs" by (cases ?s) auto
  ultimately show ?thesis
    using False int_digits_string_of_nat[of "nat i"] hd_string_of_nat[of "nat i"]
    by (auto simp: py_int_str_def string_of_int_def dest: digit_not_special)
qed

lemma set_string_of_int: "c \<in> set (string_of_int i) \<Longrightarrow> is_digit c \<or> c = CHR ''-''"
  by (auto simp: string_of_int_def set_string_of_nat split: if_splits)

lemma string_of_int_free: "\<not> is_digit c \<Longrightarrow> c \<noteq> CHR ''-'' \<Longrightarrow> c \<notin> set (string_of_int i)"
  using set_string_of_int by blast

lemma string_of_int_unsigned: "0 \<le> i \<Longrightarrow> CHR ''-'' \<notin> set (string_of_int i)"
  using set_string_of_nat digit_not_special by (fastforce simp: string_of_int_def)

lemma string_of_int_ne [simp]: "string_of_int i \<noteq> []"
  by (simp add: string_of_int_def)

lemma string_of_int_inj: "string_of_int i = string_of_int j \<longleftrightarrow> i = j"
  by (metis py_int_string_of_int sum.inject(2))

section \<open>Evaluation\<close>

text \<open>
  Code equations that compute with integers instead of unary numbers, for the evaluation of closed
  terms.
\<close>

fun int_text :: "int \<Rightarrow> string" where
  "int_text i = (if i < 10 then [char_of (48 + i)] else int_text (i div 10) @ [char_of (48 + i mod 10)])"

declare int_text.simps [simp del]

lemma char_of_int: "0 \<le> i \<Longrightarrow> char_of i = char_of (nat i)"
  by (metis char_of_nat int_nat_eq)

lemma string_of_nat_text [code]: "string_of_nat n = int_text (int n)"
proof (induction n rule: string_of_nat.induct)
  case (1 n)
  have "char_of (48 + int n mod 10) = digit_char (n mod 10)" for n
    unfolding digit_char_def by (subst char_of_int) (simp_all add: nat_add_distrib nat_mod_distrib)
  moreover have "n < 10 \<Longrightarrow> char_of (48 + int n) = digit_char n" for n
    unfolding digit_char_def by (subst char_of_int) (simp_all add: nat_add_distrib)
  ultimately show ?case using 1 by (subst string_of_nat.simps, subst int_text.simps) (auto simp: zdiv_int)
qed

lemma string_of_int_code [code]:
  "string_of_int i = (if i < 0 then CHR ''-'' # int_text (- i) else int_text i)"
  by (simp add: string_of_int_def string_of_nat_text)

lemma char_code_int: "(of_char c :: int) = int (of_char c)"
  by (simp add: of_nat_of_char)

lemma is_digit_code [code]: "is_digit c \<longleftrightarrow> (let n = (of_char c :: int) in 48 \<le> n \<and> n \<le> 57)"
  unfolding is_digit_def Let_def char_code_int by linarith

lemma digit_val_code [code]: "digit_val c = of_char c - 48"
  by (simp add: digit_val_def char_code_int)

section \<open>Sets\<close>

text \<open>Adding to a Python set, kept as a list without repetitions.\<close>

definition set_add :: "'a \<Rightarrow> 'a list \<Rightarrow> 'a list" where
  "set_add x xs = (if x \<in> set xs then xs else xs @ [x])"

lemma set_set_add [simp]: "set (set_add x xs) = insert x (set xs)"
  by (auto simp: set_add_def)

lemma distinct_set_add [simp]: "distinct (set_add x xs) \<longleftrightarrow> distinct xs"
  by (auto simp: set_add_def)

end
