(* ===== verification/Py_Json.thy ===== *)
theory Py_Json
  imports Prelude
begin

text \<open>
  JSON values as the Python code sees them after decoding, and the operations it applies to
  values of unknown shape: \<open>int(v)\<close>, truth value, \<open>v.get(k)\<close>, \<open>v[k]\<close>, hashing and
  \<open>set(v)\<close>. Each is total here and returns the exception Python raises on the wrong shape.
  Lists and dictionaries are the plain (unfrozen) ones, which is the default of the sources.
\<close>

datatype json =
    JNull
  | JBool bool
  | JInt int
  | JFloat rat
  | JStr string
  | JList "json list"
  | JDict "(string \<times> json) list"

type_synonym json_dict = "(string, json) dict"

fun is_mapping :: "json \<Rightarrow> bool" where
  "is_mapping (JDict d) = True"
| "is_mapping _ = False"

fun is_str :: "json \<Rightarrow> bool" where
  "is_str (JStr s) = True"
| "is_str _ = False"

text \<open>\<open>type(v) is int\<close>: a \<open>bool\<close> is an instance of \<open>int\<close> but its type is not \<open>int\<close>.\<close>

fun type_is_int :: "json \<Rightarrow> bool" where
  "type_is_int (JInt i) = True"
| "type_is_int _ = False"

fun hashable :: "json \<Rightarrow> bool" where
  "hashable (JList xs) = False"
| "hashable (JDict d) = False"
| "hashable _ = True"

fun truthy :: "json \<Rightarrow> bool" where
  "truthy JNull = False"
| "truthy (JBool b) = b"
| "truthy (JInt i) = (i \<noteq> 0)"
| "truthy (JFloat r) = (r \<noteq> 0)"
| "truthy (JStr s) = (s \<noteq> [])"
| "truthy (JList xs) = (xs \<noteq> [])"
| "truthy (JDict d) = (d \<noteq> [])"

fun py_int :: "json \<Rightarrow> int res" where
  "py_int (JInt i) = Inr i"
| "py_int (JBool b) = Inr (if b then 1 else 0)"
| "py_int (JFloat r) = Inr (if r < 0 then \<lceil>r\<rceil> else \<lfloor>r\<rfloor>)"
| "py_int (JStr s) = py_int_str s"
| "py_int _ = Inl TypeError"

fun json_get :: "json \<Rightarrow> string \<Rightarrow> json option res" where
  "json_get (JDict d) k = Inr (dget d k)"
| "json_get _ k = Inl AttributeError"

fun json_items :: "json \<Rightarrow> (string \<times> json) list res" where
  "json_items (JDict d) = Inr d"
| "json_items _ = Inl AttributeError"

fun json_sub :: "json \<Rightarrow> string \<Rightarrow> json res" where
  "json_sub (JDict d) k = dsub d k"
| "json_sub _ k = Inl TypeError"

text \<open>\<open>k in v\<close> for a string \<open>k\<close>.\<close>

fun json_in :: "string \<Rightarrow> json \<Rightarrow> bool res" where
  "json_in k (JDict d) = Inr (dhas d k)"
| "json_in k (JList xs) = Inr (JStr k \<in> set xs)"
| "json_in k (JStr s) = Inr (sublist k s)"
| "json_in k _ = Inl TypeError"

text \<open>\<open>list(v)\<close>: the elements an iteration over a value yields.\<close>

fun py_list :: "json \<Rightarrow> json list res" where
  "py_list (JList xs) = Inr xs"
| "py_list (JStr s) = Inr (map (\<lambda>c. JStr [c]) s)"
| "py_list (JDict d) = Inr (map (\<lambda>p. JStr (fst p)) d)"
| "py_list _ = Inl TypeError"

text \<open>\<open>set(v)\<close>, as the list of its elements.\<close>

definition py_set :: "json \<Rightarrow> json list res" where
  "py_set v = rbind (py_list v) (\<lambda>xs.
     if list_all hashable xs then Inr xs else Inl TypeError)"

lemma py_set_ok: "py_set v = Inr xs \<longleftrightarrow> py_list v = Inr xs \<and> list_all hashable xs"
  by (auto simp: py_set_def split: if_splits)

lemma json_get_ok: "json_get v k = Inr r \<longleftrightarrow> (\<exists>d. v = JDict d \<and> r = dget d k)"
  by (cases v) auto

lemma json_items_ok: "json_items v = Inr d \<longleftrightarrow> v = JDict d"
  by (cases v) auto

lemma json_sub_ok: "json_sub v k = Inr x \<longleftrightarrow> (\<exists>d. v = JDict d \<and> dget d k = Some x)"
  by (cases v) auto

lemma is_mapping_iff: "is_mapping v \<longleftrightarrow> (\<exists>d. v = JDict d)"
  by (cases v) auto

lemma type_is_int_iff: "type_is_int v \<longleftrightarrow> (\<exists>i. v = JInt i)"
  by (cases v) auto

lemma is_str_iff: "is_str v \<longleftrightarrow> (\<exists>s. v = JStr s)"
  by (cases v) auto

end
