(* ===== verification/Room_Versions.thy ===== *)
theory Room_Versions
  imports Prelude
begin

text \<open>
  The room versions of \<open>api/room_versions.py\<close>: the record of feature flags of a version, the
  sixteen versions the sources define, and the dictionary of the versions a server recognises.
  The coherence lemma collects the dependencies between flags that the authorisation rules and
  the event classes rely on.
\<close>

datatype EventFormatVersions = ROOM_V1_V2 | ROOM_V3 | ROOM_V4_PLUS | ROOM_V11_HYDRA_PLUS

datatype StateResolutionVersions = STATE_RES_V1 | STATE_RES_V2 | STATE_RES_V2_1

datatype RoomDisposition = STABLE | UNSTABLE

definition EXTENSIBLE_EVENTS :: string where
  "EXTENSIBLE_EVENTS = ''org.matrix.msc3932.extensible_events''"

record RoomVersion =
  rv_identifier :: string
  disposition :: RoomDisposition
  event_format :: EventFormatVersions
  state_res :: StateResolutionVersions
  enforce_key_validity :: bool
  special_case_aliases_auth :: bool
  strict_canonicaljson :: bool
  limit_notifications_power_levels :: bool
  implicit_room_creator :: bool
  updated_redaction_rules :: bool
  restricted_join_rule :: bool
  restricted_join_rule_fix :: bool
  knock_join_rule :: bool
  msc3389_relation_redactions :: bool
  knock_restricted_join_rule :: bool
  enforce_int_power_levels :: bool
  msc3931_push_features :: "string list"
  msc3757_enabled :: bool
  msc4289_creator_power_enabled :: bool
  msc4291_room_ids_as_hashes :: bool

definition RV_V1 :: RoomVersion where
  "RV_V1 = \<lparr>
     rv_identifier = ''1'',
     disposition = STABLE,
     event_format = ROOM_V1_V2,
     state_res = STATE_RES_V1,
     enforce_key_validity = False,
     special_case_aliases_auth = True,
     strict_canonicaljson = False,
     limit_notifications_power_levels = False,
     implicit_room_creator = False,
     updated_redaction_rules = False,
     restricted_join_rule = False,
     restricted_join_rule_fix = False,
     knock_join_rule = False,
     msc3389_relation_redactions = False,
     knock_restricted_join_rule = False,
     enforce_int_power_levels = False,
     msc3931_push_features = [],
     msc3757_enabled = False,
     msc4289_creator_power_enabled = False,
     msc4291_room_ids_as_hashes = False\<rparr>"

definition RV_V2 :: RoomVersion where
  "RV_V2 = \<lparr>
     rv_identifier = ''2'',
     disposition = STABLE,
     event_format = ROOM_V1_V2,
     state_res = STATE_RES_V2,
     enforce_key_validity = False,
     special_case_aliases_auth = True,
     strict_canonicaljson = False,
     limit_notifications_power_levels = False,
     implicit_room_creator = False,
     updated_redaction_rules = False,
     restricted_join_rule = False,
     restricted_join_rule_fix = False,
     knock_join_rule = False,
     msc3389_relation_redactions = False,
     knock_restricted_join_rule = False,
     enforce_int_power_levels = False,
     msc3931_push_features = [],
     msc3757_enabled = False,
     msc4289_creator_power_enabled = False,
     msc4291_room_ids_as_hashes = False\<rparr>"

definition RV_V3 :: RoomVersion where
  "RV_V3 = \<lparr>
     rv_identifier = ''3'',
     disposition = STABLE,
     event_format = ROOM_V3,
     state_res = STATE_RES_V2,
     enforce_key_validity = False,
     special_case_aliases_auth = True,
     strict_canonicaljson = False,
     limit_notifications_power_levels = False,
     implicit_room_creator = False,
     updated_redaction_rules = False,
     restricted_join_rule = False,
     restricted_join_rule_fix = False,
     knock_join_rule = False,
     msc3389_relation_redactions = False,
     knock_restricted_join_rule = False,
     enforce_int_power_levels = False,
     msc3931_push_features = [],
     msc3757_enabled = False,
     msc4289_creator_power_enabled = False,
     msc4291_room_ids_as_hashes = False\<rparr>"

definition RV_V4 :: RoomVersion where
  "RV_V4 = \<lparr>
     rv_identifier = ''4'',
     disposition = STABLE,
     event_format = ROOM_V4_PLUS,
     state_res = STATE_RES_V2,
     enforce_key_validity = False,
     special_case_aliases_auth = True,
     strict_canonicaljson = False,
     limit_notifications_power_levels = False,
     implicit_room_creator = False,
     updated_redaction_rules = False,
     restricted_join_rule = False,
     restricted_join_rule_fix = False,
     knock_join_rule = False,
     msc3389_relation_redactions = False,
     knock_restricted_join_rule = False,
     enforce_int_power_levels = False,
     msc3931_push_features = [],
     msc3757_enabled = False,
     msc4289_creator_power_enabled = False,
     msc4291_room_ids_as_hashes = False\<rparr>"

definition RV_V5 :: RoomVersion where
  "RV_V5 = \<lparr>
     rv_identifier = ''5'',
     disposition = STABLE,
     event_format = ROOM_V4_PLUS,
     state_res = STATE_RES_V2,
     enforce_key_validity = True,
     special_case_aliases_auth = True,
     strict_canonicaljson = False,
     limit_notifications_power_levels = False,
     implicit_room_creator = False,
     updated_redaction_rules = False,
     restricted_join_rule = False,
     restricted_join_rule_fix = False,
     knock_join_rule = False,
     msc3389_relation_redactions = False,
     knock_restricted_join_rule = False,
     enforce_int_power_levels = False,
     msc3931_push_features = [],
     msc3757_enabled = False,
     msc4289_creator_power_enabled = False,
     msc4291_room_ids_as_hashes = False\<rparr>"

definition RV_V6 :: RoomVersion where
  "RV_V6 = \<lparr>
     rv_identifier = ''6'',
     disposition = STABLE,
     event_format = ROOM_V4_PLUS,
     state_res = STATE_RES_V2,
     enforce_key_validity = True,
     special_case_aliases_auth = False,
     strict_canonicaljson = True,
     limit_notifications_power_levels = True,
     implicit_room_creator = False,
     updated_redaction_rules = False,
     restricted_join_rule = False,
     restricted_join_rule_fix = False,
     knock_join_rule = False,
     msc3389_relation_redactions = False,
     knock_restricted_join_rule = False,
     enforce_int_power_levels = False,
     msc3931_push_features = [],
     msc3757_enabled = False,
     msc4289_creator_power_enabled = False,
     msc4291_room_ids_as_hashes = False\<rparr>"

definition RV_V7 :: RoomVersion where
  "RV_V7 = \<lparr>
     rv_identifier = ''7'',
     disposition = STABLE,
     event_format = ROOM_V4_PLUS,
     state_res = STATE_RES_V2,
     enforce_key_validity = True,
     special_case_aliases_auth = False,
     strict_canonicaljson = True,
     limit_notifications_power_levels = True,
     implicit_room_creator = False,
     updated_redaction_rules = False,
     restricted_join_rule = False,
     restricted_join_rule_fix = False,
     knock_join_rule = True,
     msc3389_relation_redactions = False,
     knock_restricted_join_rule = False,
     enforce_int_power_levels = False,
     msc3931_push_features = [],
     msc3757_enabled = False,
     msc4289_creator_power_enabled = False,
     msc4291_room_ids_as_hashes = False\<rparr>"

definition RV_V8 :: RoomVersion where
  "RV_V8 = \<lparr>
     rv_identifier = ''8'',
     disposition = STABLE,
     event_format = ROOM_V4_PLUS,
     state_res = STATE_RES_V2,
     enforce_key_validity = True,
     special_case_aliases_auth = False,
     strict_canonicaljson = True,
     limit_notifications_power_levels = True,
     implicit_room_creator = False,
     updated_redaction_rules = False,
     restricted_join_rule = True,
     restricted_join_rule_fix = False,
     knock_join_rule = True,
     msc3389_relation_redactions = False,
     knock_restricted_join_rule = False,
     enforce_int_power_levels = False,
     msc3931_push_features = [],
     msc3757_enabled = False,
     msc4289_creator_power_enabled = False,
     msc4291_room_ids_as_hashes = False\<rparr>"

definition RV_V9 :: RoomVersion where
  "RV_V9 = \<lparr>
     rv_identifier = ''9'',
     disposition = STABLE,
     event_format = ROOM_V4_PLUS,
     state_res = STATE_RES_V2,
     enforce_key_validity = True,
     special_case_aliases_auth = False,
     strict_canonicaljson = True,
     limit_notifications_power_levels = True,
     implicit_room_creator = False,
     updated_redaction_rules = False,
     restricted_join_rule = True,
     restricted_join_rule_fix = True,
     knock_join_rule = True,
     msc3389_relation_redactions = False,
     knock_restricted_join_rule = False,
     enforce_int_power_levels = False,
     msc3931_push_features = [],
     msc3757_enabled = False,
     msc4289_creator_power_enabled = False,
     msc4291_room_ids_as_hashes = False\<rparr>"

definition RV_V10 :: RoomVersion where
  "RV_V10 = \<lparr>
     rv_identifier = ''10'',
     disposition = STABLE,
     event_format = ROOM_V4_PLUS,
     state_res = STATE_RES_V2,
     enforce_key_validity = True,
     special_case_aliases_auth = False,
     strict_canonicaljson = True,
     limit_notifications_power_levels = True,
     implicit_room_creator = False,
     updated_redaction_rules = False,
     restricted_join_rule = True,
     restricted_join_rule_fix = True,
     knock_join_rule = True,
     msc3389_relation_redactions = False,
     knock_restricted_join_rule = True,
     enforce_int_power_levels = True,
     msc3931_push_features = [],
     msc3757_enabled = False,
     msc4289_creator_power_enabled = False,
     msc4291_room_ids_as_hashes = False\<rparr>"

definition RV_MSC1767v10 :: RoomVersion where
  "RV_MSC1767v10 = \<lparr>
     rv_identifier = ''org.matrix.msc1767.10'',
     disposition = UNSTABLE,
     event_format = ROOM_V4_PLUS,
     state_res = STATE_RES_V2,
     enforce_key_validity = True,
     special_case_aliases_auth = False,
     strict_canonicaljson = True,
     limit_notifications_power_levels = True,
     implicit_room_creator = False,
     updated_redaction_rules = False,
     restricted_join_rule = True,
     restricted_join_rule_fix = True,
     knock_join_rule = True,
     msc3389_relation_redactions = False,
     knock_restricted_join_rule = True,
     enforce_int_power_levels = True,
     msc3931_push_features = [EXTENSIBLE_EVENTS],
     msc3757_enabled = False,
     msc4289_creator_power_enabled = False,
     msc4291_room_ids_as_hashes = False\<rparr>"

definition RV_MSC3757v10 :: RoomVersion where
  "RV_MSC3757v10 = \<lparr>
     rv_identifier = ''org.matrix.msc3757.10'',
     disposition = UNSTABLE,
     event_format = ROOM_V4_PLUS,
     state_res = STATE_RES_V2,
     enforce_key_validity = True,
     special_case_aliases_auth = False,
     strict_canonicaljson = True,
     limit_notifications_power_levels = True,
     implicit_room_creator = False,
     updated_redaction_rules = False,
     restricted_join_rule = True,
     restricted_join_rule_fix = True,
     knock_join_rule = True,
     msc3389_relation_redactions = False,
     knock_restricted_join_rule = True,
     enforce_int_power_levels = True,
     msc3931_push_features = [],
     msc3757_enabled = True,
     msc4289_creator_power_enabled = False,
     msc4291_room_ids_as_hashes = False\<rparr>"

definition RV_V11 :: RoomVersion where
  "RV_V11 = \<lparr>
     rv_identifier = ''11'',
     disposition = STABLE,
     event_format = ROOM_V4_PLUS,
     state_res = STATE_RES_V2,
     enforce_key_validity = True,
     special_case_aliases_auth = False,
     strict_canonicaljson = True,
     limit_notifications_power_levels = True,
     implicit_room_creator = True,
     updated_redaction_rules = True,
     restricted_join_rule = True,
     restricted_join_rule_fix = True,
     knock_join_rule = True,
     msc3389_relation_redactions = False,
     knock_restricted_join_rule = True,
     enforce_int_power_levels = True,
     msc3931_push_features = [],
     msc3757_enabled = False,
     msc4289_creator_power_enabled = False,
     msc4291_room_ids_as_hashes = False\<rparr>"

definition RV_MSC3757v11 :: RoomVersion where
  "RV_MSC3757v11 = \<lparr>
     rv_identifier = ''org.matrix.msc3757.11'',
     disposition = UNSTABLE,
     event_format = ROOM_V4_PLUS,
     state_res = STATE_RES_V2,
     enforce_key_validity = True,
     special_case_aliases_auth = False,
     strict_canonicaljson = True,
     limit_notifications_power_levels = True,
     implicit_room_creator = True,
     updated_redaction_rules = True,
     restricted_join_rule = True,
     restricted_join_rule_fix = True,
     knock_join_rule = True,
     msc3389_relation_redactions = False,
     knock_restricted_join_rule = True,
     enforce_int_power_levels = True,
     msc3931_push_features = [],
     msc3757_enabled = True,
     msc4289_creator_power_enabled = False,
     msc4291_room_ids_as_hashes = False\<rparr>"

definition RV_HydraV11 :: RoomVersion where
  "RV_HydraV11 = \<lparr>
     rv_identifier = ''org.matrix.hydra.11'',
     disposition = UNSTABLE,
     event_format = ROOM_V11_HYDRA_PLUS,
     state_res = STATE_RES_V2_1,
     enforce_key_validity = True,
     special_case_aliases_auth = False,
     strict_canonicaljson = True,
     limit_notifications_power_levels = True,
     implicit_room_creator = True,
     updated_redaction_rules = True,
     restricted_join_rule = True,
     restricted_join_rule_fix = True,
     knock_join_rule = True,
     msc3389_relation_redactions = False,
     knock_restricted_join_rule = True,
     enforce_int_power_levels = True,
     msc3931_push_features = [],
     msc3757_enabled = False,
     msc4289_creator_power_enabled = True,
     msc4291_room_ids_as_hashes = True\<rparr>"

definition RV_V12 :: RoomVersion where
  "RV_V12 = \<lparr>
     rv_identifier = ''12'',
     disposition = STABLE,
     event_format = ROOM_V11_HYDRA_PLUS,
     state_res = STATE_RES_V2_1,
     enforce_key_validity = True,
     special_case_aliases_auth = False,
     strict_canonicaljson = True,
     limit_notifications_power_levels = True,
     implicit_room_creator = True,
     updated_redaction_rules = True,
     restricted_join_rule = True,
     restricted_join_rule_fix = True,
     knock_join_rule = True,
     msc3389_relation_redactions = False,
     knock_restricted_join_rule = True,
     enforce_int_power_levels = True,
     msc3931_push_features = [],
     msc3757_enabled = False,
     msc4289_creator_power_enabled = True,
     msc4291_room_ids_as_hashes = True\<rparr>"

lemmas RV_defs = RV_V1_def RV_V2_def RV_V3_def RV_V4_def RV_V5_def RV_V6_def RV_V7_def RV_V8_def
  RV_V9_def RV_V10_def RV_MSC1767v10_def RV_MSC3757v10_def RV_V11_def RV_MSC3757v11_def
  RV_HydraV11_def RV_V12_def

definition KNOWN_ROOM_VERSIONS :: "(string, RoomVersion) dict" where
  "KNOWN_ROOM_VERSIONS = map (\<lambda>v. (rv_identifier v, v))
     [RV_V1, RV_V2, RV_V3, RV_V4, RV_V5, RV_V6, RV_V7, RV_V8, RV_V9, RV_V10, RV_V11, RV_V12,
      RV_MSC3757v10, RV_MSC3757v11, RV_HydraV11]"

section \<open>Coherence of the flags\<close>

text \<open>
  What other components take for granted about a version: the two flavours of restricted rules
  build on the plain ones, the redaction fix needs the restricted rule, hashes as room identifiers
  come with the event format that computes them, and the creator-power rules presuppose both an
  implicit creator and integer power levels.
\<close>

definition coherent_version :: "RoomVersion \<Rightarrow> bool" where
  "coherent_version v \<longleftrightarrow>
     (knock_restricted_join_rule v \<longrightarrow> restricted_join_rule v \<and> knock_join_rule v)
   \<and> (restricted_join_rule_fix v \<longrightarrow> restricted_join_rule v)
   \<and> (msc4291_room_ids_as_hashes v \<longleftrightarrow> event_format v = ROOM_V11_HYDRA_PLUS)
   \<and> (msc4289_creator_power_enabled v \<longrightarrow> implicit_room_creator v \<and> enforce_int_power_levels v)
   \<and> (enforce_int_power_levels v \<longrightarrow> strict_canonicaljson v)"

lemma KNOWN_ROOM_VERSIONS_values: "set (dvalues KNOWN_ROOM_VERSIONS) =
    {RV_V1, RV_V2, RV_V3, RV_V4, RV_V5, RV_V6, RV_V7, RV_V8, RV_V9, RV_V10, RV_V11, RV_V12,
     RV_MSC3757v10, RV_MSC3757v11, RV_HydraV11}"
  by (auto simp: KNOWN_ROOM_VERSIONS_def)

lemma KNOWN_ROOM_VERSIONS_keys: "dkeys KNOWN_ROOM_VERSIONS =
    [''1'', ''2'', ''3'', ''4'', ''5'', ''6'', ''7'', ''8'', ''9'', ''10'', ''11'', ''12'',
     ''org.matrix.msc3757.10'', ''org.matrix.msc3757.11'', ''org.matrix.hydra.11'']"
  by (simp add: KNOWN_ROOM_VERSIONS_def RV_defs)

lemma wf_KNOWN_ROOM_VERSIONS: "wf_dict KNOWN_ROOM_VERSIONS"
  by (simp add: wf_dict_def KNOWN_ROOM_VERSIONS_keys)

lemma known_version_identifier: "dget KNOWN_ROOM_VERSIONS k = Some v \<Longrightarrow> rv_identifier v = k"
  by (drule map_of_SomeD) (auto simp: KNOWN_ROOM_VERSIONS_def)

lemma known_version_coherent: "dget KNOWN_ROOM_VERSIONS k = Some v \<Longrightarrow> coherent_version v"
proof -
  assume "dget KNOWN_ROOM_VERSIONS k = Some v"
  then have "v \<in> set (dvalues KNOWN_ROOM_VERSIONS)" by (force dest: map_of_SomeD)
  then show ?thesis
    unfolding KNOWN_ROOM_VERSIONS_values by (auto simp: coherent_version_def RV_defs)
qed

end
