(* ===== verification/Identifiers.thy ===== *)
theory Identifiers
  imports Prelude
begin

text \<open>
  Matrix identifiers and server names: \<open>util/stringutils.py\<close> and the identifier classes of
  \<open>types/__init__.py\<close>. The classes \<open>UserID\<close>, \<open>RoomAlias\<close>, \<open>RoomIdWithDomain\<close> and
  \<open>EventID\<close> differ only in their sigil, which is an argument here. The validity of an IPv6
  literal is decided by the \<open>netaddr\<close> package: \<open>valid_ipv6\<close> is an argument of the functions that
  call it.
\<close>

section \<open>Server names\<close>

definition parse_server_name :: "string \<Rightarrow> (string \<times> int option) res" where
  "parse_server_name server_name =
     (if server_name \<noteq> [] \<and> last server_name = CHR '']'' then Inr (server_name, None)
      else (case rsplit_once CHR '':'' server_name of
              [domain, port] \<Rightarrow> (case py_int_str port of
                                  Inl e \<Rightarrow> Inl ValueError
                                | Inr p \<Rightarrow> Inr (domain, Some p))
            | parts \<Rightarrow> Inr (hd parts, None)))"

definition host_char :: "char \<Rightarrow> bool" where
  "host_char c \<longleftrightarrow> (let n = (of_char c :: nat) in
     48 \<le> n \<and> n \<le> 57 \<or> 97 \<le> n \<and> n \<le> 122 \<or> 65 \<le> n \<and> n \<le> 90 \<or> c = CHR ''-'')"

text \<open>\<open>VALID_HOST_REGEX\<close>: non-empty labels of host characters, separated by dots.\<close>

definition valid_host :: "string \<Rightarrow> bool" where
  "valid_host host = list_all (\<lambda>l. l \<noteq> [] \<and> list_all host_char l) (split_on CHR ''.'' host)"

definition parse_and_validate_server_name ::
    "(string \<Rightarrow> bool) \<Rightarrow> string \<Rightarrow> (string \<times> int option) res" where
  "parse_and_validate_server_name valid_ipv6 server_name =
     rbind (parse_server_name server_name) (\<lambda>(host, port).
       if host \<noteq> [] \<and> hd host = CHR ''['' then
         if last host \<noteq> CHR '']'' then Inl ValueError
         else (let ipv6_address = butlast (tl host) in
               if ipv6_address = [] \<or> \<not> valid_ipv6 ipv6_address then Inl ValueError
               else Inr (host, port))
       else if \<not> valid_host host then Inl ValueError
       else Inr (host, port))"

definition valid_id_server_location :: "(string \<Rightarrow> bool) \<Rightarrow> string \<Rightarrow> bool" where
  "valid_id_server_location valid_ipv6 id_server =
     (let components = split_once CHR ''/'' id_server in
      if \<not> ok (parse_and_validate_server_name valid_ipv6 (hd components)) then False
      else (case components of
              [host, path] \<Rightarrow> CHR ''#'' \<notin> set path \<and> CHR ''?'' \<notin> set path
            | _ \<Rightarrow> True))"

text \<open>
  \<open>MXC_REGEX\<close> is \<open>^mxc://([^/]+)/([^/#?]+)$\<close>; its \<open>$\<close> also matches before a final newline,
  but a newline is in the last character class, which takes it first.
\<close>

definition parse_and_validate_mxc_uri ::
    "(string \<Rightarrow> bool) \<Rightarrow> string \<Rightarrow> (string \<times> int option \<times> string) res" where
  "parse_and_validate_mxc_uri valid_ipv6 mxc =
     (if \<not> starts_with ''mxc://'' mxc then Inl ValueError
      else (case split_once CHR ''/'' (drop 6 mxc) of
              [server_name, media_id] \<Rightarrow>
                if server_name = [] \<or> media_id = [] \<or> (\<exists>c \<in> set media_id. c \<in> set ''/#?'')
                then Inl ValueError
                else rbind (parse_and_validate_server_name valid_ipv6 server_name)
                  (\<lambda>(host, port). Inr (host, port, media_id))
            | _ \<Rightarrow> Inl ValueError))"

section \<open>Domain-specific identifiers\<close>

definition get_domain_from_id :: "string \<Rightarrow> string res" where
  "get_domain_from_id s = (case find_char CHR '':'' s of
       None \<Rightarrow> Inl (SynapseError 400 ''Invalid ID'')
     | Some idx \<Rightarrow> Inr (drop (idx + 1) s))"

definition get_localpart_from_id :: "string \<Rightarrow> string res" where
  "get_localpart_from_id s = (case find_char CHR '':'' s of
       None \<Rightarrow> Inl (SynapseError 400 ''Invalid ID'')
     | Some idx \<Rightarrow> Inr (drop 1 (take idx s)))"

record DomainSpecificString =
  localpart :: string
  domain :: string

definition dss_from_string :: "char \<Rightarrow> string \<Rightarrow> DomainSpecificString res" where
  "dss_from_string sigil s =
     (if s = [] \<or> hd s \<noteq> sigil then Inl (SynapseError 400 ''Expected string to start with sigil'')
      else (case split_once CHR '':'' (tl s) of
              [l, d] \<Rightarrow> Inr \<lparr>localpart = l, domain = d\<rparr>
            | _ \<Rightarrow> Inl (SynapseError 400 ''Expected localname:domain'')))"

definition dss_to_string :: "char \<Rightarrow> DomainSpecificString \<Rightarrow> string" where
  "dss_to_string sigil d = sigil # localpart d @ CHR '':'' # domain d"

definition dss_is_valid :: "(string \<Rightarrow> bool) \<Rightarrow> char \<Rightarrow> string \<Rightarrow> bool" where
  "dss_is_valid valid_ipv6 sigil s =
     ok (rbind (dss_from_string sigil s) (\<lambda>obj.
           parse_and_validate_server_name valid_ipv6 (domain obj)))"

abbreviation UserID_from_string :: "string \<Rightarrow> DomainSpecificString res" where
  "UserID_from_string \<equiv> dss_from_string CHR ''@''"

abbreviation UserID_is_valid :: "(string \<Rightarrow> bool) \<Rightarrow> string \<Rightarrow> bool" where
  "UserID_is_valid valid_ipv6 \<equiv> dss_is_valid valid_ipv6 CHR ''@''"

section \<open>Room identifiers with and without a domain\<close>

definition urlsafe_b64_char :: "char \<Rightarrow> bool" where
  "urlsafe_b64_char c \<longleftrightarrow> (let n = (of_char c :: nat) in
     65 \<le> n \<and> n \<le> 90 \<or> 97 \<le> n \<and> n \<le> 122 \<or> 48 \<le> n \<and> n \<le> 57 \<or> c = CHR ''-'' \<or> c = CHR ''_'')"

text \<open>
  \<open>ROOM_ID_PATTERN_DOMAINLESS.match\<close> for the pattern \<open>^[A-Za-z0-9\-_]{43}$\<close>: Python's \<open>$\<close>
  matches at the end and also before a newline at the end.
\<close>

definition match_domainless :: "string \<Rightarrow> bool" where
  "match_domainless s =
     (let v = (if s \<noteq> [] \<and> last s = CHR 0x0A then butlast s else s)
      in length v = 43 \<and> list_all urlsafe_b64_char v)"

record RoomID =
  room_id_id :: string
  room_id_with_domain :: "DomainSpecificString option"

definition RoomID_from_string :: "string \<Rightarrow> RoomID res" where
  "RoomID_from_string s =
     (if s = [] \<or> hd s \<noteq> CHR ''!'' then Inl (SynapseError 400 ''Expected string to start with sigil'')
      else if CHR '':'' \<in> set s then
        rbind (dss_from_string CHR ''!'' s) (\<lambda>d. Inr \<lparr>room_id_id = s, room_id_with_domain = Some d\<rparr>)
      else if \<not> match_domainless (tl s) then Inl (SynapseError 400 ''Expected urlsafe unpadded base64'')
      else Inr \<lparr>room_id_id = s, room_id_with_domain = None\<rparr>)"

definition RoomID_is_valid :: "(string \<Rightarrow> bool) \<Rightarrow> string \<Rightarrow> bool" where
  "RoomID_is_valid valid_ipv6 s =
     (if CHR '':'' \<in> set s then dss_is_valid valid_ipv6 CHR ''!'' s else ok (RoomID_from_string s))"

definition RoomID_get_domain :: "RoomID \<Rightarrow> string option" where
  "RoomID_get_domain r = map_option domain (room_id_with_domain r)"

definition RoomID_to_string :: "RoomID \<Rightarrow> string" where
  "RoomID_to_string r = (case room_id_with_domain r of
       Some d \<Rightarrow> dss_to_string CHR ''!'' d | None \<Rightarrow> room_id_id r)"

section \<open>Properties of the parsers\<close>

lemma dss_from_string_ok:
  "dss_from_string sigil s = Inr d \<longleftrightarrow> s = dss_to_string sigil d \<and> CHR '':'' \<notin> set (localpart d)"
proof
  assume "dss_from_string sigil s = Inr d"
  then have s: "s = sigil # tl s" and "split_once CHR '':'' (tl s) = [localpart d, domain d]"
    by (auto simp: dss_from_string_def split: if_splits list.splits intro: list.expand)
  then show "s = dss_to_string sigil d \<and> CHR '':'' \<notin> set (localpart d)"
    by (metis dss_to_string_def split_once_eq_pair)
qed (auto simp: dss_from_string_def dss_to_string_def)

lemma get_domain_ok: "get_domain_from_id s = Inr d \<longleftrightarrow> (\<exists>l. s = l @ CHR '':'' # d \<and> CHR '':'' \<notin> set l)"
proof
  assume "get_domain_from_id s = Inr d"
  then obtain i where i: "find_char CHR '':'' s = Some i" and "d = drop (Suc i) s"
    by (auto simp: get_domain_from_id_def split: option.splits)
  then show "\<exists>l. s = l @ CHR '':'' # d \<and> CHR '':'' \<notin> set l"
    using find_char_split[OF i] find_char_Some[OF i] by blast
qed (auto simp: get_domain_from_id_def)

lemma get_domain_error: "get_domain_from_id s = Inl e \<Longrightarrow> CHR '':'' \<notin> set s \<and> e = SynapseError 400 ''Invalid ID''"
  by (auto simp: get_domain_from_id_def split: option.splits)

lemma get_domain_of_dss:
  "dss_from_string sigil s = Inr d \<Longrightarrow> sigil \<noteq> CHR '':'' \<Longrightarrow> get_domain_from_id s = Inr (domain d)"
  by (auto simp: dss_from_string_ok dss_to_string_def get_domain_ok intro!: exI[of _ "sigil # localpart d"])

lemma get_localpart_of_dss:
  "dss_from_string sigil s = Inr d \<Longrightarrow> sigil \<noteq> CHR '':'' \<Longrightarrow> get_localpart_from_id s = Inr (localpart d)"
  using find_char_append[of "CHR '':''" "sigil # localpart d" "domain d"]
  by (auto simp: dss_from_string_ok dss_to_string_def get_localpart_from_id_def)

end
