(* ===== verification/Events.thy ===== *)
theory Events
  imports Py_Json Room_Versions Identifiers
begin

text \<open>
  Events of \<open>events/__init__.py\<close> with the constants of \<open>api/constants.py\<close> that they use. The
  record holds the top-level fields the classes declare with their declared types; a field that may
  be missing from the event dictionary is an option. The event identifier is a field: for the first
  format it is part of the dictionary, for the others it is \<open>$\<close> followed by the reference hash,
  which the \<open>hashlib\<close> and \<open>canonicaljson\<close> packages compute. The four classes \<open>FrozenEvent\<close> to
  \<open>FrozenEventV4\<close> are told apart by the event format of the room version, as
  \<open>_event_type_from_format_version\<close> does.
\<close>

section \<open>Constants\<close>

abbreviation EventTypes_Member :: string where "EventTypes_Member \<equiv> ''m.room.member''"
abbreviation EventTypes_Create :: string where "EventTypes_Create \<equiv> ''m.room.create''"
abbreviation EventTypes_JoinRules :: string where "EventTypes_JoinRules \<equiv> ''m.room.join_rules''"
abbreviation EventTypes_PowerLevels :: string where "EventTypes_PowerLevels \<equiv> ''m.room.power_levels''"
abbreviation EventTypes_Aliases :: string where "EventTypes_Aliases \<equiv> ''m.room.aliases''"
abbreviation EventTypes_Redaction :: string where "EventTypes_Redaction \<equiv> ''m.room.redaction''"
abbreviation EventTypes_ThirdPartyInvite :: string where
  "EventTypes_ThirdPartyInvite \<equiv> ''m.room.third_party_invite''"
abbreviation EventTypes_RoomHistoryVisibility :: string where
  "EventTypes_RoomHistoryVisibility \<equiv> ''m.room.history_visibility''"

abbreviation Membership_INVITE :: json where "Membership_INVITE \<equiv> JStr ''invite''"
abbreviation Membership_JOIN :: json where "Membership_JOIN \<equiv> JStr ''join''"
abbreviation Membership_KNOCK :: json where "Membership_KNOCK \<equiv> JStr ''knock''"
abbreviation Membership_LEAVE :: json where "Membership_LEAVE \<equiv> JStr ''leave''"
abbreviation Membership_BAN :: json where "Membership_BAN \<equiv> JStr ''ban''"

abbreviation JoinRules_PUBLIC :: json where "JoinRules_PUBLIC \<equiv> JStr ''public''"
abbreviation JoinRules_KNOCK :: json where "JoinRules_KNOCK \<equiv> JStr ''knock''"
abbreviation JoinRules_INVITE :: json where "JoinRules_INVITE \<equiv> JStr ''invite''"
abbreviation JoinRules_RESTRICTED :: json where "JoinRules_RESTRICTED \<equiv> JStr ''restricted''"
abbreviation JoinRules_KNOCK_RESTRICTED :: json where
  "JoinRules_KNOCK_RESTRICTED \<equiv> JStr ''knock_restricted''"

abbreviation F_FEDERATE :: string where "F_FEDERATE \<equiv> ''m.federate''"
abbreviation F_ROOM_CREATOR :: string where "F_ROOM_CREATOR \<equiv> ''creator''"
abbreviation F_ADDITIONAL_CREATORS :: string where "F_ADDITIONAL_CREATORS \<equiv> ''additional_creators''"
abbreviation F_AUTHORISING_USER :: string where
  "F_AUTHORISING_USER \<equiv> ''join_authorised_via_users_server''"

definition MAX_PDU_SIZE :: nat where "MAX_PDU_SIZE = 65536"

definition CANONICALJSON_MAX_INT :: int where "CANONICALJSON_MAX_INT = 2 ^ 53 - 1"

definition CANONICALJSON_MIN_INT :: int where "CANONICALJSON_MIN_INT = - CANONICALJSON_MAX_INT"

definition CREATOR_POWER_LEVEL :: int where "CREATOR_POWER_LEVEL = 2 ^ 53"

section \<open>Events\<close>

record EventBase =
  ev_type :: string
  ev_sender :: string
  ev_state_key :: "string option"
  ev_content :: json_dict
  ev_prev_events :: "string list"
  ev_auth_events :: "string list"
  ev_depth :: int
  ev_origin_server_ts :: int
  ev_room_id :: "string option"
  ev_redacts :: "json option"
  ev_event_id :: string
  ev_signatures :: "(string, (string, string) dict) dict"
  ev_room_version :: RoomVersion
  ev_rejected_reason :: "string option"
  ev_recheck_redaction :: bool

definition get_state_key :: "EventBase \<Rightarrow> string option" where
  "get_state_key e = ev_state_key e"

definition is_state :: "EventBase \<Rightarrow> bool" where
  "is_state e \<longleftrightarrow> get_state_key e \<noteq> None"

text \<open>The attribute \<open>state_key\<close> is a \<open>DictProperty\<close>: a missing key is an \<open>AttributeError\<close>.\<close>

definition state_key :: "EventBase \<Rightarrow> string res" where
  "state_key e = (case ev_state_key e of None \<Rightarrow> Inl AttributeError | Some k \<Rightarrow> Inr k)"

definition membership :: "EventBase \<Rightarrow> json res" where
  "membership e = dsub (ev_content e) ''membership''"

definition redacts :: "EventBase \<Rightarrow> json option" where
  "redacts e = (if updated_redaction_rules (ev_room_version e) then dget (ev_content e) ''redacts''
                else ev_redacts e)"

definition is_create_event :: "EventBase \<Rightarrow> bool" where
  "is_create_event e \<longleftrightarrow> ev_type e = EventTypes_Create \<and> get_state_key e = Some []"

definition room_id :: "EventBase \<Rightarrow> string res" where
  "room_id e =
     (if event_format (ev_room_version e) = ROOM_V11_HYDRA_PLUS \<and> is_create_event e
      then Inr (CHR ''!'' # drop 1 (ev_event_id e))
      else (case ev_room_id e of None \<Rightarrow> Inl KeyError | Some r \<Rightarrow> Inr r))"

definition prev_event_ids :: "EventBase \<Rightarrow> string list" where
  "prev_event_ids e = ev_prev_events e"

definition auth_event_ids :: "EventBase \<Rightarrow> string list res" where
  "auth_event_ids e =
     (if event_format (ev_room_version e) = ROOM_V11_HYDRA_PLUS then
        rbind (room_id e) (\<lambda>rid.
          let create_event_id = CHR ''$'' # drop 1 rid in
          if create_event_id \<in> set (ev_auth_events e) then Inl AssertionError
          else if is_create_event e then Inr (ev_auth_events e)
          else Inr (ev_auth_events e @ [create_event_id]))
      else Inr (ev_auth_events e))"

definition is_creator :: "EventBase \<Rightarrow> string \<Rightarrow> bool res" where
  "is_creator create user_id =
     (if ev_type create \<noteq> EventTypes_Create then Inl AssertionError
      else if ev_sender create = user_id then Inr True
      else if msc4289_creator_power_enabled (ev_room_version create) then
        rbind (py_set (dget_or (ev_content create) F_ADDITIONAL_CREATORS (JList [])))
          (\<lambda>additional_creators. Inr (JStr user_id \<in> set additional_creators))
      else Inr False)"

record EventRelation =
  parent_id :: string
  rel_type :: string
  aggregation_key :: "string option"

definition relation_from_event :: "EventBase \<Rightarrow> EventRelation option" where
  "relation_from_event e =
     (case dget (ev_content e) ''m.relates_to'' of
        Some (JDict relation) \<Rightarrow>
          if relation = [] then None
          else (case (dget relation ''rel_type'', dget relation ''event_id'') of
            (Some (JStr rt), Some (JStr pid)) \<Rightarrow>
              Some \<lparr>parent_id = pid, rel_type = rt,
                    aggregation_key =
                      (if rt = ''m.annotation''
                       then (case dget relation ''key'' of Some (JStr k) \<Rightarrow> Some k | _ \<Rightarrow> None)
                       else None)\<rparr>
          | _ \<Rightarrow> None)
      | _ \<Rightarrow> None)"

section \<open>State maps\<close>

type_synonym StateKey = "string \<times> string"
type_synonym state_map = "StateKey \<Rightarrow> EventBase option"

abbreviation CREATE_KEY :: StateKey where "CREATE_KEY \<equiv> (EventTypes_Create, [])"

text \<open>
  A lookup whose key holds a value read from event content: an unhashable value raises, a hashable
  value that is not a string is never found.
\<close>

fun state_get :: "state_map \<Rightarrow> string \<Rightarrow> json \<Rightarrow> EventBase option res" where
  "state_get m t (JStr s) = Inr (m (t, s))"
| "state_get m t v = (if hashable v then Inr None else Inl TypeError)"

text \<open>The dictionary comprehension \<open>{(e.type, e.state_key): e for e in events}\<close>.\<close>

fun state_dict :: "EventBase list \<Rightarrow> state_map \<Rightarrow> state_map res" where
  "state_dict [] m = Inr m"
| "state_dict (e # es) m = rbind (state_key e) (\<lambda>k. state_dict es (m((ev_type e, k) \<mapsto> e)))"

lemma state_key_ok [simp]: "state_key e = Inr k \<longleftrightarrow> ev_state_key e = Some k"
  by (auto simp: state_key_def split: option.splits)

lemma is_state_iff: "is_state e \<longleftrightarrow> (\<exists>k. ev_state_key e = Some k)"
  by (auto simp: is_state_def get_state_key_def)

lemma membership_ok [simp]: "membership e = Inr m \<longleftrightarrow> dget (ev_content e) ''membership'' = Some m"
  by (simp add: membership_def)

lemma state_dict_append:
  "state_dict (es @ fs) m = rbind (state_dict es m) (state_dict fs)"
  by (induction es arbitrary: m) (auto simp: rbind_assoc intro: rbind_cong)

text \<open>Every entry of the dictionary is one of the events or was there before.\<close>

lemma state_dict_entry:
  "state_dict es m = Inr d \<Longrightarrow> d k = Some e \<Longrightarrow>
     (e \<in> set es \<and> ev_type e = fst k \<and> ev_state_key e = Some (snd k)) \<or> m k = Some e"
proof (induction es arbitrary: m)
  case (Cons x xs)
  then show ?case by (fastforce split: if_splits)
qed simp

lemma state_dict_ok: "(\<forall>e \<in> set es. is_state e) \<longleftrightarrow> ok (state_dict es m)"
  by (induction es arbitrary: m) (auto simp: is_state_iff ok_rbind state_key_def split: option.splits)

end
