(* ===== verification/Event_Auth.thy ===== *)
theory Event_Auth
  imports Events
begin

text \<open>
  The authorisation rules of \<open>event_auth.py\<close>, one definition per function, in the order the
  checks stand in the code; every \<open>raise\<close> is an \<^const>\<open>Inl\<close> branch. What the code takes from
  other packages is collected in the record \<open>auth_env\<close>: the validity of IPv6 literals
  (\<open>netaddr\<close>), the size of the canonical JSON of an event (\<open>canonicaljson\<close>) and the
  verification of a third-party invite signature (\<open>signedjson\<close>, \<open>unpaddedbase64\<close>), whose
  exceptions are its error values. Python's sets are iterated in the order of the lists they are
  built from, which only decides which of several exceptions is raised first.
\<close>

record auth_env =
  valid_ipv6 :: "string \<Rightarrow> bool"
  pdu_json_size :: "EventBase \<Rightarrow> nat"
  verify_3pid :: "json \<Rightarrow> string \<Rightarrow> string \<Rightarrow> json \<Rightarrow> unit res"

section \<open>Size limits and signatures\<close>

definition LENIENT_EVENT_BYTE_LIMITS_ROOM_VERSIONS :: "RoomVersion list" where
  "LENIENT_EVENT_BYTE_LIMITS_ROOM_VERSIONS =
     [RV_V1, RV_V2, RV_V3, RV_V4, RV_V5, RV_V6, RV_V7, RV_V8, RV_V9, RV_V10,
      RV_MSC1767v10, RV_MSC3757v10]"

definition too_long :: "(string \<Rightarrow> nat) \<Rightarrow> string option \<Rightarrow> bool" where
  "too_long len s = (case s of None \<Rightarrow> False | Some x \<Rightarrow> len x > 255)"

definition check_field_sizes :: "(string \<Rightarrow> nat) \<Rightarrow> bool \<Rightarrow> EventBase \<Rightarrow> string \<Rightarrow> unit res" where
  "check_field_sizes len unpersistable event rid =
     rbind (raise_if (len (ev_sender event) > 255) (EventSizeError ''user_id too large'' unpersistable)) (\<lambda>_.
     rbind (raise_if (len rid > 255) (EventSizeError ''room_id too large'' unpersistable)) (\<lambda>_.
     rbind (raise_if (too_long len (get_state_key event)) (EventSizeError ''state_key too large'' unpersistable)) (\<lambda>_.
     rbind (raise_if (len (ev_type event) > 255) (EventSizeError ''type too large'' unpersistable)) (\<lambda>_.
     raise_if (len (ev_event_id event) > 255) (EventSizeError ''event_id too large'' unpersistable)))))"

definition check_size_limits :: "auth_env \<Rightarrow> EventBase \<Rightarrow> unit res" where
  "check_size_limits env event =
     rbind (raise_if (pdu_json_size env event > MAX_PDU_SIZE) (EventSizeError ''event too large'' True)) (\<lambda>_.
     rbind (room_id event) (\<lambda>rid.
     rbind (check_field_sizes length True event rid) (\<lambda>_.
     let strict_byte_limits =
       ev_room_version event \<notin> set LENIENT_EVENT_BYTE_LIMITS_ROOM_VERSIONS
     in check_field_sizes utf8_length strict_byte_limits event rid)))"

text \<open>\<open>event.signatures.get(domain)\<close> as a truth value.\<close>

definition has_signature :: "EventBase \<Rightarrow> string \<Rightarrow> bool" where
  "has_signature event server = (case dget (ev_signatures event) server of None \<Rightarrow> False | Some sigs \<Rightarrow> sigs \<noteq> [])"

text \<open>\<open>get_domain_from_id\<close> on a value of event content: only strings have \<open>find\<close>.\<close>

fun get_domain_of_json :: "json \<Rightarrow> string res" where
  "get_domain_of_json (JStr s) = get_domain_from_id s"
| "get_domain_of_json _ = Inl AttributeError"

definition member_is :: "EventBase \<Rightarrow> json \<Rightarrow> bool res" where
  "member_is event m =
     (if ev_type event = EventTypes_Member then rbind (membership event) (\<lambda>v. Inr (v = m)) else Inr False)"

definition validate_event_for_room_version :: "auth_env \<Rightarrow> EventBase \<Rightarrow> unit res" where
  "validate_event_for_room_version env event =
     rbind (check_size_limits env event) (\<lambda>_.
     rbind (if room_id event = Inl AttributeError then Inl (AuthError 500 ''Event has no room_id'')
            else room_id event) (\<lambda>_.
     rbind (get_domain_from_id (ev_sender event)) (\<lambda>sender_domain.
     rbind (member_is event Membership_INVITE) (\<lambda>is_invite.
     let is_invite_via_3pid = is_invite \<and> dhas (ev_content event) ''third_party_invite'' in
     rbind (raise_if (\<not> has_signature event sender_domain \<and> \<not> is_invite_via_3pid)
              (AuthError 403 ''Event not signed by server of sender'')) (\<lambda>_.
     rbind (if event_format (ev_room_version event) = ROOM_V1_V2 then
              rbind (get_domain_from_id (ev_event_id event)) (\<lambda>event_id_domain.
              raise_if (\<not> has_signature event event_id_domain)
                (AuthError 403 ''Event not signed by sending server''))
            else Inr ()) (\<lambda>_.
     rbind (if restricted_join_rule (ev_room_version event) then member_is event Membership_JOIN else Inr False)
       (\<lambda>is_join.
     if is_join \<and> dhas (ev_content event) F_AUTHORISING_USER then
       rbind (dsub (ev_content event) F_AUTHORISING_USER) (\<lambda>authoriser.
       rbind (get_domain_of_json authoriser) (\<lambda>authoriser_domain.
       raise_if (\<not> has_signature event authoriser_domain)
         (AuthError 403 ''Event not signed by authorising server'')))
     else Inr ())))))))"

section \<open>Creation events\<close>

definition check_valid_additional_creators :: "auth_env \<Rightarrow> json \<Rightarrow> unit res" where
  "check_valid_additional_creators env additional_creators =
     (case additional_creators of
        JList entries \<Rightarrow> riter (\<lambda>entry. case entry of
            JStr s \<Rightarrow>
              rbind (raise_if (\<not> UserID_is_valid (valid_ipv6 env) s)
                       (AuthError 400 ''entry in additional_creators is not a valid user ID'')) (\<lambda>_.
              raise_if (length s > 255 \<or> utf8_length s > 255)
                (AuthError 400 ''entry in additional_creators too long''))
          | _ \<Rightarrow> Inl (AuthError 400 ''entry in additional_creators is not a string'')) entries
      | _ \<Rightarrow> Inl (AuthError 400 ''additional_creators must be an array''))"

text \<open>\<open>v in KNOWN_ROOM_VERSIONS\<close> for a value of event content.\<close>

fun known_room_version :: "json \<Rightarrow> bool res" where
  "known_room_version (JStr s) = Inr (dhas KNOWN_ROOM_VERSIONS s)"
| "known_room_version v = (if hashable v then Inr False else Inl TypeError)"

definition check_create :: "auth_env \<Rightarrow> EventBase \<Rightarrow> unit res" where
  "check_create env event =
     (let rv = ev_room_version event in
     rbind (raise_if (ev_type event \<noteq> EventTypes_Create) AssertionError) (\<lambda>_.
     rbind (raise_if (prev_event_ids event \<noteq> []) (AuthError 403 ''Create event has prev events'')) (\<lambda>_.
     rbind (if msc4291_room_ids_as_hashes rv then
              raise_if (ev_room_id event \<noteq> None) (AuthError 403 ''Create event has a room_id'')
            else
              rbind (get_domain_from_id (ev_sender event)) (\<lambda>sender_domain.
              rbind (room_id event) (\<lambda>rid.
              rbind (get_domain_from_id rid) (\<lambda>room_id_domain.
              raise_if (room_id_domain \<noteq> sender_domain)
                (AuthError 403 ''room_id domain does not match domain of sender''))))) (\<lambda>_.
     rbind (known_room_version (dget_or (ev_content event) ''room_version'' (JStr ''1''))) (\<lambda>known.
     rbind (raise_if (\<not> known) (AuthError 403 ''room appears to have unsupported version'')) (\<lambda>_.
     rbind (raise_if (\<not> implicit_room_creator rv \<and> \<not> dhas (ev_content event) F_ROOM_CREATOR)
              (AuthError 403 ''Create event lacks a creator property'')) (\<lambda>_.
     if msc4289_creator_power_enabled rv \<and> dhas (ev_content event) F_ADDITIONAL_CREATORS then
       rbind (dsub (ev_content event) F_ADDITIONAL_CREATORS) (check_valid_additional_creators env)
     else Inr ())))))))"

section \<open>Which state an event is checked against\<close>

text \<open>
  Keys are pairs of a type and a JSON value, because two of them carry a value read from the event
  content; adding an unhashable one to the set raises.
\<close>

type_synonym auth_key = "string \<times> json"

definition hash_key :: "auth_key \<Rightarrow> auth_key res" where
  "hash_key k = (if hashable (snd k) then Inr k else Inl TypeError)"

definition member_auth_types :: "RoomVersion \<Rightarrow> EventBase \<Rightarrow> auth_key list res" where
  "member_auth_types room_version event =
     rbind (membership event) (\<lambda>m.
     let join_rules = (if m \<in> {Membership_JOIN, Membership_INVITE, Membership_KNOCK}
                       then [(EventTypes_JoinRules, JStr [])] else []) in
     rbind (state_key event) (\<lambda>sk.
     rbind (if m = Membership_INVITE \<and> dhas (ev_content event) ''third_party_invite'' then
              rbind (dsub (ev_content event) ''third_party_invite'') (\<lambda>tpi.
              rbind (json_sub tpi ''signed'') (\<lambda>signed.
              rbind (json_sub signed ''token'') (\<lambda>token.
              rbind (hash_key (EventTypes_ThirdPartyInvite, token)) (\<lambda>k. Inr [k]))))
            else Inr []) (\<lambda>third_party.
     rbind (if restricted_join_rule room_version \<and> m = Membership_JOIN
               \<and> dhas (ev_content event) F_AUTHORISING_USER then
              rbind (dsub (ev_content event) F_AUTHORISING_USER) (\<lambda>u.
              rbind (hash_key (EventTypes_Member, u)) (\<lambda>k. Inr [k]))
            else Inr []) (\<lambda>authorising.
     Inr (join_rules @ [(EventTypes_Member, JStr sk)] @ third_party @ authorising)))))"

definition auth_types_for_event :: "RoomVersion \<Rightarrow> EventBase \<Rightarrow> auth_key list res" where
  "auth_types_for_event room_version event =
     (if ev_type event = EventTypes_Create then Inr []
      else
        let base = [(EventTypes_PowerLevels, JStr []), (EventTypes_Member, JStr (ev_sender event)),
                    (EventTypes_Create, JStr [])] in
        if ev_type event = EventTypes_Member then
          rbind (member_auth_types room_version event) (\<lambda>ks. Inr (base @ ks))
        else Inr base)"

section \<open>State-independent rules\<close>

text \<open>
  \<open>ChainMap\<close>: events fetched from the store shadow the batched ones. \<open>get_events\<close> is the store,
  \<open>batched\<close> the batch (empty for \<open>None\<close>).
\<close>

definition lookup_auth_event ::
    "(string list \<Rightarrow> string \<Rightarrow> EventBase option) \<Rightarrow> (string, EventBase) dict \<Rightarrow> string list
       \<Rightarrow> string \<Rightarrow> EventBase option" where
  "lookup_auth_event get_events batched ids eid =
     (if batched = [] then get_events ids eid
      else (let needed = filter (\<lambda>i. \<not> dhas batched i) ids in
            if needed = [] then dget batched eid
            else (case get_events needed eid of Some e \<Rightarrow> Some e | None \<Rightarrow> dget batched eid)))"

definition check_auth_event ::
    "string \<Rightarrow> auth_key list \<Rightarrow> (string \<Rightarrow> EventBase option) \<Rightarrow> string \<Rightarrow> (StateKey, string) dict
       \<Rightarrow> (StateKey, string) dict res" where
  "check_auth_event rid expected_auth_types lookup auth_event_id auth_dict =
     (case lookup auth_event_id of
        None \<Rightarrow> Inl RuntimeError
      | Some auth_event \<Rightarrow>
          rbind (room_id auth_event) (\<lambda>rid'.
          rbind (raise_if (rid' \<noteq> rid) (AuthError 403 ''auth event is in another room'')) (\<lambda>_.
          rbind (state_key auth_event) (\<lambda>sk.
          let k = (ev_type auth_event, sk) in
          rbind (raise_if (dhas auth_dict k) (AuthError 403 ''duplicate auth_events'')) (\<lambda>_.
          rbind (raise_if ((fst k, JStr (snd k)) \<notin> set expected_auth_types)
                   (AuthError 403 ''unexpected auth_event'')) (\<lambda>_.
          rbind (raise_if (ev_rejected_reason auth_event \<notin> {None, Some []})
                   (AuthError 403 ''found rejected event in the state'')) (\<lambda>_.
          Inr (dset k auth_event_id auth_dict))))))))"

definition check_state_independent_auth_rules ::
    "auth_env \<Rightarrow> (string list \<Rightarrow> string \<Rightarrow> EventBase option) \<Rightarrow> EventBase
       \<Rightarrow> (string, EventBase) dict \<Rightarrow> unit res" where
  "check_state_independent_auth_rules env get_events event batched =
     (if ev_type event = EventTypes_Create then check_create env event
      else
        rbind (auth_event_ids event) (\<lambda>ids.
        rbind (room_id event) (\<lambda>rid.
        rbind (auth_types_for_event (ev_room_version event) event) (\<lambda>expected_auth_types.
        rbind (rfold (check_auth_event rid expected_auth_types (lookup_auth_event get_events batched ids)) ids [])
          (\<lambda>auth_dict.
        raise_if (dget auth_dict CREATE_KEY \<in> {None, Some []})
          (AuthError 403 ''No create event in auth events''))))))"

section \<open>Power levels\<close>

definition can_federate :: "state_map \<Rightarrow> bool" where
  "can_federate auth_events = (case auth_events CREATE_KEY of
       None \<Rightarrow> False
     | Some creation_event \<Rightarrow> dget_or (ev_content creation_event) F_FEDERATE (JBool True) = JBool True)"

definition get_power_level_event :: "state_map \<Rightarrow> EventBase option" where
  "get_power_level_event auth_events = auth_events (EventTypes_PowerLevels, [])"

text \<open>\<open>d.get(k)\<close> where a stored \<open>null\<close> is the same \<open>None\<close> as a missing key.\<close>

fun not_none :: "json option \<Rightarrow> json option" where
  "not_none (Some JNull) = None"
| "not_none v = v"

definition level_in_content :: "json_dict \<Rightarrow> string \<Rightarrow> int res" where
  "level_in_content content user_id =
     rbind (json_get (dget_or content ''users'' (JDict [])) user_id) (\<lambda>level.
       case not_none level of
         Some v \<Rightarrow> py_int v
       | None \<Rightarrow> (case not_none (Some (dget_or content ''users_default'' (JInt 0))) of
                    Some v \<Rightarrow> py_int v
                  | None \<Rightarrow> Inr 0))"

definition room_creator :: "EventBase \<Rightarrow> json res" where
  "room_creator create =
     (if implicit_room_creator (ev_room_version create) then Inr (JStr (ev_sender create))
      else dsub (ev_content create) F_ROOM_CREATOR)"

definition get_user_power_level :: "string \<Rightarrow> state_map \<Rightarrow> int res" where
  "get_user_power_level user_id auth_events =
     (case auth_events CREATE_KEY of
        None \<Rightarrow> Inl AssertionError
      | Some create_event \<Rightarrow>
          rbind (if msc4289_creator_power_enabled (ev_room_version create_event)
                 then is_creator create_event user_id else Inr False) (\<lambda>creator_power.
          if creator_power then Inr CREATOR_POWER_LEVEL
          else (case get_power_level_event auth_events of
                  Some power_level_event \<Rightarrow> level_in_content (ev_content power_level_event) user_id
                | None \<Rightarrow>
                    rbind (room_creator create_event) (\<lambda>creator.
                      Inr (if creator = JStr user_id then 100 else 0)))))"

definition get_named_level :: "state_map \<Rightarrow> string \<Rightarrow> int \<Rightarrow> int res" where
  "get_named_level auth_events name dflt =
     (case get_power_level_event auth_events of
        None \<Rightarrow> Inr dflt
      | Some power_level_event \<Rightarrow>
          (case not_none (dget (ev_content power_level_event) name) of
             Some level \<Rightarrow> py_int level
           | None \<Rightarrow> Inr dflt))"

definition get_send_level :: "string \<Rightarrow> string option \<Rightarrow> EventBase option \<Rightarrow> int res" where
  "get_send_level etype sk power_levels_event =
     (let power_levels_content = (case power_levels_event of None \<Rightarrow> [] | Some e \<Rightarrow> ev_content e) in
      rbind (json_get (dget_or power_levels_content ''events'' (JDict [])) etype) (\<lambda>send_level.
        case not_none send_level of
          Some v \<Rightarrow> py_int v
        | None \<Rightarrow> if sk \<noteq> None then py_int (dget_or power_levels_content ''state_default'' (JInt 50))
                  else py_int (dget_or power_levels_content ''events_default'' (JInt 0))))"

section \<open>Third-party invites\<close>

definition get_public_keys :: "EventBase \<Rightarrow> json list res" where
  "get_public_keys invite_event =
     (let c = ev_content invite_event;
          first = (case dget c ''public_key'' of
                     None \<Rightarrow> []
                   | Some k \<Rightarrow> [JDict ((''public_key'', k) #
                        (case dget c ''key_validity_url'' of None \<Rightarrow> [] | Some u \<Rightarrow> [(''key_validity_url'', u)]))])
      in rbind (py_list (dget_or c ''public_keys'' (JList []))) (\<lambda>more. Inr (first @ more)))"

text \<open>One public key: the first \<open>ed25519:\<close> signature found decides.\<close>

fun try_signatures :: "auth_env \<Rightarrow> json \<Rightarrow> json \<Rightarrow> (string \<times> json) list \<Rightarrow> bool res" where
  "try_signatures env signed public_key [] = Inr False"
| "try_signatures env signed public_key ((server, signature_block) # rest) =
     rbind (json_items signature_block) (\<lambda>block.
       case find (starts_with ''ed25519:'') (dkeys block) of
         None \<Rightarrow> try_signatures env signed public_key rest
       | Some key_name \<Rightarrow> rbind (verify_3pid env signed server key_name public_key) (\<lambda>_. Inr True))"

fun try_public_keys :: "auth_env \<Rightarrow> json \<Rightarrow> json \<Rightarrow> json list \<Rightarrow> bool res" where
  "try_public_keys env signed signatures [] = Inr False"
| "try_public_keys env signed signatures (public_key_object # rest) =
     rbind (json_sub public_key_object ''public_key'') (\<lambda>public_key.
       case rbind (json_items signatures) (try_signatures env signed public_key) of
         Inr True \<Rightarrow> Inr True
       | Inr False \<Rightarrow> try_public_keys env signed signatures rest
       | Inl e \<Rightarrow> if e \<in> {KeyError, SignatureVerifyException}
                  then try_public_keys env signed signatures rest else Inl e)"

text \<open>The shape checks on \<open>content.third_party_invite.signed\<close> and its three required fields.\<close>

definition third_party_signed :: "EventBase \<Rightarrow> (json_dict \<times> json \<times> json \<times> json) option" where
  "third_party_signed event =
     (case dget (ev_content event) ''third_party_invite'' of
        Some (JDict third_party_invite) \<Rightarrow>
          (case dget third_party_invite ''signed'' of
             Some (JDict signed) \<Rightarrow>
               (case (dget signed ''mxid'', dget signed ''token'', dget signed ''signatures'') of
                  (Some mxid, Some token, Some signatures) \<Rightarrow> Some (signed, mxid, token, signatures)
                | _ \<Rightarrow> None)
           | _ \<Rightarrow> None)
      | _ \<Rightarrow> None)"

definition verify_third_party_invite :: "auth_env \<Rightarrow> EventBase \<Rightarrow> state_map \<Rightarrow> bool res" where
  "verify_third_party_invite env event auth_events =
     (case third_party_signed event of
        None \<Rightarrow> Inr False
      | Some (signed, mxid, token, signatures) \<Rightarrow>
          rbind (state_get auth_events EventTypes_ThirdPartyInvite token) (\<lambda>inv.
            case inv of
              None \<Rightarrow> Inr False
            | Some invite_event \<Rightarrow>
                if ev_sender invite_event \<noteq> ev_sender event then Inr False
                else rbind (state_key event) (\<lambda>sk.
                  if mxid \<noteq> JStr sk then Inr False
                  else rbind (get_public_keys invite_event)
                         (try_public_keys env (JDict signed) signatures))))"

section \<open>Membership changes\<close>

definition membership_of :: "EventBase option \<Rightarrow> json option res" where
  "membership_of member = (case member of
       None \<Rightarrow> Inr None
     | Some e \<Rightarrow> rbind (membership e) (\<lambda>m. Inr (Some m)))"

definition check_joined_room :: "EventBase option \<Rightarrow> unit res" where
  "check_joined_room member =
     rbind (membership_of member) (\<lambda>m.
     raise_if (m \<noteq> Some Membership_JOIN) (AuthError 403 ''User not in room''))"

definition check_event_sender_in_room :: "EventBase \<Rightarrow> state_map \<Rightarrow> unit res" where
  "check_event_sender_in_room event auth_events =
     rbind (room_id event) (\<lambda>_.
     check_joined_room (auth_events (EventTypes_Member, ev_sender event)))"

abbreviation INSUFFICIENT_POWER :: string where "INSUFFICIENT_POWER \<equiv> ''INSUFFICIENT_POWER''"
abbreviation ALREADY_JOINED :: string where "ALREADY_JOINED \<equiv> ''ALREADY_JOINED''"
abbreviation NOT_JOINED :: string where "NOT_JOINED \<equiv> ''NOT_JOINED''"

text \<open>The special case for the creator joining right after the create event.\<close>

definition creator_joining :: "RoomVersion \<Rightarrow> EventBase \<Rightarrow> state_map \<Rightarrow> json \<Rightarrow> bool res" where
  "creator_joining room_version event auth_events m =
     (case prev_event_ids event of
        [prev] \<Rightarrow>
          if m = Membership_JOIN then
            (case auth_events CREATE_KEY of
               Some create \<Rightarrow>
                 if prev = ev_event_id create then
                   rbind (if implicit_room_creator room_version then Inr (JStr (ev_sender create))
                          else dsub (ev_content create) F_ROOM_CREATOR) (\<lambda>creator.
                   rbind (state_key event) (\<lambda>sk. Inr (creator = JStr sk)))
                 else Inr False
             | None \<Rightarrow> Inr False)
          else Inr False
      | _ \<Rightarrow> Inr False)"

text \<open>
  The facts about caller, target and room that the rules consult, gathered in the order the code
  reads them.
\<close>

record membership_facts =
  mf_target :: string
  mf_caller :: "json option"
  mf_target_membership :: "json option"
  mf_join_rule :: json
  mf_user_level :: int
  mf_target_level :: int
  mf_invite_level :: int
  mf_ban_level :: int

definition gather_membership_facts :: "EventBase \<Rightarrow> state_map \<Rightarrow> membership_facts res" where
  "gather_membership_facts event auth_events =
     rbind (state_key event) (\<lambda>target_user_id.
     case auth_events CREATE_KEY of
       None \<Rightarrow> Inl (AuthError 403 ''Create event missing from auth_events'')
     | Some create_event \<Rightarrow>
         rbind (get_domain_from_id (ev_sender create_event)) (\<lambda>creating_domain.
         rbind (get_domain_from_id target_user_id) (\<lambda>target_domain.
         rbind (raise_if (creating_domain \<noteq> target_domain \<and> \<not> can_federate auth_events)
                  (AuthError 403 ''This room has been marked as unfederatable.'')) (\<lambda>_.
         rbind (membership_of (auth_events (EventTypes_Member, ev_sender event))) (\<lambda>caller.
         rbind (membership_of (auth_events (EventTypes_Member, target_user_id))) (\<lambda>target.
         let join_rule = (case auth_events (EventTypes_JoinRules, []) of
                            Some join_rule_event \<Rightarrow>
                              dget_or (ev_content join_rule_event) ''join_rule'' JoinRules_INVITE
                          | None \<Rightarrow> JoinRules_INVITE) in
         rbind (get_user_power_level (ev_sender event) auth_events) (\<lambda>user_level.
         rbind (get_user_power_level target_user_id auth_events) (\<lambda>target_level.
         rbind (get_named_level auth_events ''invite'' 0) (\<lambda>invite_level.
         rbind (get_named_level auth_events ''ban'' 50) (\<lambda>ban_level.
         Inr \<lparr>mf_target = target_user_id, mf_caller = caller, mf_target_membership = target,
              mf_join_rule = join_rule, mf_user_level = user_level, mf_target_level = target_level,
              mf_invite_level = invite_level, mf_ban_level = ban_level\<rparr>))))))))))"

definition check_invite :: "membership_facts \<Rightarrow> unit res" where
  "check_invite f =
     (if mf_target_membership f = Some Membership_BAN then
        Inl (AuthError 403 ''target is banned from the room'')
      else if mf_target_membership f = Some Membership_JOIN then
        Inl (UnstableSpecAuthError 403 ''target is already in the room.'' ALREADY_JOINED)
      else raise_if (mf_user_level f < mf_invite_level f)
        (UnstableSpecAuthError 403 ''You cannot invite users'' INSUFFICIENT_POWER))"

text \<open>The allow rule of a restricted room for a caller who is neither joined nor invited.\<close>

definition check_authorised_join :: "EventBase \<Rightarrow> state_map \<Rightarrow> membership_facts \<Rightarrow> unit res" where
  "check_authorised_join event auth_events f =
     (case not_none (dget (ev_content event) F_AUTHORISING_USER) of
        None \<Rightarrow> Inl (AuthError 403 ''Join event is missing authorising user.'')
      | Some authorising_user \<Rightarrow>
          rbind (state_get auth_events EventTypes_Member authorising_user) (\<lambda>member_event.
          rbind (room_id event) (\<lambda>_.
          rbind (check_joined_room member_event) (\<lambda>_.
          case authorising_user of
            JStr u \<Rightarrow>
              rbind (get_user_power_level u auth_events) (\<lambda>authorising_user_level.
              raise_if (authorising_user_level < mf_invite_level f)
                (AuthError 403 ''Join event authorised by invalid server.''))
          | _ \<Rightarrow> Inl TypeError))))"

definition check_join ::
    "RoomVersion \<Rightarrow> EventBase \<Rightarrow> state_map \<Rightarrow> membership_facts \<Rightarrow> unit res" where
  "check_join room_version event auth_events f =
     (let caller_in_room = mf_caller f = Some Membership_JOIN;
          caller_invited = mf_caller f = Some Membership_INVITE in
      if ev_sender event \<noteq> mf_target f then Inl (AuthError 403 ''Cannot force another user to join.'')
      else if mf_target_membership f = Some Membership_BAN then
        Inl (AuthError 403 ''You are banned from this room'')
      else if mf_join_rule f = JoinRules_PUBLIC then Inr ()
      else if restricted_join_rule room_version \<and> mf_join_rule f = JoinRules_RESTRICTED
           \<or> knock_restricted_join_rule room_version \<and> mf_join_rule f = JoinRules_KNOCK_RESTRICTED then
        if \<not> caller_in_room \<and> \<not> caller_invited then check_authorised_join event auth_events f
        else Inr ()
      else if mf_join_rule f = JoinRules_INVITE
           \<or> knock_join_rule room_version \<and> mf_join_rule f = JoinRules_KNOCK
           \<or> knock_restricted_join_rule room_version \<and> mf_join_rule f = JoinRules_KNOCK_RESTRICTED then
        raise_if (\<not> (caller_in_room \<or> caller_invited)) (AuthError 403 ''You are not invited to this room.'')
      else Inl (AuthError 403 ''You are not allowed to join this room''))"

definition check_leave :: "EventBase \<Rightarrow> state_map \<Rightarrow> membership_facts \<Rightarrow> unit res" where
  "check_leave event auth_events f =
     (if mf_target_membership f = Some Membership_BAN \<and> mf_user_level f < mf_ban_level f then
        Inl (UnstableSpecAuthError 403 ''You cannot unban user'' INSUFFICIENT_POWER)
      else if mf_target f \<noteq> ev_sender event then
        rbind (get_named_level auth_events ''kick'' 50) (\<lambda>kick_level.
        raise_if (mf_user_level f < kick_level \<or> mf_user_level f \<le> mf_target_level f)
          (UnstableSpecAuthError 403 ''You cannot kick user'' INSUFFICIENT_POWER))
      else Inr ())"

definition check_ban :: "membership_facts \<Rightarrow> unit res" where
  "check_ban f =
     (if mf_user_level f < mf_ban_level f then
        Inl (UnstableSpecAuthError 403 ''You cannot ban'' INSUFFICIENT_POWER)
      else raise_if (mf_user_level f \<le> mf_target_level f)
        (UnstableSpecAuthError 403 ''You cannot ban this user'' INSUFFICIENT_POWER))"

definition check_knock :: "RoomVersion \<Rightarrow> EventBase \<Rightarrow> membership_facts \<Rightarrow> unit res" where
  "check_knock room_version event f =
     (if mf_join_rule f \<noteq> JoinRules_KNOCK
         \<and> (\<not> knock_restricted_join_rule room_version \<or> mf_join_rule f \<noteq> JoinRules_KNOCK_RESTRICTED)
      then Inl (AuthError 403 ''You cannot knock'')
      else if mf_target f \<noteq> ev_sender event then Inl (AuthError 403 ''You cannot knock for other users'')
      else if mf_target_membership f = Some Membership_JOIN then
        Inl (UnstableSpecAuthError 403 ''You cannot knock on a room you are already in'' ALREADY_JOINED)
      else if mf_caller f = Some Membership_INVITE then
        Inl (AuthError 403 ''You are already invited to this room'')
      else raise_if (mf_target_membership f = Some Membership_BAN)
        (AuthError 403 ''You are banned from this room''))"

definition is_membership_change_allowed ::
    "auth_env \<Rightarrow> RoomVersion \<Rightarrow> EventBase \<Rightarrow> state_map \<Rightarrow> unit res" where
  "is_membership_change_allowed env room_version event auth_events =
     rbind (membership event) (\<lambda>m.
     rbind (creator_joining room_version event auth_events m) (\<lambda>first_join.
     if first_join then Inr () else
     rbind (gather_membership_facts event auth_events) (\<lambda>f.
     let caller_in_room = mf_caller f = Some Membership_JOIN;
         caller_invited = mf_caller f = Some Membership_INVITE;
         caller_knocked = (knock_join_rule room_version \<and> mf_caller f = Some Membership_KNOCK) in
     if m = Membership_INVITE \<and> dhas (ev_content event) ''third_party_invite'' then
       rbind (verify_third_party_invite env event auth_events) (\<lambda>verified.
       if \<not> verified then Inl (AuthError 403 ''You are not invited to this room.'')
       else raise_if (mf_target_membership f = Some Membership_BAN)
         (AuthError 403 ''target is banned from the room''))
     else if m \<noteq> Membership_JOIN \<and> m \<noteq> Membership_KNOCK
             \<and> (caller_invited \<or> caller_knocked) \<and> m = Membership_LEAVE \<and> mf_target f = ev_sender event
     then Inr ()
     else
       rbind (if m \<noteq> Membership_JOIN \<and> m \<noteq> Membership_KNOCK \<and> \<not> caller_in_room
              then rbind (room_id event) (\<lambda>_.
                Inl (UnstableSpecAuthError 403 ''sender not in room'' NOT_JOINED))
              else Inr ()) (\<lambda>_.
       if m = Membership_INVITE then check_invite f
       else if m = Membership_JOIN then check_join room_version event auth_events f
       else if m = Membership_LEAVE then check_leave event auth_events f
       else if m = Membership_BAN then check_ban f
       else if knock_join_rule room_version \<and> m = Membership_KNOCK then check_knock room_version event f
       else Inl (AuthError 500 ''Unknown membership'')))))"

section \<open>Sending and redacting\<close>

definition find_char_from :: "char \<Rightarrow> nat \<Rightarrow> string \<Rightarrow> nat option" where
  "find_char_from c i s = map_option (\<lambda>j. j + i) (find_char c (drop i s))"

text \<open>The user identifier a state key starts with (MSC3757), or the \<open>ValueError\<close> of the code.\<close>

definition state_key_owner :: "auth_env \<Rightarrow> string \<Rightarrow> string res" where
  "state_key_owner env sk =
     (case find_char_from CHR '':'' 1 sk of
        None \<Rightarrow> Inl ValueError
      | Some colon_idx \<Rightarrow>
          (let state_key_user_id = (case find_char_from CHR ''_'' (colon_idx + 1) sk of
                 None \<Rightarrow> sk | Some suffix_idx \<Rightarrow> take suffix_idx sk) in
           if \<not> UserID_is_valid (valid_ipv6 env) state_key_user_id then Inl ValueError
           else Inr state_key_user_id))"

definition can_send_event :: "auth_env \<Rightarrow> EventBase \<Rightarrow> state_map \<Rightarrow> unit res" where
  "can_send_event env event auth_events =
     (let sk = get_state_key event in
      rbind (get_send_level (ev_type event) sk (get_power_level_event auth_events)) (\<lambda>send_level.
      rbind (get_user_power_level (ev_sender event) auth_events) (\<lambda>user_level.
      rbind (raise_if (user_level < send_level)
               (UnstableSpecAuthError 403 ''You cannot post that to the room'' INSUFFICIENT_POWER)) (\<lambda>_.
      case sk of
        None \<Rightarrow> Inr ()
      | Some k \<Rightarrow>
          if starts_with ''@'' k \<and> k \<noteq> ev_sender event then
            if msc3757_enabled (ev_room_version event) then
              (case state_key_owner env k of
                 Inl _ \<Rightarrow> Inl (SynapseError 400 ''State key neither equals nor starts with a valid user ID'')
               | Inr state_key_user_id \<Rightarrow>
                   if state_key_user_id = ev_sender event then Inr ()
                   else rbind (get_user_power_level state_key_user_id auth_events) (\<lambda>owner_level.
                     raise_if (\<not> user_level > owner_level)
                       (AuthError 403 ''You are not allowed to set others state'')))
            else Inl (AuthError 403 ''You are not allowed to set others state'')
          else Inr ()))))"

text \<open>
  The result is the return value together with the event, whose internal metadata may be told to
  recheck the redaction later.
\<close>

definition check_redaction ::
    "RoomVersion \<Rightarrow> EventBase \<Rightarrow> state_map \<Rightarrow> (bool \<times> EventBase) res" where
  "check_redaction room_version_obj event auth_events =
     rbind (get_user_power_level (ev_sender event) auth_events) (\<lambda>user_level.
     rbind (get_named_level auth_events ''redact'' 50) (\<lambda>redact_level.
     if user_level \<ge> redact_level then Inr (False, event)
     else if event_format room_version_obj = ROOM_V1_V2 then
       rbind (get_domain_from_id (ev_event_id event)) (\<lambda>redacter_domain.
       case redacts event of
         Some (JStr r) \<Rightarrow>
           rbind (get_domain_from_id r) (\<lambda>redactee_domain.
           if redacter_domain = redactee_domain then Inr (True, event)
           else Inl (AuthError 403 ''You cannot redact events''))
       | _ \<Rightarrow> Inr (False, event))
     else Inr (True, event\<lparr>ev_recheck_redaction := True\<rparr>)))"

section \<open>Changing power levels\<close>

text \<open>
  The containers of levels come from event content, so membership tests and subscripts follow
  Python on every JSON value: numbers compare across their types, lists and strings are indexed by
  integers, dictionaries have string keys.
\<close>

fun py_number :: "json \<Rightarrow> rat option" where
  "py_number (JInt i) = Some (of_int i)"
| "py_number (JBool b) = Some (if b then 1 else 0)"
| "py_number (JFloat r) = Some r"
| "py_number _ = None"

definition py_eq :: "json \<Rightarrow> json \<Rightarrow> bool" where
  "py_eq a b = (case (py_number a, py_number b) of (Some x, Some y) \<Rightarrow> x = y | _ \<Rightarrow> a = b)"

fun py_in :: "json \<Rightarrow> json \<Rightarrow> bool res" where
  "py_in k (JDict d) = (case k of JStr s \<Rightarrow> Inr (dhas d s) | _ \<Rightarrow> Inr False)"
| "py_in k (JList xs) = Inr (list_ex (py_eq k) xs)"
| "py_in k (JStr s) = (case k of JStr t \<Rightarrow> Inr (sublist t s) | _ \<Rightarrow> Inl TypeError)"
| "py_in k _ = Inl TypeError"

definition py_index :: "'a list \<Rightarrow> int \<Rightarrow> 'a res" where
  "py_index xs i =
     (let from_end = int (length xs) + i in
      if i < 0 then (if from_end < 0 then Inl IndexError else Inr (xs ! nat from_end))
      else if nat i < length xs then Inr (xs ! nat i)
      else Inl IndexError)"

fun index_value :: "json \<Rightarrow> int res" where
  "index_value (JInt i) = Inr i"
| "index_value (JBool b) = Inr (if b then 1 else 0)"
| "index_value _ = Inl TypeError"

fun py_getitem :: "json \<Rightarrow> json \<Rightarrow> json res" where
  "py_getitem (JDict d) k = (case k of JStr s \<Rightarrow> dsub d s | _ \<Rightarrow> Inl KeyError)"
| "py_getitem (JList xs) k = rbind (index_value k) (py_index xs)"
| "py_getitem (JStr s) k = rbind (index_value k) (\<lambda>i. rbind (py_index s i) (\<lambda>c. Inr (JStr [c])))"
| "py_getitem _ k = Inl TypeError"

definition level_at :: "json \<Rightarrow> json \<Rightarrow> int option res" where
  "level_at loc level_to_check =
     rbind (py_in level_to_check loc) (\<lambda>present.
     if present then rbind (rbind (py_getitem loc level_to_check) py_int) (\<lambda>i. Inr (Some i))
     else Inr None)"

definition level_loc :: "json_dict \<Rightarrow> string option \<Rightarrow> json" where
  "level_loc content dir = (case dir of None \<Rightarrow> JDict content | Some d \<Rightarrow> dget_or content d (JDict []))"

definition check_level ::
    "EventBase \<Rightarrow> int \<Rightarrow> json_dict \<Rightarrow> json_dict \<Rightarrow> json \<times> string option \<Rightarrow> unit res" where
  "check_level event user_level old_state new_state = (\<lambda>(level_to_check, dir).
     rbind (level_at (level_loc old_state dir) level_to_check) (\<lambda>old_level.
     rbind (level_at (level_loc new_state dir) level_to_check) (\<lambda>new_level.
     if new_level \<noteq> None \<and> old_level \<noteq> None \<and> new_level = old_level then Inr ()
     else if dir = Some ''users'' \<and> level_to_check \<noteq> JStr (ev_sender event) \<and> old_level = Some user_level
     then Inl (AuthError 403 ''You cannot remove ops level equal to your own'')
     else raise_if ((case old_level of None \<Rightarrow> False | Some l \<Rightarrow> l > user_level)
                    \<or> (case new_level of None \<Rightarrow> False | Some l \<Rightarrow> l > user_level))
            (AuthError 403 ''You cannot add ops level greater than your own''))))"

definition named_levels :: "string list" where
  "named_levels = [''users_default'', ''events_default'', ''state_default'', ''ban'', ''redact'',
                   ''kick'', ''invite'']"

text \<open>\<open>set(list(old) + list(new))\<close> of the entries below one of the three sub-dictionaries.\<close>

definition sub_levels :: "json_dict \<Rightarrow> json_dict \<Rightarrow> string \<Rightarrow> (json \<times> string option) list res" where
  "sub_levels old_state new_state dir =
     rbind (py_list (dget_or old_state dir (JDict []))) (\<lambda>old_list.
     rbind (py_list (dget_or new_state dir (JDict []))) (\<lambda>new_list.
     if list_all hashable (old_list @ new_list)
     then Inr (map (\<lambda>k. (k, Some dir)) (old_list @ new_list)) else Inl TypeError))"

definition levels_to_check ::
    "RoomVersion \<Rightarrow> json_dict \<Rightarrow> json_dict \<Rightarrow> (json \<times> string option) list res" where
  "levels_to_check room_version_obj old_state new_state =
     rbind (sub_levels old_state new_state ''users'') (\<lambda>users.
     rbind (sub_levels old_state new_state ''events'') (\<lambda>events.
     rbind (if limit_notifications_power_levels room_version_obj
            then sub_levels old_state new_state ''notifications'' else Inr []) (\<lambda>notifications.
     Inr (map (\<lambda>n. (JStr n, None)) named_levels @ users @ events @ notifications))))"

definition check_user_entry :: "string \<times> json \<Rightarrow> unit res" where
  "check_user_entry = (\<lambda>(k, v).
     rbind (raise_if (\<not> ok (UserID_from_string k)) (SynapseError 400 ''Not a valid user_id'')) (\<lambda>_.
     raise_if (\<not> ok (py_int v)) (SynapseError 400 ''Not a valid power level'')))"

definition check_creators_not_listed :: "json_dict \<Rightarrow> state_map \<Rightarrow> unit res" where
  "check_creators_not_listed user_list auth_events =
     (case auth_events CREATE_KEY of
        None \<Rightarrow> Inl (SynapseError 400 ''Cannot check power levels without a create event in auth_events'')
      | Some create_event \<Rightarrow>
          rbind (raise_if (dhas user_list (ev_sender create_event))
                   (SynapseError 400 ''Creator user must not appear in content.users'')) (\<lambda>_.
          let additional_creators = dget_or (ev_content create_event) F_ADDITIONAL_CREATORS (JList []) in
          if truthy additional_creators then
            rbind (py_set additional_creators) (\<lambda>cs.
            raise_if (\<exists>u \<in> set (dkeys user_list). JStr u \<in> set cs)
              (SynapseError 400 ''Additional creators users must not appear in content.users''))
          else Inr ()))"

definition check_int_level :: "string \<times> json \<Rightarrow> unit res" where
  "check_int_level = (\<lambda>(k, v).
     rbind (raise_if (k \<in> set named_levels \<and> \<not> type_is_int v) (SynapseError 400 ''must be an integer.'')) (\<lambda>_.
     raise_if (k \<in> {''events'', ''notifications'', ''users''}
               \<and> \<not> (case v of JDict d \<Rightarrow> list_all type_is_int (dvalues d) | _ \<Rightarrow> False))
       (SynapseError 400 ''must be a dict wherein all the values are integers.'')))"

definition check_power_levels :: "RoomVersion \<Rightarrow> EventBase \<Rightarrow> state_map \<Rightarrow> unit res" where
  "check_power_levels room_version_obj event auth_events =
     rbind (json_items (dget_or (ev_content event) ''users'' (JDict []))) (\<lambda>user_list.
     rbind (riter check_user_entry user_list) (\<lambda>_.
     rbind (if msc4289_creator_power_enabled room_version_obj
            then check_creators_not_listed user_list auth_events else Inr ()) (\<lambda>_.
     rbind (if ev_type event = EventTypes_PowerLevels \<and> enforce_int_power_levels room_version_obj
            then riter check_int_level (ev_content event) else Inr ()) (\<lambda>_.
     rbind (state_key event) (\<lambda>sk.
     case auth_events (ev_type event, sk) of
       None \<Rightarrow> Inr ()
     | Some current_state \<Rightarrow>
         rbind (get_user_power_level (ev_sender event) auth_events) (\<lambda>user_level.
         rbind (levels_to_check room_version_obj (ev_content current_state) (ev_content event)) (\<lambda>levels.
         riter (check_level event user_level (ev_content current_state) (ev_content event)) levels)))))))"

section \<open>State-dependent rules\<close>

definition check_aliases :: "EventBase \<Rightarrow> unit res" where
  "check_aliases event =
     (case get_state_key event of
        None \<Rightarrow> Inl (AuthError 403 ''Alias event must be a state event'')
      | Some sk \<Rightarrow>
          rbind (raise_if (sk = []) (AuthError 403 ''Alias event must have non-empty state_key'')) (\<lambda>_.
          rbind (get_domain_from_id (ev_sender event)) (\<lambda>sender_domain.
          raise_if (sk \<noteq> sender_domain)
            (AuthError 403 ''state_key of alias event does not match domain of sender''))))"

text \<open>The rules over the dictionary built from the auth events, after the create-event case.\<close>

definition check_against_state :: "auth_env \<Rightarrow> EventBase \<Rightarrow> state_map \<Rightarrow> EventBase res" where
  "check_against_state env event auth_dict =
     (case auth_dict CREATE_KEY of
        None \<Rightarrow> Inl (AuthError 403 ''Event is missing a create event in auth_events.'')
      | Some create_event \<Rightarrow>
     rbind (get_domain_from_id (ev_sender create_event)) (\<lambda>creating_domain.
     rbind (get_domain_from_id (ev_sender event)) (\<lambda>originating_domain.
     rbind (raise_if (creating_domain \<noteq> originating_domain \<and> \<not> can_federate auth_dict)
              (AuthError 403 ''This room has been marked as unfederatable.'')) (\<lambda>_.
     if ev_type event = EventTypes_Aliases \<and> special_case_aliases_auth (ev_room_version event) then
       rbind (check_aliases event) (\<lambda>_. Inr event)
     else if ev_type event = EventTypes_Member then
       rbind (is_membership_change_allowed env (ev_room_version event) event auth_dict) (\<lambda>_. Inr event)
     else
       rbind (check_event_sender_in_room event auth_dict) (\<lambda>_.
       if ev_type event = EventTypes_ThirdPartyInvite then
         rbind (get_user_power_level (ev_sender event) auth_dict) (\<lambda>user_level.
         rbind (get_named_level auth_dict ''invite'' 0) (\<lambda>invite_level.
         rbind (raise_if (user_level < invite_level)
                  (UnstableSpecAuthError 403 ''You cannot invite users'' INSUFFICIENT_POWER)) (\<lambda>_.
         Inr event)))
       else
         rbind (can_send_event env event auth_dict) (\<lambda>_.
         rbind (if ev_type event = EventTypes_PowerLevels
                then check_power_levels (ev_room_version event) event auth_dict else Inr ()) (\<lambda>_.
         if ev_type event = EventTypes_Redaction
         then rbind (check_redaction (ev_room_version event) event auth_dict) (\<lambda>(b, event'). Inr event')
         else Inr event)))))))"

definition check_state_dependent_auth_rules ::
    "auth_env \<Rightarrow> EventBase \<Rightarrow> EventBase list \<Rightarrow> EventBase res" where
  "check_state_dependent_auth_rules env event auth_events =
     (if ev_type event = EventTypes_Create then Inr event
      else rbind (state_dict auth_events (\<lambda>_. None)) (check_against_state env event))"

end
