(* ===== verification/Event_Auth_Props.thy ===== *)
theory Event_Auth_Props
  imports Event_Auth
begin

text \<open>
  What the authorisation rules guarantee. The first section inverts the definitions (what an
  accepted event implies about the state it was checked against); the others derive the
  properties: the state selected by \<open>auth_types_for_event\<close> decides the verdict, power levels
  cannot be escalated, moderation needs a higher level, and joins need an entitlement.
\<close>

section \<open>Inversion of the rules\<close>

lemma hashable_JStr [simp]: "hashable (JStr s)"
  by simp

lemma state_get_ok: "state_get m t v = Inr r \<longleftrightarrow>
    (case v of JStr s \<Rightarrow> r = m (t, s) | _ \<Rightarrow> hashable v \<and> r = None)"
  by (cases v) auto

lemma membership_of_ok:
  "membership_of mem = Inr r \<longleftrightarrow> (case mem of None \<Rightarrow> r = None
     | Some e \<Rightarrow> \<exists>v. dget (ev_content e) ''membership'' = Some v \<and> r = Some v)"
  by (auto simp: membership_of_def split: option.splits)

definition joined :: "state_map \<Rightarrow> string \<Rightarrow> bool" where
  "joined m u \<longleftrightarrow> (case m (EventTypes_Member, u) of None \<Rightarrow> False
     | Some e \<Rightarrow> dget (ev_content e) ''membership'' = Some Membership_JOIN)"

definition banned :: "state_map \<Rightarrow> string \<Rightarrow> bool" where
  "banned m u \<longleftrightarrow> (case m (EventTypes_Member, u) of None \<Rightarrow> False
     | Some e \<Rightarrow> dget (ev_content e) ''membership'' = Some Membership_BAN)"

definition invited :: "state_map \<Rightarrow> string \<Rightarrow> bool" where
  "invited m u \<longleftrightarrow> (case m (EventTypes_Member, u) of None \<Rightarrow> False
     | Some e \<Rightarrow> dget (ev_content e) ''membership'' = Some Membership_INVITE)"

lemma check_joined_room_ok:
  "check_joined_room (m (EventTypes_Member, u)) = Inr x \<longleftrightarrow> joined m u"
  by (auto simp: check_joined_room_def membership_of_ok joined_def split: option.splits)

lemma gather_ok:
  assumes "gather_membership_facts event m = Inr f"
  obtains create where "ev_state_key event = Some (mf_target f)" "m CREATE_KEY = Some create"
    "membership_of (m (EventTypes_Member, ev_sender event)) = Inr (mf_caller f)"
    "membership_of (m (EventTypes_Member, mf_target f)) = Inr (mf_target_membership f)"
    "mf_join_rule f = (case m (EventTypes_JoinRules, []) of
        Some e \<Rightarrow> dget_or (ev_content e) ''join_rule'' JoinRules_INVITE | None \<Rightarrow> JoinRules_INVITE)"
    "get_user_power_level (ev_sender event) m = Inr (mf_user_level f)"
    "get_user_power_level (mf_target f) m = Inr (mf_target_level f)"
    "get_named_level m ''invite'' 0 = Inr (mf_invite_level f)"
    "get_named_level m ''ban'' 50 = Inr (mf_ban_level f)"
  using assms unfolding gather_membership_facts_def
  by (auto simp: Let_def split: option.splits)

lemma facts_joined:
  assumes "membership_of (m (EventTypes_Member, u)) = Inr r"
  shows "r = Some Membership_JOIN \<longleftrightarrow> joined m u" "r = Some Membership_BAN \<longleftrightarrow> banned m u"
    "r = Some Membership_INVITE \<longleftrightarrow> invited m u"
  using assms by (auto simp: membership_of_ok joined_def banned_def invited_def split: option.splits)

definition state_of :: "EventBase list \<Rightarrow> state_map" where
  "state_of es = (case state_dict es (\<lambda>_. None) of Inr m \<Rightarrow> m | Inl _ \<Rightarrow> (\<lambda>_. None))"

lemma check_state_dependent_ok:
  assumes "check_state_dependent_auth_rules env event es = Inr event'" "ev_type event \<noteq> EventTypes_Create"
  shows "check_against_state env event (state_of es) = Inr event'"
  using assms by (auto simp: check_state_dependent_auth_rules_def state_of_def)

lemma check_against_state_ok:
  assumes "check_against_state env event m = Inr event'"
  obtains create cd sd where "m CREATE_KEY = Some create"
    "get_domain_from_id (ev_sender create) = Inr cd" "get_domain_from_id (ev_sender event) = Inr sd"
    "cd = sd \<or> can_federate m"
    "ev_type event = EventTypes_Aliases \<and> special_case_aliases_auth (ev_room_version event)
       \<Longrightarrow> check_aliases event = Inr () \<and> event' = event"
    "ev_type event = EventTypes_Member
       \<Longrightarrow> is_membership_change_allowed env (ev_room_version event) event m = Inr () \<and> event' = event"
    "ev_type event \<noteq> EventTypes_Member \<Longrightarrow>
       \<not> (ev_type event = EventTypes_Aliases \<and> special_case_aliases_auth (ev_room_version event)) \<Longrightarrow>
       joined m (ev_sender event)"
    "ev_type event \<notin> {EventTypes_Member, EventTypes_ThirdPartyInvite} \<Longrightarrow>
       \<not> (ev_type event = EventTypes_Aliases \<and> special_case_aliases_auth (ev_room_version event)) \<Longrightarrow>
       can_send_event env event m = Inr ()"
    "ev_type event = EventTypes_PowerLevels \<Longrightarrow> check_power_levels (ev_room_version event) event m = Inr ()"
    "ev_type event = EventTypes_Redaction \<Longrightarrow>
       \<exists>b. check_redaction (ev_room_version event) event m = Inr (b, event')"
    "ev_type event \<noteq> EventTypes_Redaction \<Longrightarrow> event' = event"
  using assms unfolding check_against_state_def check_event_sender_in_room_def
  by (auto simp: check_joined_room_ok split: option.splits if_splits)

lemma check_redaction_event:
  "check_redaction rv event m = Inr (b, event') \<Longrightarrow> event' = event \<or> event' = event\<lparr>ev_recheck_redaction := True\<rparr>"
  by (cases "redacts event"; cases "the (redacts event)") (auto simp: check_redaction_def split: if_splits)

section \<open>The selected auth events decide the verdict\<close>

text \<open>
  Two states that agree on the create event and the power levels give every user the same level;
  the later lemmas lift this to each rule, and the last one to all of them.
\<close>

lemma get_user_power_level_agree:
  assumes "m1 CREATE_KEY = m2 CREATE_KEY"
    and "m1 (EventTypes_PowerLevels, []) = m2 (EventTypes_PowerLevels, [])"
  shows "get_user_power_level u m1 = get_user_power_level u m2"
  unfolding get_user_power_level_def get_power_level_event_def assms ..

lemma get_named_level_agree:
  assumes "m1 (EventTypes_PowerLevels, []) = m2 (EventTypes_PowerLevels, [])"
  shows "get_named_level m1 n d = get_named_level m2 n d"
  using assms by (simp add: get_named_level_def get_power_level_event_def)

lemma can_federate_agree: "m1 CREATE_KEY = m2 CREATE_KEY \<Longrightarrow> can_federate m1 = can_federate m2"
  by (simp add: can_federate_def)

definition agree_on :: "auth_key list \<Rightarrow> state_map \<Rightarrow> state_map \<Rightarrow> bool" where
  "agree_on ks m1 m2 \<longleftrightarrow> (\<forall>t s. (t, JStr s) \<in> set ks \<longrightarrow> m1 (t, s) = m2 (t, s))"

lemma agree_onD: "agree_on ks m1 m2 \<Longrightarrow> (t, JStr s) \<in> set ks \<Longrightarrow> m1 (t, s) = m2 (t, s)"
  by (auto simp: agree_on_def)

lemma auth_types_base:
  assumes "auth_types_for_event rv event = Inr ks" and "ev_type event \<noteq> EventTypes_Create"
  shows "(EventTypes_PowerLevels, JStr []) \<in> set ks" "(EventTypes_Member, JStr (ev_sender event)) \<in> set ks"
    "(EventTypes_Create, JStr []) \<in> set ks"
  using assms by (auto simp: auth_types_for_event_def Let_def split: if_splits)

lemma member_auth_types_ok:
  assumes "auth_types_for_event rv event = Inr ks" "ev_type event = EventTypes_Member"
    "dget (ev_content event) ''membership'' = Some m"
  obtains sk tp au where "ev_state_key event = Some sk"
    "set ((if m \<in> {Membership_JOIN, Membership_INVITE, Membership_KNOCK}
           then [(EventTypes_JoinRules, JStr [])] else []) @ [(EventTypes_Member, JStr sk)] @ tp @ au) \<subseteq> set ks"
    "m = Membership_INVITE \<Longrightarrow> dhas (ev_content event) ''third_party_invite'' \<Longrightarrow>
       rbind (dsub (ev_content event) ''third_party_invite'') (\<lambda>tpi.
         rbind (json_sub tpi ''signed'') (\<lambda>signed.
         rbind (json_sub signed ''token'') (\<lambda>token.
         rbind (hash_key (EventTypes_ThirdPartyInvite, token)) (\<lambda>k. Inr [k])))) = Inr tp"
    "restricted_join_rule rv \<Longrightarrow> m = Membership_JOIN \<Longrightarrow> dhas (ev_content event) F_AUTHORISING_USER \<Longrightarrow>
       rbind (dsub (ev_content event) F_AUTHORISING_USER) (\<lambda>u.
         rbind (hash_key (EventTypes_Member, u)) (\<lambda>k. Inr [k])) = Inr au"
proof -
  obtain ks' where ks': "member_auth_types rv event = Inr ks'" "set ks' \<subseteq> set ks"
    using assms(1,2) by (auto simp: auth_types_for_event_def Let_def subset_insertI2)
  from ks'(1) assms(3) obtain sk tp au where
    "ev_state_key event = Some sk"
    "ks' = (if m \<in> {Membership_JOIN, Membership_INVITE, Membership_KNOCK}
           then [(EventTypes_JoinRules, JStr [])] else []) @ [(EventTypes_Member, JStr sk)] @ tp @ au"
    "(if m = Membership_INVITE \<and> dhas (ev_content event) ''third_party_invite'' then
       rbind (dsub (ev_content event) ''third_party_invite'') (\<lambda>tpi.
         rbind (json_sub tpi ''signed'') (\<lambda>signed.
         rbind (json_sub signed ''token'') (\<lambda>token.
         rbind (hash_key (EventTypes_ThirdPartyInvite, token)) (\<lambda>k. Inr [k]))))
       else Inr []) = Inr tp"
    "(if restricted_join_rule rv \<and> m = Membership_JOIN \<and> dhas (ev_content event) F_AUTHORISING_USER then
       rbind (dsub (ev_content event) F_AUTHORISING_USER) (\<lambda>u.
         rbind (hash_key (EventTypes_Member, u)) (\<lambda>k. Inr [k]))
       else Inr []) = Inr au"
    unfolding member_auth_types_def Let_def rbind_eq_Inr membership_ok state_key_ok sum.inject
    by (metis (no_types, lifting) option.inject)
  with ks'(2) show thesis by (intro that[of sk tp au]) simp_all
qed

lemma auth_types_memberD:
  assumes "auth_types_for_event rv event = Inr ks" and "ev_type event = EventTypes_Member"
    and "dget (ev_content event) ''membership'' = Some m"
  shows auth_types_target: "ev_state_key event = Some sk \<Longrightarrow> (EventTypes_Member, JStr sk) \<in> set ks"
    and auth_types_join_rules: "m \<in> {Membership_JOIN, Membership_INVITE, Membership_KNOCK} \<Longrightarrow>
          (EventTypes_JoinRules, JStr []) \<in> set ks"
    and auth_types_third_party: "m = Membership_INVITE \<Longrightarrow>
          dget (ev_content event) ''third_party_invite'' = Some (JDict tpi) \<Longrightarrow>
          dget tpi ''signed'' = Some (JDict signed) \<Longrightarrow> dget signed ''token'' = Some token \<Longrightarrow>
          (EventTypes_ThirdPartyInvite, token) \<in> set ks"
    and auth_types_authorising: "restricted_join_rule rv \<Longrightarrow> m = Membership_JOIN \<Longrightarrow>
          dget (ev_content event) F_AUTHORISING_USER = Some u \<Longrightarrow> (EventTypes_Member, u) \<in> set ks"
  by (rule member_auth_types_ok[OF assms]; force simp: hash_key_def dhas_def split: if_splits)+

lemma state_get_agree:
  "agree_on ks m1 m2 \<Longrightarrow> (t, v) \<in> set ks \<Longrightarrow> state_get m1 t v = state_get m2 t v"
  by (cases v) (auto simp: agree_onD)

lemma third_party_signed_ok:
  assumes "third_party_signed event = Some (signed, mxid, token, signatures)"
  obtains tpi where "dget (ev_content event) ''third_party_invite'' = Some (JDict tpi)"
    "dget tpi ''signed'' = Some (JDict signed)" "dget signed ''mxid'' = Some mxid"
    "dget signed ''token'' = Some token" "dget signed ''signatures'' = Some signatures"
  using assms unfolding third_party_signed_def
  by (force split: option.split_asm json.split_asm)

lemma verify_third_party_invite_agree:
  assumes "auth_types_for_event rv event = Inr ks" "ev_type event = EventTypes_Member"
    "dget (ev_content event) ''membership'' = Some Membership_INVITE" "agree_on ks m1 m2"
  shows "verify_third_party_invite env event m1 = verify_third_party_invite env event m2"
proof (cases "third_party_signed event")
  case (Some r)
  obtain signed mxid token signatures where r: "r = (signed, mxid, token, signatures)" by (cases r)
  from Some[unfolded r] have "(EventTypes_ThirdPartyInvite, token) \<in> set ks"
    by (rule third_party_signed_ok) (rule auth_types_third_party[OF assms(1-3) refl])
  from state_get_agree[OF assms(4) this] Some r show ?thesis
    by (simp add: verify_third_party_invite_def)
qed (simp add: verify_third_party_invite_def)

lemma gather_agree:
  assumes "m1 CREATE_KEY = m2 CREATE_KEY"
    and "m1 (EventTypes_PowerLevels, []) = m2 (EventTypes_PowerLevels, [])"
    and "m1 (EventTypes_Member, ev_sender event) = m2 (EventTypes_Member, ev_sender event)"
    and "\<And>sk. ev_state_key event = Some sk \<Longrightarrow> m1 (EventTypes_Member, sk) = m2 (EventTypes_Member, sk)"
    and "m1 (EventTypes_JoinRules, []) = m2 (EventTypes_JoinRules, [])"
  shows "gather_membership_facts event m1 = gather_membership_facts event m2"
  unfolding gather_membership_facts_def
  using assms get_user_power_level_agree[of m1 m2, OF assms(1,2)] get_named_level_agree[of m1 m2, OF assms(2)]
    can_federate_agree[of m1 m2, OF assms(1)]
  by (cases "ev_state_key event"; cases "m2 CREATE_KEY") (simp_all add: state_key_def)

definition join_rule_of :: "state_map \<Rightarrow> json" where
  "join_rule_of m = (case m (EventTypes_JoinRules, []) of
      Some e \<Rightarrow> dget_or (ev_content e) ''join_rule'' JoinRules_INVITE | None \<Rightarrow> JoinRules_INVITE)"

text \<open>The join rules reach the gathered facts through one field only.\<close>

lemma gather_join_rule:
  "gather_membership_facts event m =
     rbind (gather_membership_facts event (m((EventTypes_JoinRules, []) := None)))
       (\<lambda>f. Inr (f\<lparr>mf_join_rule := join_rule_of m\<rparr>))"
proof -
  let ?m = "m((EventTypes_JoinRules, []) := None)"
  have "get_user_power_level u ?m = get_user_power_level u m" for u
    by (rule get_user_power_level_agree) auto
  moreover have "get_named_level ?m n d = get_named_level m n d" for n d
    by (rule get_named_level_agree) auto
  moreover have "can_federate ?m = can_federate m" by (rule can_federate_agree) auto
  ultimately show ?thesis
    by (cases "ev_state_key event"; cases "m CREATE_KEY")
      (auto simp: gather_membership_facts_def state_key_def rbind_assoc join_rule_of_def Let_def
        intro!: rbind_cong)
qed

lemma gather_agree_no_join_rule:
  assumes "m1 CREATE_KEY = m2 CREATE_KEY"
    and "m1 (EventTypes_PowerLevels, []) = m2 (EventTypes_PowerLevels, [])"
    and "m1 (EventTypes_Member, ev_sender event) = m2 (EventTypes_Member, ev_sender event)"
    and "\<And>sk. ev_state_key event = Some sk \<Longrightarrow> m1 (EventTypes_Member, sk) = m2 (EventTypes_Member, sk)"
    and k: "\<And>f j. k1 (f\<lparr>mf_join_rule := j\<rparr>) = k2 f" "\<And>f j. k2 (f\<lparr>mf_join_rule := j\<rparr>) = k2 f"
  shows "rbind (gather_membership_facts event m1) k1 = rbind (gather_membership_facts event m2) k2"
proof -
  have "gather_membership_facts event (m1((EventTypes_JoinRules, []) := None))
      = gather_membership_facts event (m2((EventTypes_JoinRules, []) := None))"
    by (rule gather_agree) (use assms in auto)
  then show ?thesis
    unfolding gather_join_rule[of event m1] gather_join_rule[of event m2] rbind_assoc
    by (auto simp: k intro!: rbind_cong)
qed

lemma not_none_Some: "not_none v = Some x \<Longrightarrow> v = Some x"
  by (cases v rule: not_none.cases) auto

lemma check_authorised_join_agree:
  assumes "m1 CREATE_KEY = m2 CREATE_KEY"
    and "m1 (EventTypes_PowerLevels, []) = m2 (EventTypes_PowerLevels, [])"
    and "\<And>u. dget (ev_content event) F_AUTHORISING_USER = Some u \<Longrightarrow>
           state_get m1 EventTypes_Member u = state_get m2 EventTypes_Member u"
  shows "check_authorised_join event m1 f = check_authorised_join event m2 f"
  using assms(3) get_user_power_level_agree[of m1 m2, OF assms(1,2)]
  by (cases "not_none (dget (ev_content event) F_AUTHORISING_USER)")
    (auto simp: check_authorised_join_def dest: not_none_Some cong: json.case_cong)

lemma check_join_agree:
  assumes "knock_restricted_join_rule rv \<longrightarrow> restricted_join_rule rv"
    and "restricted_join_rule rv \<Longrightarrow> check_authorised_join event m1 f = check_authorised_join event m2 f"
  shows "check_join rv event m1 f = check_join rv event m2 f"
  using assms unfolding check_join_def by (cases "restricted_join_rule rv") (simp_all add: Let_def)

lemma creator_joining_agree:
  assumes "m1 CREATE_KEY = m2 CREATE_KEY"
  shows "creator_joining rv event m1 m = creator_joining rv event m2 m"
  unfolding creator_joining_def assms ..

lemma membership_agree:
  assumes ks: "auth_types_for_event rv event = Inr ks" and ty: "ev_type event = EventTypes_Member"
    and agree: "agree_on ks m1 m2" and rv: "coherent_version rv"
  shows "is_membership_change_allowed env rv event m1 = is_membership_change_allowed env rv event m2"
proof (cases "membership event")
  case (Inr m)
  then have m: "dget (ev_content event) ''membership'' = Some m" by simp
  note ag = agree_onD[OF agree]
  have base: "m1 CREATE_KEY = m2 CREATE_KEY" "m1 (EventTypes_PowerLevels, []) = m2 (EventTypes_PowerLevels, [])"
    "m1 (EventTypes_Member, ev_sender event) = m2 (EventTypes_Member, ev_sender event)"
    by (intro ag auth_types_base[OF ks]; simp add: ty)+
  have target: "m1 (EventTypes_Member, sk) = m2 (EventTypes_Member, sk)" if "ev_state_key event = Some sk" for sk
    using that by (intro ag auth_types_target[OF ks ty m])
  note named = get_named_level_agree[of m1 m2, OF base(2)]
  show ?thesis
  proof (cases "m \<in> {Membership_JOIN, Membership_INVITE, Membership_KNOCK}")
    case True
    have facts: "gather_membership_facts event m1 = gather_membership_facts event m2"
      by (intro gather_agree base target ag auth_types_join_rules[OF ks ty m True])
    have invite: "verify_third_party_invite env event m1 = verify_third_party_invite env event m2"
      if "m = Membership_INVITE"
      using verify_third_party_invite_agree[OF ks ty _ agree] m that by simp
    have join: "check_join rv event m1 f = check_join rv event m2 f" if "m = Membership_JOIN" for f
      using rv that
      by (intro check_join_agree check_authorised_join_agree base
            state_get_agree[OF agree] auth_types_authorising[OF ks ty m]) (auto simp: coherent_version_def)
    show ?thesis using True Inr facts invite join creator_joining_agree[of m1 m2, OF base(1)]
      by (auto simp: is_membership_change_allowed_def Let_def intro!: rbind_cong)
  next
    case False
    have "m \<noteq> Membership_JOIN" "m \<noteq> Membership_INVITE" "m \<noteq> Membership_KNOCK" using False by auto
    note other = this
    show ?thesis
      unfolding is_membership_change_allowed_def Inr rbind.simps creator_joining_agree[of m1 m2, OF base(1)]
      by (rule rbind_cong[OF refl], rule if_cong[OF refl refl], rule gather_agree_no_join_rule)
        (simp_all add: Let_def check_ban_def check_leave_def named other base target)
  qed
qed (simp add: is_membership_change_allowed_def)

lemma can_send_event_agree:
  assumes "m1 CREATE_KEY = m2 CREATE_KEY"
    and "m1 (EventTypes_PowerLevels, []) = m2 (EventTypes_PowerLevels, [])"
  shows "can_send_event env event m1 = can_send_event env event m2"
  unfolding can_send_event_def get_power_level_event_def assms(2)
    get_user_power_level_agree[of m1 m2, OF assms] ..

lemma check_redaction_agree:
  assumes "m1 CREATE_KEY = m2 CREATE_KEY"
    and "m1 (EventTypes_PowerLevels, []) = m2 (EventTypes_PowerLevels, [])"
  shows "check_redaction rv event m1 = check_redaction rv event m2"
  unfolding check_redaction_def get_user_power_level_agree[of m1 m2, OF assms]
    get_named_level_agree[of m1 m2, OF assms(2)] ..

lemma check_power_levels_agree:
  assumes "m1 CREATE_KEY = m2 CREATE_KEY"
    and "m1 (EventTypes_PowerLevels, []) = m2 (EventTypes_PowerLevels, [])"
    and "\<And>sk. ev_state_key event = Some sk \<Longrightarrow> m1 (ev_type event, sk) = m2 (ev_type event, sk)"
  shows "check_power_levels rv event m1 = check_power_levels rv event m2"
  unfolding check_power_levels_def check_creators_not_listed_def assms(1)
    get_user_power_level_agree[of m1 m2, OF assms(1,2)]
  by (intro rbind_cong refl) (simp add: assms(3))

lemma check_against_state_agree:
  assumes ks: "auth_types_for_event (ev_room_version event) event = Inr ks"
    and ty: "ev_type event \<noteq> EventTypes_Create"
    and pl: "ev_type event = EventTypes_PowerLevels \<Longrightarrow> ev_state_key event \<in> {None, Some []}"
    and agree: "agree_on ks m1 m2" and rv: "coherent_version (ev_room_version event)"
  shows "check_against_state env event m1 = check_against_state env event m2"
proof -
  note ag = agree_onD[OF agree]
  have base: "m1 CREATE_KEY = m2 CREATE_KEY" "m1 (EventTypes_PowerLevels, []) = m2 (EventTypes_PowerLevels, [])"
    "m1 (EventTypes_Member, ev_sender event) = m2 (EventTypes_Member, ev_sender event)"
    by (intro ag auth_types_base[OF ks]; simp add: ty)+
  have "check_power_levels rv event m1 = check_power_levels rv event m2"
    if "ev_type event = EventTypes_PowerLevels" for rv
    by (rule check_power_levels_agree) (use base pl that in auto)
  moreover have "is_membership_change_allowed env (ev_room_version event) event m1
      = is_membership_change_allowed env (ev_room_version event) event m2"
    if "ev_type event = EventTypes_Member"
    using that by (intro membership_agree[OF ks _ agree rv])
  ultimately show ?thesis
    unfolding check_against_state_def check_event_sender_in_room_def base
      can_federate_agree[of m1 m2, OF base(1)] get_user_power_level_agree[of m1 m2, OF base(1,2)]
      get_named_level_agree[of m1 m2, OF base(2)] can_send_event_agree[of m1 m2, OF base(1,2)]
      check_redaction_agree[of m1 m2, OF base(1,2)]
    by (cases "ev_type event = EventTypes_PowerLevels"; cases "ev_type event = EventTypes_Member")
      (simp_all cong: option.case_cong)
qed

section \<open>Power levels cannot be escalated\<close>

definition users_default_level :: "json_dict \<Rightarrow> int res" where
  "users_default_level content =
     (case not_none (Some (dget_or content ''users_default'' (JInt 0))) of Some v \<Rightarrow> py_int v | None \<Rightarrow> Inr 0)"

lemma level_in_content_alt:
  "level_in_content content u =
     rbind (json_get (dget_or content ''users'' (JDict [])) u) (\<lambda>level.
       case not_none level of Some v \<Rightarrow> py_int v | None \<Rightarrow> users_default_level content)"
  unfolding level_in_content_def users_default_level_def ..

lemma level_in_content_ok:
  "level_in_content content u = Inr l \<longleftrightarrow>
     (\<exists>d. dget_or content ''users'' (JDict []) = JDict d
        \<and> (case not_none (dget d u) of Some v \<Rightarrow> py_int v = Inr l | None \<Rightarrow> users_default_level content = Inr l))"
  by (cases "dget_or content ''users'' (JDict [])") (auto simp: level_in_content_alt split: option.splits)

lemma level_at_dict:
  "level_at (JDict d) (JStr k) = (case dget d k of None \<Rightarrow> Inr None | Some v \<Rightarrow> rbind (py_int v) (\<lambda>i. Inr (Some i)))"
  by (auto simp: level_at_def dhas_def dsub_def split: option.splits)

lemma level_at_dict_ok:
  "level_at (JDict d) (JStr k) = Inr r \<longleftrightarrow>
     (case dget d k of None \<Rightarrow> r = None | Some v \<Rightarrow> \<exists>i. py_int v = Inr i \<and> r = Some i)"
  by (auto simp: level_at_dict split: option.splits)

text \<open>Every level the rule looks at passed the comparison with the sender's level.\<close>

lemma check_power_levels_entry:
  assumes "check_power_levels rv event m = Inr ()" "ev_state_key event = Some sk"
    "m (ev_type event, sk) = Some old"
  obtains sl levels where "get_user_power_level (ev_sender event) m = Inr sl"
    "levels_to_check rv (ev_content old) (ev_content event) = Inr levels"
    "\<And>l. l \<in> set levels \<Longrightarrow> check_level event sl (ev_content old) (ev_content event) l = Inr ()"
  using assms by (auto simp: check_power_levels_def riter_ok)

lemma sub_levels_dict:
  assumes "dget_or old dir (JDict []) = JDict d1" "dget_or new dir (JDict []) = JDict d2"
  shows "sub_levels old new dir = Inr (map (\<lambda>(k, _). (JStr k, Some dir)) (d1 @ d2))"
  using assms by (auto simp: sub_levels_def list_all_iff)

lemma levels_to_check_ok:
  assumes "levels_to_check rv old new = Inr levels"
  shows "n \<in> set named_levels \<Longrightarrow> (JStr n, None) \<in> set levels"
    and "dir \<in> {''users'', ''events''} \<Longrightarrow> dget_or old dir (JDict []) = JDict d1 \<Longrightarrow>
         dget_or new dir (JDict []) = JDict d2 \<Longrightarrow> k \<in> set (dkeys d1) \<union> set (dkeys d2) \<Longrightarrow>
         (JStr k, Some dir) \<in> set levels"
  using assms by (auto simp: levels_to_check_def sub_levels_dict image_iff; force)+

text \<open>The comparison itself: an entry that changes was, and is now, at most the sender's level.\<close>

definition bounded_change :: "int \<Rightarrow> int option \<Rightarrow> int option \<Rightarrow> bool" where
  "bounded_change sl a b \<longleftrightarrow> a = b \<or> ((\<forall>i. a = Some i \<longrightarrow> i \<le> sl) \<and> (\<forall>i. b = Some i \<longrightarrow> i \<le> sl))"

lemma check_level_ok:
  assumes "check_level event sl old new (l, dir) = Inr ()"
    "level_at (level_loc old dir) l = Inr a" "level_at (level_loc new dir) l = Inr b"
  shows "bounded_change sl a b"
    and "dir = Some ''users'' \<Longrightarrow> l \<noteq> JStr (ev_sender event) \<Longrightarrow> a = Some i \<Longrightarrow> sl \<le> i \<Longrightarrow> b = a"
  using assms by (auto simp: check_level_def bounded_change_def split: if_splits option.splits)

lemma check_level_total:
  assumes "check_level event sl old new (l, dir) = Inr ()"
  obtains a b where "level_at (level_loc old dir) l = Inr a" "level_at (level_loc new dir) l = Inr b"
  using assms by (auto simp: check_level_def)

lemma not_none_int: "py_int v = Inr i \<Longrightarrow> not_none (Some v) = Some v"
  by (cases v) auto

lemma users_default_view:
  assumes "level_at (JDict c) (JStr ''users_default'') = Inr D"
  shows "users_default_level c = Inr (case D of None \<Rightarrow> 0 | Some i \<Rightarrow> i)"
  using assms by (auto simp: users_default_level_def level_at_dict_ok dget_or_def not_none_int split: option.splits)

lemma level_view:
  assumes "level_in_content c u = Inr l" "dget_or c ''users'' (JDict []) = JDict d"
    "level_at (JDict d) (JStr u) = Inr A" "level_at (JDict c) (JStr ''users_default'') = Inr D"
  shows "l = (case A of Some i \<Rightarrow> i | None \<Rightarrow> (case D of Some i \<Rightarrow> i | None \<Rightarrow> 0))"
  using assms users_default_view[OF assms(4)]
  by (cases "dget d u") (auto simp: level_in_content_ok level_at_dict_ok not_none_int)

lemma user_entry_bounded:
  assumes levels: "levels_to_check rv oc nc = Inr levels"
    and ok: "\<And>l. l \<in> set levels \<Longrightarrow> check_level event sl oc nc l = Inr ()"
    and users: "dget_or oc ''users'' (JDict []) = JDict d1" "dget_or nc ''users'' (JDict []) = JDict d2"
  obtains A B where "level_at (JDict d1) (JStr u) = Inr A" "level_at (JDict d2) (JStr u) = Inr B"
    "bounded_change sl A B" "\<And>i. u \<noteq> ev_sender event \<Longrightarrow> A = Some i \<Longrightarrow> sl \<le> i \<Longrightarrow> B = A"
proof (cases "u \<in> set (dkeys d1) \<union> set (dkeys d2)")
  case True
  then have l: "check_level event sl oc nc (JStr u, Some ''users'') = Inr ()"
    using levels_to_check_ok(2)[OF levels _ users] ok by simp
  obtain A B where "level_at (JDict d1) (JStr u) = Inr A" "level_at (JDict d2) (JStr u) = Inr B"
    using check_level_total[OF l] users by (auto simp: level_loc_def)
  with check_level_ok[OF l] users show thesis by (intro that[of A B]) (auto simp: level_loc_def)
next
  case False
  then have "dget d1 u = None" "dget d2 u = None" by (simp_all add: map_of_eq_None_iff)
  then show thesis by (intro that[of None None]) (simp_all add: level_at_dict bounded_change_def)
qed

lemma named_entry_bounded:
  assumes levels: "levels_to_check rv oc nc = Inr levels" and n: "n \<in> set named_levels"
    and ok: "\<And>l. l \<in> set levels \<Longrightarrow> check_level event sl oc nc l = Inr ()"
  obtains A B where "level_at (JDict oc) (JStr n) = Inr A" "level_at (JDict nc) (JStr n) = Inr B"
    "bounded_change sl A B"
proof -
  have l: "check_level event sl oc nc (JStr n, None) = Inr ()"
    using levels_to_check_ok(1)[OF levels n] ok by simp
  obtain A B where "level_at (JDict oc) (JStr n) = Inr A" "level_at (JDict nc) (JStr n) = Inr B"
    using check_level_total[OF l] by (auto simp: level_loc_def)
  with check_level_ok[OF l] show thesis by (intro that[of A B]) (auto simp: level_loc_def)
qed

lemma content_level_bounded:
  assumes levels: "levels_to_check rv oc nc = Inr levels"
    and ok: "\<And>l. l \<in> set levels \<Longrightarrow> check_level event sl oc nc l = Inr ()"
    and lvl: "level_in_content oc u = Inr a" "level_in_content nc u = Inr b" "users_default_level oc = Inr d"
  shows "b = a \<or> b \<le> max 0 (max sl d)"
    and "dget_or oc ''users'' (JDict []) = JDict us \<Longrightarrow> dhas us u \<Longrightarrow> u \<noteq> ev_sender event \<Longrightarrow> sl \<le> a \<Longrightarrow> b = a"
proof -
  obtain d1 d2 where users: "dget_or oc ''users'' (JDict []) = JDict d1" "dget_or nc ''users'' (JDict []) = JDict d2"
    using lvl by (auto simp: level_in_content_ok)
  obtain A B where u: "level_at (JDict d1) (JStr u) = Inr A" "level_at (JDict d2) (JStr u) = Inr B"
    "bounded_change sl A B" "\<And>i. u \<noteq> ev_sender event \<Longrightarrow> A = Some i \<Longrightarrow> sl \<le> i \<Longrightarrow> B = A"
    using user_entry_bounded[OF levels ok users] by metis
  obtain D E where ud: "level_at (JDict oc) (JStr ''users_default'') = Inr D"
    "level_at (JDict nc) (JStr ''users_default'') = Inr E" "bounded_change sl D E"
    by (rule named_entry_bounded[OF levels _ ok, of "''users_default''"]) (simp_all add: named_levels_def)
  note views = level_view[OF lvl(1) users(1) u(1) ud(1)] level_view[OF lvl(2) users(2) u(2) ud(2)]
  from views lvl(3) u(3) ud(3) users_default_view[OF ud(1)] show "b = a \<or> b \<le> max 0 (max sl d)"
    by (auto simp: bounded_change_def split: option.splits)
  show "b = a" if "dget_or oc ''users'' (JDict []) = JDict us" "dhas us u" "u \<noteq> ev_sender event" "sl \<le> a"
    using views u(1,4) users(1) that by (auto simp: level_at_dict_ok dhas_def split: option.splits)
qed

section \<open>Membership changes\<close>

text \<open>
  The two ways a membership event is accepted: the creator's first join, or one of the rules on
  the gathered facts.
\<close>

lemma membership_change_cases:
  assumes "is_membership_change_allowed env rv event m = Inr ()"
    "dget (ev_content event) ''membership'' = Some ms"
  obtains (creator) "creator_joining rv event m ms = Inr True"
  | (rules) f where "creator_joining rv event m ms = Inr False" "gather_membership_facts event m = Inr f"
    "ms = Membership_INVITE \<and> dhas (ev_content event) ''third_party_invite'' \<Longrightarrow>
       verify_third_party_invite env event m = Inr True \<and> mf_target_membership f \<noteq> Some Membership_BAN"
    "ms = Membership_INVITE \<Longrightarrow> \<not> dhas (ev_content event) ''third_party_invite'' \<Longrightarrow>
       mf_caller f = Some Membership_JOIN \<and> check_invite f = Inr ()"
    "ms = Membership_JOIN \<Longrightarrow> check_join rv event m f = Inr ()"
    "ms = Membership_LEAVE \<Longrightarrow> (mf_target f = ev_sender event
         \<and> (mf_caller f = Some Membership_INVITE \<or> knock_join_rule rv \<and> mf_caller f = Some Membership_KNOCK))
       \<or> (mf_caller f = Some Membership_JOIN \<and> check_leave event m f = Inr ())"
    "ms = Membership_BAN \<Longrightarrow> mf_caller f = Some Membership_JOIN \<and> check_ban f = Inr ()"
    "ms = Membership_KNOCK \<Longrightarrow> knock_join_rule rv \<and> check_knock rv event f = Inr ()"
    "ms \<in> {Membership_INVITE, Membership_JOIN, Membership_LEAVE, Membership_BAN, Membership_KNOCK}"
proof -
  from assms obtain fj where fj: "creator_joining rv event m ms = Inr fj"
    by (auto simp: is_membership_change_allowed_def)
  show thesis
  proof (cases fj)
    case False
    with assms fj obtain f where "gather_membership_facts event m = Inr f"
      by (auto simp: is_membership_change_allowed_def)
    then show thesis using assms fj False
      by (intro rules[of f]) (auto simp: is_membership_change_allowed_def Let_def split: if_splits)
  qed (use creator fj in simp)
qed

lemma creator_joining_true:
  "creator_joining rv event m ms = Inr True \<Longrightarrow> ms = Membership_JOIN \<and>
     (\<exists>create sk. m CREATE_KEY = Some create \<and> ev_state_key event = Some sk
        \<and> prev_event_ids event = [ev_event_id create]
        \<and> (if implicit_room_creator rv then sk = ev_sender create
           else dget (ev_content create) F_ROOM_CREATOR = Some (JStr sk)))"
  by (auto simp: creator_joining_def split: list.splits if_splits option.splits)

text \<open>An event that is not the one right after the create event is not the creator's first join.\<close>

definition after_create :: "state_map \<Rightarrow> EventBase \<Rightarrow> bool" where
  "after_create m event \<longleftrightarrow> (case m CREATE_KEY of None \<Rightarrow> False
     | Some create \<Rightarrow> ev_prev_events event = [ev_event_id create])"

lemma creator_joining_after_create:
  "creator_joining rv event m ms = Inr True \<Longrightarrow> after_create m event"
  using creator_joining_true by (fastforce simp: after_create_def prev_event_ids_def)

lemma check_authorised_join_ok:
  assumes "check_authorised_join event m f = Inr ()" "get_named_level m ''invite'' 0 = Inr (mf_invite_level f)"
  obtains u l where "dget (ev_content event) F_AUTHORISING_USER = Some (JStr u)" "joined m u"
    "get_user_power_level u m = Inr l" "mf_invite_level f \<le> l"
proof -
  obtain v where v: "not_none (dget (ev_content event) F_AUTHORISING_USER) = Some v"
    using assms(1) by (auto simp: check_authorised_join_def split: option.splits)
  with assms(1) obtain u where "v = JStr u"
    by (cases v) (auto simp: check_authorised_join_def)
  with assms v show thesis
    by (auto simp: check_authorised_join_def check_joined_room_ok intro!: that dest: not_none_Some)
qed

text \<open>What entitles a user to join, besides being the creator of an empty room.\<close>

definition may_join :: "RoomVersion \<Rightarrow> EventBase \<Rightarrow> state_map \<Rightarrow> bool" where
  "may_join rv event m \<longleftrightarrow>
     join_rule_of m = JoinRules_PUBLIC \<or> joined m (ev_sender event) \<or> invited m (ev_sender event)
   \<or> ((restricted_join_rule rv \<and> join_rule_of m = JoinRules_RESTRICTED
        \<or> knock_restricted_join_rule rv \<and> join_rule_of m = JoinRules_KNOCK_RESTRICTED)
      \<and> (\<exists>u l il. dget (ev_content event) F_AUTHORISING_USER = Some (JStr u) \<and> joined m u
           \<and> get_user_power_level u m = Inr l \<and> get_named_level m ''invite'' 0 = Inr il \<and> il \<le> l))"

lemma check_join_ok:
  assumes f: "gather_membership_facts event m = Inr f" and c: "check_join rv event m f = Inr ()"
  shows "mf_target f = ev_sender event" "\<not> banned m (ev_sender event)" "may_join rv event m"
proof -
  obtain create where g: "membership_of (m (EventTypes_Member, ev_sender event)) = Inr (mf_caller f)"
    "membership_of (m (EventTypes_Member, mf_target f)) = Inr (mf_target_membership f)"
    "mf_join_rule f = join_rule_of m" "get_named_level m ''invite'' 0 = Inr (mf_invite_level f)"
    using f by (elim gather_ok) (auto simp: join_rule_of_def)
  show t: "mf_target f = ev_sender event" using c by (simp add: check_join_def Let_def split: if_splits)
  show "\<not> banned m (ev_sender event)"
    using c g t facts_joined(2)[of m "mf_target f", OF g(2)] by (auto simp: check_join_def Let_def split: if_splits)
  have *: "\<exists>u l il. dget (ev_content event) F_AUTHORISING_USER = Some (JStr u) \<and> joined m u
           \<and> get_user_power_level u m = Inr l \<and> get_named_level m ''invite'' 0 = Inr il \<and> il \<le> l"
    if "check_authorised_join event m f = Inr ()"
    using check_authorised_join_ok[OF that g(4)] g(4) by metis
  then show "may_join rv event m"
    using c facts_joined(1,3)[of m "ev_sender event", OF g(1)] g(3)
    by (cases "check_authorised_join event m f = Inr ()") (auto simp: check_join_def may_join_def Let_def split: if_splits)
qed

end
