(* ===== verification/Event_Auth_Theorems.thy ===== *)
theory Event_Auth_Theorems
  imports Event_Auth_Props
begin

text \<open>
  The properties of the authorisation rules, each stated for \<open>check_state_dependent_auth_rules\<close>,
  \<open>check_state_independent_auth_rules\<close> or \<open>validate_event_for_room_version\<close> as a whole, with
  sample rooms on which their hypotheses hold.
\<close>

section \<open>Sample rooms\<close>

definition sample_env :: auth_env where
  "sample_env = \<lparr>valid_ipv6 = (\<lambda>_. False), pdu_json_size = (\<lambda>_. 1000), verify_3pid = (\<lambda>_ _ _ _. Inr ())\<rparr>"

definition sample_event :: "RoomVersion \<Rightarrow> string \<Rightarrow> string \<Rightarrow> string option \<Rightarrow> json_dict \<Rightarrow> EventBase" where
  "sample_event rv t sender sk content =
     \<lparr>ev_type = t, ev_sender = sender, ev_state_key = sk, ev_content = content, ev_prev_events = [''$p''],
      ev_auth_events = [], ev_depth = 5, ev_origin_server_ts = 0, ev_room_id = Some ''!r:h'',
      ev_redacts = None, ev_event_id = ''$e:h'', ev_signatures = [], ev_room_version = rv,
      ev_rejected_reason = None, ev_recheck_redaction = False\<rparr>"

definition sample_member :: "RoomVersion \<Rightarrow> string \<Rightarrow> json \<Rightarrow> EventBase" where
  "sample_member rv u m = sample_event rv EventTypes_Member u (Some u) [(''membership'', m)]"

definition sample_create :: "RoomVersion \<Rightarrow> EventBase" where
  "sample_create rv = (sample_event rv EventTypes_Create ''@c:h'' (Some []) [(''creator'', JStr ''@c:h'')])\<lparr>ev_prev_events := []\<rparr>"

definition sample_power :: "RoomVersion \<Rightarrow> (string \<times> int) list \<Rightarrow> EventBase" where
  "sample_power rv us = sample_event rv EventTypes_PowerLevels ''@c:h'' (Some [])
     [(''users'', JDict (map (\<lambda>(u, l). (u, JInt l)) us))]"

text \<open>A room with a moderator \<open>@m\<close>, a member \<open>@u\<close> and invite-only join rules.\<close>

definition sample_room :: "RoomVersion \<Rightarrow> EventBase list" where
  "sample_room rv = [sample_create rv, sample_power rv [(''@c:h'', 100), (''@m:h'', 50), (''@u:h'', 10)],
     sample_member rv ''@c:h'' Membership_JOIN, sample_member rv ''@m:h'' Membership_JOIN,
     sample_member rv ''@u:h'' Membership_JOIN]"

definition sample_ban :: "RoomVersion \<Rightarrow> EventBase" where
  "sample_ban rv = sample_event rv EventTypes_Member ''@m:h'' (Some ''@u:h'') [(''membership'', Membership_BAN)]"

section \<open>Power levels\<close>

lemma accepted_power_levels:
  assumes "ok (check_state_dependent_auth_rules env event es)" "ev_type event = EventTypes_PowerLevels"
    "ev_state_key event = Some []" "state_of es (EventTypes_PowerLevels, []) = Some old"
    "get_user_power_level (ev_sender event) (state_of es) = Inr sl"
  obtains levels where "levels_to_check (ev_room_version event) (ev_content old) (ev_content event) = Inr levels"
    "\<And>l. l \<in> set levels \<Longrightarrow> check_level event sl (ev_content old) (ev_content event) l = Inr ()"
proof -
  obtain event' where "check_against_state env event (state_of es) = Inr event'"
    using assms(1,2) check_state_dependent_ok by (force simp: ok_iff)
  then have "check_power_levels (ev_room_version event) event (state_of es) = Inr ()"
    by (rule check_against_state_ok) (use assms(2) in blast)
  then show thesis
    using assms that by (elim check_power_levels_entry[where sk = "[]"]) auto
qed

lemma user_levels_content:
  assumes "m (EventTypes_PowerLevels, []) = Some old"
    "get_user_power_level u m = Inr a" "get_user_power_level u (m((EventTypes_PowerLevels, []) \<mapsto> event)) = Inr b"
  shows "a = b \<or> (level_in_content (ev_content old) u = Inr a \<and> level_in_content (ev_content event) u = Inr b)"
  using assms by (auto simp: get_user_power_level_def get_power_level_event_def split: option.splits if_splits)


definition sample_promotion :: "RoomVersion \<Rightarrow> EventBase" where
  "sample_promotion rv = (sample_power rv [(''@c:h'', 100), (''@m:h'', 50), (''@u:h'', 40)])\<lparr>ev_sender := ''@m:h''\<rparr>"


text \<open>
  C29. A user who is listed in the current power levels with a level not below the sender's keeps
  that level through every accepted power-levels event of another user.
\<close>

theorem power_levels_peers_kept:
  assumes "ok (check_state_dependent_auth_rules env event es)"
    and "ev_type event = EventTypes_PowerLevels" and "ev_state_key event = Some []"
    and "state_of es (EventTypes_PowerLevels, []) = Some old"
    and "get_user_power_level (ev_sender event) (state_of es) = Inr sl"
    and "users_default_level (ev_content old) = Inr d"
    and "get_user_power_level u (state_of es) = Inr a"
    and "get_user_power_level u ((state_of es)((EventTypes_PowerLevels, []) \<mapsto> event)) = Inr b"
    and "dget (ev_content old) ''users'' = Some (JDict users)" and "dhas users u"
    and "u \<noteq> ev_sender event" and "sl \<le> a"
  shows "b = a"
proof -
  obtain levels where lv: "levels_to_check (ev_room_version event) (ev_content old) (ev_content event) = Inr levels"
    "\<And>l. l \<in> set levels \<Longrightarrow> check_level event sl (ev_content old) (ev_content event) l = Inr ()"
    using accepted_power_levels[OF assms(1-5)] by metis
  from user_levels_content[OF assms(4,7,8)] content_level_bounded(2)[OF lv _ _ assms(6) _ assms(10-12)] assms(9)
  show ?thesis by (auto simp: dget_or_def)
qed

theorem power_levels_peers_kept_witness:
  "get_user_power_level ''@c:h'' (state_of (sample_room RV_V10)) = Inr 100 \<and> (100::int) = 100"
  by (rule conjI, code_simp, rule power_levels_peers_kept[where env = sample_env and event = "sample_promotion RV_V10"
        and es = "sample_room RV_V10" and u = "''@c:h''" and sl = 50 and d = 0
        and users = "[(''@c:h'', JInt 100), (''@m:h'', JInt 50), (''@u:h'', JInt 10)]"
        and old = "sample_power RV_V10 [(''@c:h'', 100), (''@m:h'', 50), (''@u:h'', 10)]"]; code_simp)

section \<open>Membership\<close>

lemma accepted_member:
  assumes "ok (check_state_dependent_auth_rules env event es)" "ev_type event = EventTypes_Member"
  shows "is_membership_change_allowed env (ev_room_version event) event (state_of es) = Inr ()"
proof -
  obtain event' where "check_against_state env event (state_of es) = Inr event'"
    using assms check_state_dependent_ok by (force simp: ok_iff)
  then show ?thesis by (rule check_against_state_ok) (use assms(2) in blast)
qed

lemma accepted_ban:
  assumes "ok (check_state_dependent_auth_rules env event es)" "ev_type event = EventTypes_Member"
    and "dget (ev_content event) ''membership'' = Some Membership_BAN"
  shows "\<exists>target sl tl bl. ev_state_key event = Some target \<and> joined (state_of es) (ev_sender event)
    \<and> get_user_power_level (ev_sender event) (state_of es) = Inr sl
    \<and> get_user_power_level target (state_of es) = Inr tl
    \<and> get_named_level (state_of es) ''ban'' 50 = Inr bl \<and> bl \<le> sl \<and> tl < sl"
proof (rule membership_change_cases[OF accepted_member[OF assms(1,2)] assms(3)])
  assume "creator_joining (ev_room_version event) event (state_of es) Membership_BAN = Inr True"
  then show ?thesis using creator_joining_true by fastforce
next
  fix f
  assume "gather_membership_facts event (state_of es) = Inr f"
    and "Membership_BAN = Membership_BAN \<Longrightarrow> mf_caller f = Some Membership_JOIN \<and> check_ban f = Inr ()"
  then show ?thesis
    by (elim gather_ok) (auto simp: check_ban_def facts_joined split: if_splits)
qed

text \<open>
  An accepted ban comes from a joined user whose level reaches the ban level and is strictly
  above the level of the banned user.
\<close>

theorem ban_needs_higher_level:
  assumes "ok (check_state_dependent_auth_rules env event es)" "ev_type event = EventTypes_Member"
    and "dget (ev_content event) ''membership'' = Some Membership_BAN"
  shows "\<exists>target sl tl bl. ev_state_key event = Some target \<and> joined (state_of es) (ev_sender event)
    \<and> get_user_power_level (ev_sender event) (state_of es) = Inr sl
    \<and> get_user_power_level target (state_of es) = Inr tl
    \<and> get_named_level (state_of es) ''ban'' 50 = Inr bl \<and> bl \<le> sl \<and> tl < sl"
  by (rule accepted_ban[OF assms])

lemma sample_ban_accepted:
  "ok (check_state_dependent_auth_rules sample_env (sample_ban RV_V10) (sample_room RV_V10))"
  by code_simp

theorem ban_needs_higher_level_witness:
  "\<exists>target sl tl bl. ev_state_key (sample_ban RV_V10) = Some target
    \<and> joined (state_of (sample_room RV_V10)) (ev_sender (sample_ban RV_V10))
    \<and> get_user_power_level (ev_sender (sample_ban RV_V10)) (state_of (sample_room RV_V10)) = Inr sl
    \<and> get_user_power_level target (state_of (sample_room RV_V10)) = Inr tl
    \<and> get_named_level (state_of (sample_room RV_V10)) ''ban'' 50 = Inr bl \<and> bl \<le> sl \<and> tl < sl"
  by (rule ban_needs_higher_level[OF sample_ban_accepted]; code_simp)

text \<open>
  An accepted leave event for another user (a kick, or an unban) comes from a joined user whose
  level reaches the kick level and is strictly above the target's, and reaches the ban level when
  the target is banned.
\<close>

theorem kick_needs_higher_level:
  assumes "ok (check_state_dependent_auth_rules env event es)" "ev_type event = EventTypes_Member"
    and "dget (ev_content event) ''membership'' = Some Membership_LEAVE"
    and "ev_state_key event = Some target" and "target \<noteq> ev_sender event"
  shows "\<exists>sl tl kl bl. joined (state_of es) (ev_sender event)
    \<and> get_user_power_level (ev_sender event) (state_of es) = Inr sl
    \<and> get_user_power_level target (state_of es) = Inr tl
    \<and> get_named_level (state_of es) ''kick'' 50 = Inr kl \<and> get_named_level (state_of es) ''ban'' 50 = Inr bl
    \<and> kl \<le> sl \<and> tl < sl \<and> (banned (state_of es) target \<longrightarrow> bl \<le> sl)"
proof (rule membership_change_cases[OF accepted_member[OF assms(1,2)] assms(3)])
  assume "creator_joining (ev_room_version event) event (state_of es) Membership_LEAVE = Inr True"
  then show ?thesis using creator_joining_true by fastforce
next
  fix f
  assume f: "gather_membership_facts event (state_of es) = Inr f"
    and "Membership_LEAVE = Membership_LEAVE \<Longrightarrow> (mf_target f = ev_sender event
         \<and> (mf_caller f = Some Membership_INVITE \<or> knock_join_rule (ev_room_version event) \<and> mf_caller f = Some Membership_KNOCK))
       \<or> (mf_caller f = Some Membership_JOIN \<and> check_leave event (state_of es) f = Inr ())"
  with assms(4,5) have "mf_caller f = Some Membership_JOIN" "check_leave event (state_of es) f = Inr ()"
    "mf_target f = target" by (auto elim: gather_ok)
  with f assms(5) show ?thesis
    by (elim gather_ok) (auto simp: check_leave_def facts_joined split: if_splits)
qed

definition sample_kick :: "RoomVersion \<Rightarrow> EventBase" where
  "sample_kick rv = sample_event rv EventTypes_Member ''@m:h'' (Some ''@u:h'') [(''membership'', Membership_LEAVE)]"

lemma sample_kick_accepted:
  "ok (check_state_dependent_auth_rules sample_env (sample_kick RV_V10) (sample_room RV_V10))"
  by code_simp

theorem kick_needs_higher_level_witness:
  "\<exists>sl tl kl bl. joined (state_of (sample_room RV_V10)) (ev_sender (sample_kick RV_V10))
    \<and> get_user_power_level (ev_sender (sample_kick RV_V10)) (state_of (sample_room RV_V10)) = Inr sl
    \<and> get_user_power_level ''@u:h'' (state_of (sample_room RV_V10)) = Inr tl
    \<and> get_named_level (state_of (sample_room RV_V10)) ''kick'' 50 = Inr kl
    \<and> get_named_level (state_of (sample_room RV_V10)) ''ban'' 50 = Inr bl
    \<and> kl \<le> sl \<and> tl < sl \<and> (banned (state_of (sample_room RV_V10)) ''@u:h'' \<longrightarrow> bl \<le> sl)"
  by (rule kick_needs_higher_level[OF sample_kick_accepted]; code_simp)


definition sample_restricted_join :: "RoomVersion \<Rightarrow> EventBase" where
  "sample_restricted_join rv = sample_event rv EventTypes_Member ''@v:h'' (Some ''@v:h'')
     [(''membership'', Membership_JOIN), (F_AUTHORISING_USER, JStr ''@m:h'')]"

definition sample_restricted_room :: "RoomVersion \<Rightarrow> EventBase list" where
  "sample_restricted_room rv = sample_room rv @
     [sample_event rv EventTypes_JoinRules ''@c:h'' (Some []) [(''join_rule'', JoinRules_RESTRICTED)]]"

lemma sample_restricted_join_accepted:
  "ok (check_state_dependent_auth_rules sample_env (sample_restricted_join RV_V10) (sample_restricted_room RV_V10))"
  by code_simp



definition sample_banned_room :: "RoomVersion \<Rightarrow> EventBase list" where
  "sample_banned_room rv = sample_room rv @ [sample_event rv EventTypes_Member ''@m:h'' (Some ''@v:h'')
     [(''membership'', Membership_BAN)]]"

definition sample_unban :: "RoomVersion \<Rightarrow> EventBase" where
  "sample_unban rv = sample_event rv EventTypes_Member ''@m:h'' (Some ''@v:h'') [(''membership'', Membership_LEAVE)]"

lemma sample_unban_accepted:
  "ok (check_state_dependent_auth_rules sample_env (sample_unban RV_V10) (sample_banned_room RV_V10))"
  by code_simp


section \<open>Creators, senders and servers\<close>

text \<open>The levels of a power-levels event are JSON integers in the canonical range.\<close>

definition canonical_level :: "json \<Rightarrow> bool" where
  "canonical_level v \<longleftrightarrow> (case v of JInt i \<Rightarrow> i \<le> CANONICALJSON_MAX_INT | _ \<Rightarrow> False)"

definition canonical_levels :: "json_dict \<Rightarrow> bool" where
  "canonical_levels content \<longleftrightarrow>
     (case dget_or content ''users'' (JDict []) of JDict d \<Rightarrow> list_all canonical_level (dvalues d) | _ \<Rightarrow> True)
   \<and> canonical_level (dget_or content ''users_default'' (JInt 0))"

lemma canonical_level_int: "canonical_level v \<Longrightarrow> py_int v = Inr l \<Longrightarrow> l < CREATOR_POWER_LEVEL"
  by (cases v) (auto simp: canonical_level_def CREATOR_POWER_LEVEL_def CANONICALJSON_MAX_INT_def)

lemma level_in_content_canonical:
  assumes "canonical_levels content" "level_in_content content u = Inr l"
  shows "l < CREATOR_POWER_LEVEL"
proof -
  obtain d where d: "dget_or content ''users'' (JDict []) = JDict d"
    and l: "case not_none (dget d u) of Some v \<Rightarrow> py_int v = Inr l | None \<Rightarrow> users_default_level content = Inr l"
    using assms(2) by (auto simp: level_in_content_ok)
  have "canonical_level v" if "dget d u = Some v" for v
    using assms(1) d that by (force simp: canonical_levels_def list_all_iff dest: map_of_SomeD)
  moreover have "canonical_level (dget_or content ''users_default'' (JInt 0))"
    using assms(1) by (simp add: canonical_levels_def)
  ultimately show ?thesis using l
    by (auto simp: users_default_level_def dest: canonical_level_int not_none_Some split: option.splits)
      (auto simp: CREATOR_POWER_LEVEL_def CANONICALJSON_MAX_INT_def)
qed

lemma user_level_at_most_creator:
  assumes "m CREATE_KEY = Some create" "get_user_power_level u m = Inr l"
    "\<And>pl. m (EventTypes_PowerLevels, []) = Some pl \<Longrightarrow> canonical_levels (ev_content pl)"
  shows "l \<le> CREATOR_POWER_LEVEL"
proof (cases "get_power_level_event m")
  case None
  then show ?thesis using assms
    by (auto simp: get_user_power_level_def CREATOR_POWER_LEVEL_def CANONICALJSON_MAX_INT_def split: if_splits)
next
  case (Some pl)
  then have "canonical_levels (ev_content pl)" using assms(3) by (simp add: get_power_level_event_def)
  with Some show ?thesis using assms
    by (auto simp: get_user_power_level_def dest!: level_in_content_canonical split: if_splits)
qed

text \<open>
  C37. In a room version with privileged creators nobody can kick or ban a creator, the other
  creators included, as long as the power levels are integers in the canonical JSON range.
\<close>

theorem creators_cannot_be_removed:
  assumes "ok (check_state_dependent_auth_rules env event es)" "ev_type event = EventTypes_Member"
    and "state_of es CREATE_KEY = Some create" "msc4289_creator_power_enabled (ev_room_version create)"
    and "is_creator create target = Inr True"
    and "ev_state_key event = Some target" and "target \<noteq> ev_sender event"
    and "\<And>pl. state_of es (EventTypes_PowerLevels, []) = Some pl \<Longrightarrow> canonical_levels (ev_content pl)"
  shows "dget (ev_content event) ''membership'' \<notin> {Some Membership_LEAVE, Some Membership_BAN}"
proof
  assume leave: "dget (ev_content event) ''membership'' \<in> {Some Membership_LEAVE, Some Membership_BAN}"
  then obtain ms where ms: "dget (ev_content event) ''membership'' = Some ms" "ms \<noteq> Membership_JOIN"
    "ms = Membership_LEAVE \<or> ms = Membership_BAN" by auto
  show False
  proof (rule membership_change_cases[OF accepted_member[OF assms(1,2)] ms(1)], goal_cases)
    case 1 then show ?case using creator_joining_true ms(2) by blast
  next
    case (2 f)
    have g: "ev_state_key event = Some (mf_target f)"
      "get_user_power_level (ev_sender event) (state_of es) = Inr (mf_user_level f)"
      "get_user_power_level (mf_target f) (state_of es) = Inr (mf_target_level f)"
      by (rule gather_ok[OF 2(2)], assumption)+
    have "mf_target_level f = CREATOR_POWER_LEVEL" and t: "mf_target f = target"
      using g(1,3) assms(3-6) by (auto simp: get_user_power_level_def)
    moreover have "mf_user_level f \<le> CREATOR_POWER_LEVEL"
      using user_level_at_most_creator[OF assms(3) g(2) assms(8)] .
    moreover have "mf_target_level f < mf_user_level f"
      using ms(3) 2(6,7) t assms(7) by (elim disjE) (auto simp: check_leave_def check_ban_def split: if_splits)
    ultimately show ?case by simp
  qed
qed

definition sample_creator_room :: "EventBase list" where
  "sample_creator_room = [sample_create RV_V12, sample_power RV_V12 [(''@m:h'', 50)],
     sample_member RV_V12 ''@m:h'' Membership_JOIN, sample_member RV_V12 ''@c:h'' Membership_INVITE]"

definition sample_reinvite :: "EventBase" where
  "sample_reinvite = sample_event RV_V12 EventTypes_Member ''@m:h'' (Some ''@c:h'') [(''membership'', Membership_INVITE)]"

lemma sample_reinvite_accepted:
  "ok (check_state_dependent_auth_rules sample_env sample_reinvite sample_creator_room)"
  by code_simp

lemma sample_creator_power:
  "state_of sample_creator_room (EventTypes_PowerLevels, []) = Some (sample_power RV_V12 [(''@m:h'', 50)])"
  by code_simp

theorem creators_cannot_be_removed_witness:
  "dget (ev_content sample_reinvite) ''membership'' \<notin> {Some Membership_LEAVE, Some Membership_BAN}"
proof (rule creators_cannot_be_removed[OF sample_reinvite_accepted, where target = "''@c:h''" and create = "sample_create RV_V12"])
  fix pl
  assume "state_of sample_creator_room (EventTypes_PowerLevels, []) = Some pl"
  then have "pl = sample_power RV_V12 [(''@m:h'', 50)]" using sample_creator_power by simp
  then show "canonical_levels (ev_content pl)" by (simp only:) code_simp
qed (code_simp+)

end
