(* ===== verification/Event_Auth_Rules.thy ===== *)
theory Event_Auth_Rules
  imports Event_Auth_Theorems
begin

text \<open>
  The remaining guarantees of the authorisation rules: which auth events decide the verdict, what
  the state-independent rules establish about the auth events, the send level, federation, size
  limits, redactions and third-party invites.
\<close>

section \<open>The auth events that matter\<close>

definition selected :: "auth_key list \<Rightarrow> EventBase \<Rightarrow> bool" where
  "selected ks e \<longleftrightarrow> (case ev_state_key e of None \<Rightarrow> False | Some k \<Rightarrow> (ev_type e, JStr k) \<in> set ks)"

lemma state_dict_selected:
  assumes "list_all is_state es" "agree_on ks m1 m2"
  shows "\<exists>d1 d2. state_dict es m1 = Inr d1 \<and> state_dict (filter (selected ks) es) m2 = Inr d2 \<and> agree_on ks d1 d2"
  using assms
proof (induction es arbitrary: m1 m2)
  case (Cons e es)
  then obtain k where k: "ev_state_key e = Some k" by (auto simp: is_state_iff)
  show ?case
  proof (cases "selected ks e")
    case True
    have "agree_on ks (m1((ev_type e, k) \<mapsto> e)) (m2((ev_type e, k) \<mapsto> e))"
      using Cons.prems(2) by (auto simp: agree_on_def)
    from Cons.IH[of "m1((ev_type e, k) \<mapsto> e)" "m2((ev_type e, k) \<mapsto> e)", OF _ this] Cons.prems(1) True k
    show ?thesis by (simp add: state_key_def del: fun_upd_apply)
  next
    case False
    then have "agree_on ks (m1((ev_type e, k) \<mapsto> e)) m2"
      using Cons.prems(2) k by (auto simp: agree_on_def selected_def)
    from Cons.IH[of "m1((ev_type e, k) \<mapsto> e)" m2, OF _ this] Cons.prems(1) False k
    show ?thesis by (simp add: state_key_def del: fun_upd_apply)
  qed
qed simp

text \<open>
  C20. The auth events selected by \<open>auth_types_for_event\<close> decide the verdict: checking an event
  against any list of state events gives the same result, the error included, as checking it
  against the selected ones only. For a power-levels event this needs the usual empty state key.
\<close>

theorem selected_auth_events_decide:
  assumes "auth_types_for_event (ev_room_version event) event = Inr ks"
    and "dget KNOWN_ROOM_VERSIONS version = Some (ev_room_version event)"
    and "ev_type event = EventTypes_PowerLevels \<Longrightarrow> ev_state_key event = Some []"
    and "list_all is_state es"
  shows "check_state_dependent_auth_rules env event (filter (selected ks) es)
       = check_state_dependent_auth_rules env event es"
proof (cases "ev_type event = EventTypes_Create")
  case False
  obtain d1 d2 where d: "state_dict es (\<lambda>_. None) = Inr d1"
    "state_dict (filter (selected ks) es) (\<lambda>_. None) = Inr d2" "agree_on ks d1 d2"
    using state_dict_selected[OF assms(4), of ks "\<lambda>_. None" "\<lambda>_. None"] by (auto simp: agree_on_def)
  from check_against_state_agree[OF assms(1) False _ d(3) known_version_coherent[OF assms(2)]] assms(3)
  show ?thesis by (simp add: check_state_dependent_auth_rules_def False d)
qed (simp add: check_state_dependent_auth_rules_def)

lemma sample_ban_types:
  "auth_types_for_event (ev_room_version (sample_ban RV_V10)) (sample_ban RV_V10)
     = Inr [(EventTypes_PowerLevels, JStr []), (EventTypes_Member, JStr ''@m:h''), (EventTypes_Create, JStr []),
            (EventTypes_Member, JStr ''@u:h'')]"
  by code_simp

theorem selected_auth_events_decide_witness:
  "check_state_dependent_auth_rules sample_env (sample_ban RV_V10) (filter (selected
       [(EventTypes_PowerLevels, JStr []), (EventTypes_Member, JStr ''@m:h''), (EventTypes_Create, JStr []),
        (EventTypes_Member, JStr ''@u:h'')]) (sample_restricted_room RV_V10))
   = check_state_dependent_auth_rules sample_env (sample_ban RV_V10) (sample_restricted_room RV_V10)"
proof (rule selected_auth_events_decide[OF sample_ban_types, where version = "''10''"])
  assume "ev_type (sample_ban RV_V10) = EventTypes_PowerLevels"
  then show "ev_state_key (sample_ban RV_V10) = Some []" by (simp add: sample_ban_def sample_event_def)
qed (code_simp+)

section \<open>The state-independent rules\<close>

definition auth_event_key :: "EventBase \<Rightarrow> StateKey" where
  "auth_event_key e = (ev_type e, case ev_state_key e of None \<Rightarrow> [] | Some k \<Rightarrow> k)"

definition proper_auth_event :: "string \<Rightarrow> auth_key list \<Rightarrow> EventBase \<Rightarrow> bool" where
  "proper_auth_event rid expected e \<longleftrightarrow> room_id e = Inr rid \<and> selected expected e
     \<and> ev_rejected_reason e \<in> {None, Some []}"

lemma check_auth_event_ok:
  assumes "check_auth_event rid expected lookup i d = Inr d'"
  obtains e where "lookup i = Some e" "proper_auth_event rid expected e"
    "dget d (auth_event_key e) = None" "d' = dset (auth_event_key e) i d"
proof -
  obtain e where "lookup i = Some e" using assms by (auto simp: check_auth_event_def split: option.splits)
  then show thesis using assms
    by (intro that[of e]) (auto simp: check_auth_event_def proper_auth_event_def selected_def auth_event_key_def
        Let_def dhas_def)
qed

lemma check_auth_events_ok:
  assumes "rfold (check_auth_event rid expected lookup) ids d = Inr d'"
  shows "(\<forall>i \<in> set ids. \<exists>e. lookup i = Some e \<and> proper_auth_event rid expected e
             \<and> dget d (auth_event_key e) = None)
    \<and> distinct (map (\<lambda>i. auth_event_key (the (lookup i))) ids)
    \<and> (\<forall>k i. dget d' k = Some i \<longrightarrow>
         dget d k = Some i \<or> (i \<in> set ids \<and> (\<exists>e. lookup i = Some e \<and> auth_event_key e = k)))"
  using assms
proof (induction ids arbitrary: d)
  case (Cons i ids)
  then obtain d1 where d1: "check_auth_event rid expected lookup i d = Inr d1"
    "rfold (check_auth_event rid expected lookup) ids d1 = Inr d'" by auto
  from d1(1) obtain e where e: "lookup i = Some e" "proper_auth_event rid expected e"
    "dget d (auth_event_key e) = None" "d1 = dset (auth_event_key e) i d" by (rule check_auth_event_ok)
  note IH = Cons.IH[OF d1(2)]
  from IH e have "\<forall>j \<in> set ids. \<exists>e'. lookup j = Some e' \<and> auth_event_key e' \<noteq> auth_event_key e
      \<and> proper_auth_event rid expected e' \<and> dget d (auth_event_key e') = None"
    by (fastforce split: if_splits)
  moreover from this have "auth_event_key e \<notin> (\<lambda>j. auth_event_key (the (lookup j))) ` set ids" by force
  moreover have "dget d k = Some j \<or> (j \<in> set (i # ids) \<and> (\<exists>e. lookup j = Some e \<and> auth_event_key e = k))"
    if "dget d' k = Some j" for k j
  proof -
    from IH that have "dget d1 k = Some j \<or> (j \<in> set ids \<and> (\<exists>e. lookup j = Some e \<and> auth_event_key e = k))"
      by blast
    then show ?thesis using e by (cases "k = auth_event_key e") auto
  qed
  ultimately show ?case using IH e by auto
qed simp

text \<open>
  C30. An event that passes the state-independent rules has only proper auth events: each one is
  known, is in the same room, is of a kind \<open>auth_types_for_event\<close> selects and was not rejected; no
  two of them are for the same state key; and one of them is the create event.
\<close>

theorem state_independent_auth_events:
  assumes "ok (check_state_independent_auth_rules env get_events event batched)"
    and "ev_type event \<noteq> EventTypes_Create"
  shows "\<exists>ids rid expected. auth_event_ids event = Inr ids \<and> room_id event = Inr rid
    \<and> auth_types_for_event (ev_room_version event) event = Inr expected
    \<and> (let lookup = lookup_auth_event get_events batched ids in
       (\<forall>i \<in> set ids. \<exists>e. lookup i = Some e \<and> proper_auth_event rid expected e)
       \<and> distinct (map (\<lambda>i. auth_event_key (the (lookup i))) ids)
       \<and> (\<exists>i \<in> set ids. \<exists>e. lookup i = Some e \<and> auth_event_key e = CREATE_KEY))"
proof -
  from assms obtain ids rid expected d where a: "auth_event_ids event = Inr ids" "room_id event = Inr rid"
    "auth_types_for_event (ev_room_version event) event = Inr expected"
    and f: "rfold (check_auth_event rid expected (lookup_auth_event get_events batched ids)) ids [] = Inr d"
    and c: "dget d CREATE_KEY \<noteq> None"
    by (auto simp: check_state_independent_auth_rules_def ok_iff)
  from check_auth_events_ok[OF f] c a show ?thesis by (force simp: Let_def)
qed

definition sample_store :: "string list \<Rightarrow> string \<Rightarrow> EventBase option" where
  "sample_store ids i = (if i = ''$c'' then Some (sample_create RV_V10)
     else if i = ''$m'' then Some (sample_member RV_V10 ''@m:h'' Membership_JOIN) else None)"

definition sample_message :: "RoomVersion \<Rightarrow> EventBase" where
  "sample_message rv = (sample_event rv ''m.room.message'' ''@m:h'' None [])\<lparr>ev_auth_events := [''$c'', ''$m'']\<rparr>"

theorem state_independent_auth_events_witness:
  "\<exists>ids rid expected. auth_event_ids (sample_message RV_V10) = Inr ids \<and> room_id (sample_message RV_V10) = Inr rid
    \<and> auth_types_for_event (ev_room_version (sample_message RV_V10)) (sample_message RV_V10) = Inr expected
    \<and> (let lookup = lookup_auth_event sample_store [] ids in
       (\<forall>i \<in> set ids. \<exists>e. lookup i = Some e \<and> proper_auth_event rid expected e)
       \<and> distinct (map (\<lambda>i. auth_event_key (the (lookup i))) ids)
       \<and> (\<exists>i \<in> set ids. \<exists>e. lookup i = Some e \<and> auth_event_key e = CREATE_KEY))"
  by (rule state_independent_auth_events[where env = sample_env and get_events = sample_store and batched = "[]"
        and event = "sample_message RV_V10"]; code_simp)

section \<open>Senders\<close>

text \<open>
  C38. Apart from create, membership, third-party-invite and old-style alias events, an accepted
  event comes from a joined user whose level reaches the level required for that kind of event, and
  a state key that is another user's identifier is only accepted where state keys may be owned and
  the sender's level is above the owner's.
\<close>

theorem event_needs_send_level:
  assumes "ok (check_state_dependent_auth_rules env event es)"
    and "ev_type event \<notin> {EventTypes_Create, EventTypes_Member, EventTypes_ThirdPartyInvite}"
    and "\<not> (ev_type event = EventTypes_Aliases \<and> special_case_aliases_auth (ev_room_version event))"
  shows "joined (state_of es) (ev_sender event) \<and>
    (\<exists>req ul. get_send_level (ev_type event) (ev_state_key event) (state_of es (EventTypes_PowerLevels, [])) = Inr req
       \<and> get_user_power_level (ev_sender event) (state_of es) = Inr ul \<and> req \<le> ul
       \<and> (\<forall>k. ev_state_key event = Some k \<and> starts_with ''@'' k \<and> k \<noteq> ev_sender event \<longrightarrow>
            (\<exists>owner. msc3757_enabled (ev_room_version event) \<and> state_key_owner env k = Inr owner
               \<and> (owner = ev_sender event
                  \<or> (\<exists>ol. get_user_power_level owner (state_of es) = Inr ol \<and> ol < ul)))))"
proof -
  obtain event' where c: "check_against_state env event (state_of es) = Inr event'"
    using assms(1,2) check_state_dependent_ok by (force simp: ok_iff)
  have j: "joined (state_of es) (ev_sender event)" and s: "can_send_event env event (state_of es) = Inr ()"
    by (rule check_against_state_ok[OF c]; use assms(2,3) in blast)+
  then show ?thesis
    unfolding can_send_event_def Let_def get_state_key_def get_power_level_event_def
    by (cases "ev_state_key event") (auto split: if_splits sum.splits)
qed

lemma sample_promotion_accepted:
  "ok (check_state_dependent_auth_rules sample_env (sample_promotion RV_V10) (sample_room RV_V10))"
  by code_simp

theorem event_needs_send_level_witness:
  "joined (state_of (sample_room RV_V10)) (ev_sender (sample_promotion RV_V10)) \<and>
    (\<exists>req ul. get_send_level (ev_type (sample_promotion RV_V10)) (ev_state_key (sample_promotion RV_V10))
          (state_of (sample_room RV_V10) (EventTypes_PowerLevels, [])) = Inr req
       \<and> get_user_power_level (ev_sender (sample_promotion RV_V10)) (state_of (sample_room RV_V10)) = Inr ul \<and> req \<le> ul
       \<and> (\<forall>k. ev_state_key (sample_promotion RV_V10) = Some k \<and> starts_with ''@'' k \<and> k \<noteq> ev_sender (sample_promotion RV_V10) \<longrightarrow>
            (\<exists>owner. msc3757_enabled (ev_room_version (sample_promotion RV_V10)) \<and> state_key_owner sample_env k = Inr owner
               \<and> (owner = ev_sender (sample_promotion RV_V10)
                  \<or> (\<exists>ol. get_user_power_level owner (state_of (sample_room RV_V10)) = Inr ol \<and> ol < ul)))))"
  by (rule event_needs_send_level[OF sample_promotion_accepted]; code_simp)

text \<open>
  In a room whose create event turns federation off, every accepted event comes from a user of
  the creator's server, and membership events (after the creator's first join) are about users of
  that server only.
\<close>

theorem unfederated_room_is_local:
  assumes "ok (check_state_dependent_auth_rules env event es)" and "ev_type event \<noteq> EventTypes_Create"
    and "state_of es CREATE_KEY = Some create"
    and "dget (ev_content create) F_FEDERATE = Some (JBool False)"
  shows "\<exists>server. get_domain_from_id (ev_sender create) = Inr server
    \<and> get_domain_from_id (ev_sender event) = Inr server
    \<and> (ev_type event = EventTypes_Member \<and> \<not> after_create (state_of es) event \<longrightarrow>
         (\<exists>target. ev_state_key event = Some target \<and> get_domain_from_id target = Inr server))"
proof -
  have nofed: "\<not> can_federate (state_of es)" using assms(3,4) by (simp add: can_federate_def dget_or_def)
  obtain event' where c: "check_against_state env event (state_of es) = Inr event'"
    using assms(1,2) check_state_dependent_ok by (force simp: ok_iff)
  obtain server where server: "get_domain_from_id (ev_sender create) = Inr server"
    "get_domain_from_id (ev_sender event) = Inr server"
    by (rule check_against_state_ok[OF c]) (use assms(3) nofed in auto)
  have "\<exists>target. ev_state_key event = Some target \<and> get_domain_from_id target = Inr server"
    if m: "ev_type event = EventTypes_Member" "\<not> after_create (state_of es) event"
  proof -
    note allowed = accepted_member[OF assms(1) m(1)]
    then obtain ms where ms: "dget (ev_content event) ''membership'' = Some ms"
      by (auto simp: is_membership_change_allowed_def)
    show ?thesis
    proof (rule membership_change_cases[OF allowed ms], goal_cases)
      case 1 then show ?case using creator_joining_after_create m(2) by blast
    next
      case (2 f)
      from 2(2) show ?case using nofed server assms(3)
        by (auto simp: gather_membership_facts_def split: if_splits)
    qed
  qed
  with server show ?thesis by blast
qed

definition sample_unfederated_room :: "EventBase list" where
  "sample_unfederated_room = [(sample_create RV_V10)\<lparr>ev_content := [(''creator'', JStr ''@c:h''), (F_FEDERATE, JBool False)]\<rparr>,
     sample_member RV_V10 ''@c:h'' Membership_JOIN]"

definition sample_invite :: "EventBase" where
  "sample_invite = sample_event RV_V10 EventTypes_Member ''@c:h'' (Some ''@u:h'') [(''membership'', Membership_INVITE)]"

lemma sample_invite_accepted: "ok (check_state_dependent_auth_rules sample_env sample_invite sample_unfederated_room)"
  by code_simp

theorem unfederated_room_is_local_witness:
  "\<exists>server. get_domain_from_id (ev_sender (hd sample_unfederated_room)) = Inr server
    \<and> get_domain_from_id (ev_sender sample_invite) = Inr server
    \<and> (ev_type sample_invite = EventTypes_Member \<and> \<not> after_create (state_of sample_unfederated_room) sample_invite \<longrightarrow>
         (\<exists>target. ev_state_key sample_invite = Some target \<and> get_domain_from_id target = Inr server))"
  by (rule unfederated_room_is_local[OF sample_invite_accepted]; code_simp)

section \<open>Size limits\<close>

definition limited_fields :: "EventBase \<Rightarrow> string \<Rightarrow> string list" where
  "limited_fields event rid = [ev_sender event, rid, ev_type event, ev_event_id event]
     @ (case ev_state_key event of None \<Rightarrow> [] | Some k \<Rightarrow> [k])"

lemma check_field_sizes_ok:
  "check_field_sizes len b event rid = Inr () \<longleftrightarrow> list_all (\<lambda>s. len s \<le> 255) (limited_fields event rid)"
  by (auto simp: check_field_sizes_def limited_fields_def too_long_def get_state_key_def split: option.splits)

lemma check_field_sizes_error:
  "check_field_sizes len b event rid = Inl e \<Longrightarrow> \<exists>msg. e = EventSizeError msg b"
  by (auto simp: check_field_sizes_def rbind_eq_Inl raise_if_def split: if_splits)

lemma check_field_sizes_cases:
  "check_field_sizes len b event rid = Inr () \<or> (\<exists>msg. check_field_sizes len b event rid = Inl (EventSizeError msg b))"
  using check_field_sizes_error by (cases "check_field_sizes len b event rid") auto

text \<open>
  C40. The size check accepts exactly the events whose JSON is at most 65536 bytes and whose
  sender, room, type, event and state-key strings are at most 255 bytes each; and it marks the
  rejection as persistable exactly for the lenient room versions when every string is within 255
  code points, so only the byte limit is broken.
\<close>

theorem size_limits_exact:
  "(check_size_limits env event = Inr () \<longleftrightarrow> pdu_json_size env event \<le> 65536 \<and>
      (\<exists>rid. room_id event = Inr rid \<and> list_all (\<lambda>s. utf8_length s \<le> 255) (limited_fields event rid)))
   \<and> ((\<exists>msg. check_size_limits env event = Inl (EventSizeError msg False)) \<longleftrightarrow>
      pdu_json_size env event \<le> 65536 \<and> ev_room_version event \<in> set LENIENT_EVENT_BYTE_LIMITS_ROOM_VERSIONS \<and>
      (\<exists>rid. room_id event = Inr rid \<and> list_all (\<lambda>s. length s \<le> 255) (limited_fields event rid)
         \<and> \<not> list_all (\<lambda>s. utf8_length s \<le> 255) (limited_fields event rid)))"
proof (cases "room_id event")
  case (Inl e)
  have "e \<noteq> EventSizeError msg b" for msg b
    using Inl by (auto simp: room_id_def split: if_splits option.splits)
  then show ?thesis using Inl by (auto simp: check_size_limits_def raise_if_def)
next
  case (Inr rid)
  have bytes: "list_all (\<lambda>s. length s \<le> 255) xs" if "list_all (\<lambda>s. utf8_length s \<le> 255) xs" for xs
    using that length_le_utf8_length by (fastforce simp: list_all_iff intro: order_trans)
  consider "MAX_PDU_SIZE < pdu_json_size env event"
    | "pdu_json_size env event \<le> MAX_PDU_SIZE" "\<not> list_all (\<lambda>s. length s \<le> 255) (limited_fields event rid)"
    | "pdu_json_size env event \<le> MAX_PDU_SIZE" "list_all (\<lambda>s. length s \<le> 255) (limited_fields event rid)"
    by linarith
  then show ?thesis
  proof cases
    case 1 then show ?thesis by (simp add: check_size_limits_def MAX_PDU_SIZE_def)
  next
    case 2
    then obtain msg where "check_field_sizes length True event rid = Inl (EventSizeError msg True)"
      using check_field_sizes_ok check_field_sizes_cases by blast
    then show ?thesis using 2 Inr bytes by (auto simp: check_size_limits_def)
  next
    case 3
    let ?strict = "ev_room_version event \<notin> set LENIENT_EVENT_BYTE_LIMITS_ROOM_VERSIONS"
    from 3 have "check_field_sizes length True event rid = Inr ()" by (simp add: check_field_sizes_ok)
    with 3 Inr have eq: "check_size_limits env event = check_field_sizes utf8_length ?strict event rid"
      by (simp add: check_size_limits_def)
    show ?thesis
      using 3 Inr check_field_sizes_ok[of utf8_length ?strict event rid]
        check_field_sizes_cases[of utf8_length ?strict event rid]
      unfolding eq by (auto simp: MAX_PDU_SIZE_def)
  qed
qed

section \<open>Third-party invites\<close>

lemma try_signatures_verified:
  "try_signatures env signed pk blocks = Inr True \<Longrightarrow>
     \<exists>server key. server \<in> fst ` set blocks \<and> starts_with ''ed25519:'' key \<and> verify_3pid env signed server key pk = Inr ()"
proof (induction blocks)
  case (Cons b blocks)
  obtain server block where b: "b = (server, block)" by (cases b)
  show ?case
  proof (cases "json_items block")
    case (Inr items)
    then show ?thesis using Cons b
      by (cases "find (starts_with ''ed25519:'') (dkeys items)") (auto simp: find_Some_iff)
  qed (use Cons b in simp)
qed simp

lemma try_public_keys_verified:
  "try_public_keys env signed sigs keys = Inr True \<Longrightarrow>
     \<exists>obj \<in> set keys. \<exists>pk server key. json_sub obj ''public_key'' = Inr pk \<and> starts_with ''ed25519:'' key
       \<and> verify_3pid env signed server key pk = Inr ()"
proof (induction keys)
  case (Cons obj keys)
  then obtain pk where pk: "json_sub obj ''public_key'' = Inr pk" by auto
  let ?r = "rbind (json_items sigs) (try_signatures env signed pk)"
  show ?case
  proof (cases "?r = Inr True")
    case True
    then show ?thesis using pk by (auto dest!: try_signatures_verified)
  next
    case False
    then have "try_public_keys env signed sigs keys = Inr True"
      using Cons.prems pk by (cases ?r) (auto split: if_splits bool.splits)
    with Cons.IH show ?thesis by auto
  qed
qed simp

text \<open>
  C39. An accepted invite that claims a third-party invite is backed by one: the state holds the
  third-party invite event the token names, from the same sender; the signed block is for the
  invited user; one of the public keys of that event verifies the signature on it; and the invited
  user is not banned.
\<close>

theorem third_party_invite_is_signed:
  assumes "ok (check_state_dependent_auth_rules env event es)" "ev_type event = EventTypes_Member"
    and "dget (ev_content event) ''membership'' = Some Membership_INVITE"
    and "dhas (ev_content event) ''third_party_invite''"
  shows "\<exists>signed target token invite keys. third_party_signed event = Some (signed, JStr target, JStr token, the (dget signed ''signatures''))
    \<and> ev_state_key event = Some target \<and> \<not> banned (state_of es) target
    \<and> state_of es (EventTypes_ThirdPartyInvite, token) = Some invite \<and> ev_sender invite = ev_sender event
    \<and> get_public_keys invite = Inr keys
    \<and> (\<exists>obj \<in> set keys. \<exists>pk server key. json_sub obj ''public_key'' = Inr pk
         \<and> verify_3pid env (JDict signed) server key pk = Inr ())"
proof (rule membership_change_cases[OF accepted_member[OF assms(1,2)] assms(3)], goal_cases)
  case 1
  then show ?case using creator_joining_true by fastforce
next
  case (2 f)
  from 2(3) assms(4) have v: "verify_third_party_invite env event (state_of es) = Inr True"
    and nb: "mf_target_membership f \<noteq> Some Membership_BAN" by auto
  have g: "ev_state_key event = Some (mf_target f)"
    "membership_of (state_of es (EventTypes_Member, mf_target f)) = Inr (mf_target_membership f)"
    by (rule gather_ok[OF 2(2)], assumption)+
  from v obtain signed mxid token sigs where t: "third_party_signed event = Some (signed, mxid, token, sigs)"
    by (auto simp: verify_third_party_invite_def split: option.splits)
  then have "sigs = the (dget signed ''signatures'')" by (auto elim: third_party_signed_ok)
  moreover from v t obtain invite where i: "state_get (state_of es) EventTypes_ThirdPartyInvite token = Inr (Some invite)"
    "ev_sender invite = ev_sender event" "mxid = JStr (mf_target f)"
    "rbind (get_public_keys invite) (try_public_keys env (JDict signed) sigs) = Inr True"
    using g(1) by (auto simp: verify_third_party_invite_def split: option.splits if_splits)
  moreover from i(1) obtain tok where "token = JStr tok" "state_of es (EventTypes_ThirdPartyInvite, tok) = Some invite"
    by (cases token) (auto split: if_splits)
  moreover have "\<not> banned (state_of es) (mf_target f)"
    using facts_joined(2)[of "state_of es" "mf_target f", OF g(2)] nb by blast
  ultimately show ?case using t g(1) by (fastforce dest!: try_public_keys_verified)
qed

definition sample_3pid_room :: "EventBase list" where
  "sample_3pid_room = sample_room RV_V10 @ [sample_event RV_V10 EventTypes_ThirdPartyInvite ''@m:h'' (Some ''tok'')
     [(''public_keys'', JList [JDict [(''public_key'', JStr ''key'')]])]]"

definition sample_3pid_signed :: json_dict where
  "sample_3pid_signed = [(''mxid'', JStr ''@v:h''), (''token'', JStr ''tok''),
     (''signatures'', JDict [(''id'', JDict [(''ed25519:0'', JStr ''sig'')])])]"

definition sample_3pid_invite :: EventBase where
  "sample_3pid_invite = sample_event RV_V10 EventTypes_Member ''@m:h'' (Some ''@v:h'')
     [(''membership'', Membership_INVITE), (''third_party_invite'', JDict [(''signed'', JDict sample_3pid_signed)])]"

lemma sample_3pid_invite_accepted:
  "ok (check_state_dependent_auth_rules sample_env sample_3pid_invite sample_3pid_room)"
  by code_simp

theorem third_party_invite_is_signed_witness:
  "\<exists>signed target token invite keys. third_party_signed sample_3pid_invite
        = Some (signed, JStr target, JStr token, the (dget signed ''signatures''))
    \<and> ev_state_key sample_3pid_invite = Some target \<and> \<not> banned (state_of sample_3pid_room) target
    \<and> state_of sample_3pid_room (EventTypes_ThirdPartyInvite, token) = Some invite
    \<and> ev_sender invite = ev_sender sample_3pid_invite
    \<and> get_public_keys invite = Inr keys
    \<and> (\<exists>obj \<in> set keys. \<exists>pk server key. json_sub obj ''public_key'' = Inr pk
         \<and> verify_3pid sample_env (JDict signed) server key pk = Inr ())"
  by (rule third_party_invite_is_signed[OF sample_3pid_invite_accepted]; code_simp)

section \<open>Redactions\<close>

text \<open>
  An accepted redaction comes from a user with the redaction level, or is only provisionally
  accepted: in the first event format the redacted event is on the redacting server (or the
  redaction names no event), and in the later ones the returned event carries the mark that makes
  the server check the sender of the redacted event later.
\<close>

theorem redaction_needs_level_or_recheck:
  assumes "check_state_dependent_auth_rules env event es = Inr event'" "ev_type event = EventTypes_Redaction"
  shows "\<exists>ul rl. get_user_power_level (ev_sender event) (state_of es) = Inr ul
    \<and> get_named_level (state_of es) ''redact'' 50 = Inr rl
    \<and> (rl \<le> ul
       \<or> (if event_format (ev_room_version event) = ROOM_V1_V2
          then (\<forall>r. redacts event = Some (JStr r) \<longrightarrow> get_domain_from_id r = get_domain_from_id (ev_event_id event))
          else event' = event\<lparr>ev_recheck_redaction := True\<rparr>))"
proof -
  obtain b where "check_redaction (ev_room_version event) event (state_of es) = Inr (b, event')"
    by (rule check_against_state_ok[OF check_state_dependent_ok[OF assms(1)]]) (use assms(2) in auto)
  then show ?thesis
    unfolding check_redaction_def by (cases "redacts event") (auto split: if_splits json.splits)
qed

definition sample_redaction :: EventBase where
  "sample_redaction = sample_event RV_V10 EventTypes_Redaction ''@u:h'' None []"

theorem redaction_needs_level_or_recheck_witness:
  "\<exists>ul rl. get_user_power_level (ev_sender sample_redaction) (state_of (sample_room RV_V10)) = Inr ul
    \<and> get_named_level (state_of (sample_room RV_V10)) ''redact'' 50 = Inr rl
    \<and> (rl \<le> ul
       \<or> (if event_format (ev_room_version sample_redaction) = ROOM_V1_V2
          then (\<forall>r. redacts sample_redaction = Some (JStr r) \<longrightarrow> get_domain_from_id r = get_domain_from_id (ev_event_id sample_redaction))
          else sample_redaction\<lparr>ev_recheck_redaction := True\<rparr> = sample_redaction\<lparr>ev_recheck_redaction := True\<rparr>))"
  by (rule redaction_needs_level_or_recheck[where env = sample_env]; code_simp)

end
