(* ===== verification/Topological_Sort.thy ===== *)
theory Topological_Sort
  imports Prelude "HOL-Library.While_Combinator" "HOL-Library.Multiset"
begin

text \<open>
  The lexicographic reverse topological sort of \<open>state/v2.py\<close>: Kahn's algorithm on the nodes
  without outgoing edges, with a heap that yields the smallest \<open>(key(node), node)\<close> first. A graph
  is a dictionary from nodes to the list of the distinct nodes they refer to; Python's sets are
  such lists, and the result is shown not to depend on their order.
\<close>

section \<open>The heap\<close>

text \<open>
  \<open>heapq\<close> promises that \<open>heappop\<close> removes a smallest element. The model keeps the heap as a sorted
  list; the laws of the interface are all the sort relies on.
\<close>

definition heapify :: "'a::linorder list \<Rightarrow> 'a list" where
  "heapify xs = sort xs"

definition heappush :: "'a::linorder \<Rightarrow> 'a list \<Rightarrow> 'a list" where
  "heappush x h = insort x h"

definition heappop :: "'a::linorder list \<Rightarrow> ('a \<times> 'a list) option" where
  "heappop h = (case h of [] \<Rightarrow> None | x # h' \<Rightarrow> Some (x, h'))"

locale heap_queue =
  fixes heap_inv :: "'h \<Rightarrow> bool" and elems :: "'h \<Rightarrow> 'a::linorder multiset"
    and push :: "'a \<Rightarrow> 'h \<Rightarrow> 'h" and pop :: "'h \<Rightarrow> ('a \<times> 'h) option"
  assumes push_inv: "heap_inv h \<Longrightarrow> heap_inv (push x h)"
    and push_elems: "heap_inv h \<Longrightarrow> elems (push x h) = add_mset x (elems h)"
    and pop_None: "heap_inv h \<Longrightarrow> pop h = None \<longleftrightarrow> elems h = {#}"
    and pop_Some: "heap_inv h \<Longrightarrow> pop h = Some (x, h') \<Longrightarrow>
       heap_inv h' \<and> elems h = add_mset x (elems h') \<and> (\<forall>y \<in># elems h. x \<le> y)"
begin

lemma pop_least: "heap_inv h \<Longrightarrow> pop h = Some (x, h') \<Longrightarrow> y \<in># elems h \<Longrightarrow> x \<le> y"
  using pop_Some by blast

lemma pop_nonempty: "heap_inv h \<Longrightarrow> elems h \<noteq> {#} \<Longrightarrow> \<exists>x h'. pop h = Some (x, h')"
  using pop_None by (cases "pop h") auto

lemma fold_push:
  "heap_inv h \<Longrightarrow> heap_inv (fold push xs h) \<and> elems (fold push xs h) = mset xs + elems h"
  by (induction xs arbitrary: h) (auto simp: push_inv push_elems)

end

interpretation sorted_heap: heap_queue sorted mset heappush heappop
proof
  fix h :: "'a list" and x h'
  show "heappop h = Some (x, h') \<Longrightarrow> sorted h' \<and> mset h = add_mset x (mset h') \<and> (\<forall>y \<in># mset h. x \<le> y)"
    if "sorted h" using that by (cases h) (auto simp: heappop_def)
qed (auto simp: heappush_def heappop_def sorted_insort split: list.splits)

lemma heapify_laws: "sorted (heapify xs)" "mset (heapify xs) = mset xs"
  by (simp_all add: heapify_def)

section \<open>The sort\<close>

type_synonym 'a graph = "('a, 'a list) dict"

definition nodes :: "'a graph \<Rightarrow> 'a set" where
  "nodes g = set (dkeys g)"

definition edges :: "'a graph \<Rightarrow> 'a \<Rightarrow> 'a set" where
  "edges g n = set (dget_or g n [])"

definition wf_graph :: "'a graph \<Rightarrow> bool" where
  "wf_graph g \<longleftrightarrow> wf_dict g \<and> list_all (\<lambda>(n, es). distinct es) g"

text \<open>\<open>reverse_graph.setdefault(edge, set()).add(node)\<close>.\<close>

definition add_edge :: "'a \<Rightarrow> 'a \<Rightarrow> 'a graph \<Rightarrow> 'a graph" where
  "add_edge n m g = dset n (List.insert m (dget_or g n [])) g"

definition add_node :: "'a \<Rightarrow> 'a graph \<Rightarrow> 'a graph" where
  "add_node n g = (if dhas g n then g else dset n [] g)"

definition reverse_graph :: "'a graph \<Rightarrow> 'a graph" where
  "reverse_graph g = fold (\<lambda>(node, es) r. fold (\<lambda>edge. add_edge edge node) es (add_node node r)) g []"

definition initial_zero_outdegree :: "'a graph \<Rightarrow> ('a \<Rightarrow> 'k) \<Rightarrow> ('k \<times> 'a) list" where
  "initial_zero_outdegree g key = map (\<lambda>(node, es). (key node, node)) (filter (\<lambda>(node, es). es = []) g)"

text \<open>
  One parent of the popped node: the edge is discarded, and a parent left without edges is pushed.
  Both subscripts of the code are keys of their dictionaries, because the reverse graph is built
  from the graph.
\<close>

definition visit_parent ::
    "('a::linorder \<Rightarrow> 'k::linorder) \<Rightarrow> 'a \<Rightarrow> 'a \<Rightarrow> ('k \<times> 'a) list \<times> 'a graph \<Rightarrow> ('k \<times> 'a) list \<times> 'a graph" where
  "visit_parent key node parent = (\<lambda>(zero_outdegree, outdegree_map).
     let out = remove1 node (dget_or outdegree_map parent []) in
     (if out = [] then heappush (key parent, parent) zero_outdegree else zero_outdegree,
      dset parent out outdegree_map))"

type_synonym ('a, 'k) sort_state = "('k \<times> 'a) list \<times> 'a graph \<times> 'a list"

definition sort_step ::
    "('a::linorder \<Rightarrow> 'k::linorder) \<Rightarrow> 'a graph \<Rightarrow> ('a, 'k) sort_state \<Rightarrow> ('a, 'k) sort_state" where
  "sort_step key rev_graph = (\<lambda>(zero_outdegree, outdegree_map, yielded).
     case heappop zero_outdegree of
       None \<Rightarrow> (zero_outdegree, outdegree_map, yielded)
     | Some ((_, node), rest) \<Rightarrow>
         (let (zero', out') = fold (visit_parent key node) (dget_or rev_graph node []) (rest, outdegree_map)
          in (zero', out', yielded @ [node])))"

definition lexicographical_topological_sort ::
    "'a::linorder graph \<Rightarrow> ('a \<Rightarrow> 'k::linorder) \<Rightarrow> 'a list option" where
  "lexicographical_topological_sort g key =
     map_option (\<lambda>(_, _, yielded). yielded)
       (while_option (\<lambda>(zero_outdegree, _, _). zero_outdegree \<noteq> []) (sort_step key (reverse_graph g))
          (heapify (initial_zero_outdegree g key), g, []))"

section \<open>The specification\<close>

text \<open>
  A node is available once everything it refers to has been yielded; the specification yields the
  least available node until none is left.
\<close>

definition available :: "'a graph \<Rightarrow> 'a set \<Rightarrow> 'a set" where
  "available g S = {n \<in> nodes g. n \<notin> S \<and> edges g n \<subseteq> S}"

fun greedy :: "'a::linorder graph \<Rightarrow> ('a \<Rightarrow> 'k::linorder) \<Rightarrow> 'a set \<Rightarrow> 'a list \<Rightarrow> bool" where
  "greedy g key S [] \<longleftrightarrow> available g S = {}"
| "greedy g key S (n # ns) \<longleftrightarrow> n \<in> available g S \<and> (\<forall>m \<in> available g S. (key n, n) \<le> (key m, m))
     \<and> greedy g key (insert n S) ns"

lemma greedy_unique: "greedy g key S xs \<Longrightarrow> greedy g key S ys \<Longrightarrow> xs = ys"
proof (induction xs arbitrary: S ys)
  case Nil
  then show ?case by (cases ys) auto
next
  case (Cons x xs)
  then obtain y ys' where ys: "ys = y # ys'" by (cases ys) auto
  with Cons.prems have "(key x, x) = (key y, y)" by (intro antisym) auto
  with Cons ys show ?case by auto
qed

lemma greedy_cong:
  assumes "nodes g = nodes g'" "edges g = edges g'"
  shows "greedy g key S xs = greedy g' key S xs"
  using assms by (induction xs arbitrary: S) (auto simp: available_def)

lemma greedy_distinct: "greedy g key S xs \<Longrightarrow> distinct xs \<and> set xs \<inter> S = {} \<and> set xs \<subseteq> nodes g"
  by (induction xs arbitrary: S) (auto simp: available_def)

lemma greedy_topological:
  "greedy g key S xs \<Longrightarrow> xs = as @ n # bs \<Longrightarrow> edges g n \<subseteq> S \<union> set as"
  by (induction as arbitrary: S xs) (auto simp: available_def)

lemma greedy_least:
  "greedy g key S (as @ n # bs) \<Longrightarrow> m \<in> available g (S \<union> set as) \<Longrightarrow> (key n, n) \<le> (key m, m)"
proof (induction as arbitrary: S)
  case (Cons a as)
  then show ?case using Cons.IH[of "insert a S"] by simp
qed simp

text \<open>Nothing is left out when no infinite chain of references runs through the rest.\<close>

lemma greedy_exhausts: "greedy g key S xs \<Longrightarrow> available g (S \<union> set xs) = {}"
proof (induction xs arbitrary: S)
  case (Cons x xs)
  then have "greedy g key (insert x S) xs" by simp
  from Cons.IH[OF this] show ?case by simp
qed simp

lemma greedy_complete:
  assumes "greedy g key {} xs" "wf {(m, n). n \<in> nodes g \<and> m \<in> edges g n}"
    and "\<And>n. n \<in> nodes g \<Longrightarrow> edges g n \<subseteq> nodes g"
  shows "set xs = nodes g"
proof
  show "set xs \<subseteq> nodes g" using greedy_distinct[OF assms(1)] by simp
  have "n \<in> set xs" if "n \<in> nodes g" for n
    using assms(2) that
  proof (induction n rule: wf_induct_rule)
    case (less n)
    have "n \<in> available g (set xs)" if "n \<notin> set xs"
      using less assms(3) that by (force simp: available_def)
    with greedy_exhausts[OF assms(1)] show ?case by auto
  qed
  then show "nodes g \<subseteq> set xs" by blast
qed

section \<open>The reverse graph\<close>

lemma edges_add_edge [simp]: "edges (add_edge n m g) x = (if x = n then insert m (edges g n) else edges g x)"
  by (simp add: edges_def add_edge_def)

lemma edges_add_node [simp]: "edges (add_node n g) x = edges g x"
  by (simp add: edges_def add_node_def)

lemma edges_fold_add_edge:
  "edges (fold (\<lambda>e. add_edge e n) es r) x = edges r x \<union> (if x \<in> set es then {n} else {})"
  by (induction es arbitrary: r) auto

lemma edges_reverse_fold:
  "edges (fold (\<lambda>(n, es) r. fold (\<lambda>e. add_edge e n) es (add_node n r)) g r) x
     = edges r x \<union> {n. \<exists>es. (n, es) \<in> set g \<and> x \<in> set es}"
  by (induction g arbitrary: r) (auto simp: edges_fold_add_edge split: if_splits)

lemma edges_empty [simp]: "edges [] x = {}"
  by (simp add: edges_def)

lemma edges_reverse_graph: "wf_graph g \<Longrightarrow> edges (reverse_graph g) x = {n. x \<in> edges g n}"
  unfolding reverse_graph_def edges_reverse_fold
  by (auto simp: wf_graph_def in_dict_iff edges_def dget_or_def split: option.splits) (metis option.exhaust)

definition distinct_edges :: "'a graph \<Rightarrow> bool" where
  "distinct_edges g \<longleftrightarrow> (\<forall>n. distinct (dget_or g n []))"

lemma distinct_add_edge: "distinct_edges g \<Longrightarrow> distinct_edges (add_edge n m g)"
  by (simp add: distinct_edges_def add_edge_def)

lemma distinct_add_node: "distinct_edges g \<Longrightarrow> distinct_edges (add_node n g)"
  by (simp add: distinct_edges_def add_node_def)

lemma distinct_reverse_graph: "distinct_edges (reverse_graph g)"
proof -
  have inner: "distinct_edges (fold (\<lambda>e. add_edge e n) es r)" if "distinct_edges r" for n :: 'a and es r
    using that by (induction es arbitrary: r) (auto simp: distinct_add_edge)
  have "distinct_edges (fold (\<lambda>(n, es) r. fold (\<lambda>e. add_edge e n) es (add_node n r)) g r)"
    if "distinct_edges r" for r
    using that by (induction g arbitrary: r) (auto simp: inner distinct_add_node)
  then show ?thesis by (simp add: reverse_graph_def distinct_edges_def dget_or_def)
qed

lemma wf_graph_distinct_edges: "wf_graph g \<Longrightarrow> distinct_edges g"
  by (auto simp: wf_graph_def distinct_edges_def dget_or_def list_all_iff split: option.splits dest: dget_in)

section \<open>Correctness of the loop\<close>

lemma visit_parent_apply:
  "visit_parent key node q (h, out) =
     (if remove1 node (dget_or out q []) = [] then heappush (key q, q) h else h,
      dset q (remove1 node (dget_or out q [])) out)"
  by (simp add: visit_parent_def Let_def)

lemma visit_parents:
  assumes "distinct ps" "sorted h"
    and "fold (visit_parent key node) ps (h, out) = (h', out')"
  shows "sorted h' \<and> mset h' = mset h + image_mset (\<lambda>p. (key p, p))
           (mset (filter (\<lambda>p. remove1 node (dget_or out p []) = []) ps))
    \<and> (\<forall>p. dget_or out' p [] = (if p \<in> set ps then remove1 node (dget_or out p []) else dget_or out p []))"
  using assms
proof (induction ps arbitrary: h out)
  case (Cons q ps)
  let ?o = "remove1 node (dget_or out q [])"
  let ?h = "if ?o = [] then heappush (key q, q) h else h"
  have rec: "distinct ps" "sorted ?h" "fold (visit_parent key node) ps (?h, dset q ?o out) = (h', out')"
    using Cons.prems by (auto simp: visit_parent_apply sorted_heap.push_inv)
  have "mset ?h = mset h + (if ?o = [] then {#(key q, q)#} else {#})"
    using Cons.prems(2) by (simp add: sorted_heap.push_elems)
  moreover have "filter (\<lambda>p. remove1 node (dget_or (dset q ?o out) p []) = []) ps
      = filter (\<lambda>p. remove1 node (dget_or out p []) = []) ps"
    using Cons.prems(1) by (intro filter_cong) auto
  ultimately show ?case
    using Cons.IH[OF rec] Cons.prems(1) by (auto)
qed simp

definition sort_inv :: "'a::linorder graph \<Rightarrow> ('a \<Rightarrow> 'k::linorder) \<Rightarrow> ('a, 'k) sort_state \<Rightarrow> bool" where
  "sort_inv g key = (\<lambda>(h, out, ys).
     sorted h \<and> mset h = image_mset (\<lambda>n. (key n, n)) (mset_set (available g (set ys)))
   \<and> distinct_edges out \<and> (\<forall>p. edges out p = edges g p - set ys)
   \<and> distinct ys \<and> set ys \<subseteq> nodes g \<and> (\<forall>y \<in> set ys. edges g y \<subseteq> set ys)
   \<and> (\<forall>zs. greedy g key (set ys) zs \<longrightarrow> greedy g key {} (ys @ zs)))"

lemma finite_available [simp]: "finite (available g S)"
  by (simp add: available_def nodes_def)

lemma available_insert:
  assumes "n \<in> available g S" "\<forall>y \<in> S. edges g y \<subseteq> S"
  shows "available g (insert n S) = (available g S - {n}) \<union> {p \<in> nodes g. n \<in> edges g p \<and> edges g p \<subseteq> insert n S}"
    and "(available g S - {n}) \<inter> {p \<in> nodes g. n \<in> edges g p \<and> edges g p \<subseteq> insert n S} = {}"
  using assms by (auto simp: available_def)

lemma remove1_empty_iff: "distinct xs \<Longrightarrow> remove1 x xs = [] \<longleftrightarrow> set xs \<subseteq> {x}"
  by (metis set_empty set_remove1_eq Diff_eq_empty_iff)

lemma edges_nodes: "x \<in> edges g n \<Longrightarrow> n \<in> nodes g"
  by (metis dget_or_absent dhas_iff edges_def empty_iff empty_set nodes_def)

lemma sort_inv_step:
  assumes g: "wf_graph g" and inv: "sort_inv g key (h, out, ys)" and ne: "h \<noteq> []"
    and st: "sort_step key (reverse_graph g) (h, out, ys) = (h', out', ys')"
  shows "sort_inv g key (h', out', ys')" "ys' = ys @ [last ys']" "last ys' \<in> nodes g - set ys"
proof -
  let ?S = "set ys"
  have i: "sorted h" "mset h = image_mset (\<lambda>n. (key n, n)) (mset_set (available g ?S))"
    "distinct_edges out" "\<And>p. edges out p = edges g p - ?S" "distinct ys" "?S \<subseteq> nodes g"
    "\<forall>y \<in> ?S. edges g y \<subseteq> ?S" "\<And>zs. greedy g key ?S zs \<Longrightarrow> greedy g key {} (ys @ zs)"
    using inv unfolding sort_inv_def prod.case by blast+
  obtain x rest where pop: "heappop h = Some (x, rest)"
    using sorted_heap.pop_nonempty[OF i(1)] ne by auto
  have x: "sorted rest" "mset h = add_mset x (mset rest)" "\<forall>y \<in># mset h. x \<le> y"
    using sorted_heap.pop_Some[OF i(1) pop] by blast+
  then have "x \<in># image_mset (\<lambda>n. (key n, n)) (mset_set (available g ?S))" using i(2) by simp
  then obtain n where n: "x = (key n, n)" "n \<in> available g ?S" by auto
  have rest: "mset rest = image_mset (\<lambda>n. (key n, n)) (mset_set (available g ?S - {n}))"
    using x(2) i(2) n mset_set.remove[of "available g ?S" n] by simp
  let ?ps = "dget_or (reverse_graph g) n []"
  have ps: "distinct ?ps" "set ?ps = {p. n \<in> edges g p}"
    using distinct_reverse_graph[of g] edges_reverse_graph[OF g, of n] by (simp_all add: distinct_edges_def edges_def)
  obtain h1 out1 where fold: "fold (visit_parent key n) ?ps (rest, out) = (h1, out1)" by fastforce
  note vp = visit_parents[OF ps(1) x(1) fold]
  have st': "h' = h1" "out' = out1" "ys' = ys @ [n]"
    using st pop n(1) fold by (simp_all add: sort_step_def)
  have "remove1 n (dget_or out p []) = [] \<longleftrightarrow> edges g p \<subseteq> insert n ?S" for p
    using i(3) i(4)[of p] by (auto simp: remove1_empty_iff distinct_edges_def edges_def)
  then have "set (filter (\<lambda>p. remove1 n (dget_or out p []) = []) ?ps)
      = {p \<in> nodes g. n \<in> edges g p \<and> edges g p \<subseteq> insert n ?S}"
    using ps(2) edges_nodes by fastforce
  then have pushed: "mset (filter (\<lambda>p. remove1 n (dget_or out p []) = []) ?ps)
      = mset_set {p \<in> nodes g. n \<in> edges g p \<and> edges g p \<subseteq> insert n ?S}"
    using ps(1) mset_set_set[of "filter (\<lambda>p. remove1 n (dget_or out p []) = []) ?ps"] by simp
  have "mset h' = image_mset (\<lambda>n. (key n, n)) (mset_set (available g (insert n ?S)))"
    unfolding available_insert(1)[OF n(2) i(7)]
    using vp rest pushed available_insert(2)[OF n(2) i(7)]
    by (subst mset_set_Union) (auto simp: st' nodes_def)
  moreover have "distinct_edges out'" "edges out' p = edges g p - insert n ?S" for p
    using vp i(3,4) ps(2) by (auto simp: st' distinct_edges_def edges_def)
  moreover have "\<forall>m \<in> available g ?S. (key n, n) \<le> (key m, m)"
    using x(3) unfolding i(2) n(1) by simp
  then have "greedy g key {} (ys @ n # zs)" if "greedy g key (insert n ?S) zs" for zs
    using that n(2) i(8)[of "n # zs"] by simp
  moreover have "edges g n \<subseteq> ?S" "n \<in> nodes g" "n \<notin> ?S" using n(2) by (auto simp: available_def)
  ultimately show "sort_inv g key (h', out', ys')"
    using vp i(5-7) unfolding sort_inv_def st' by auto
  show "ys' = ys @ [last ys']" "last ys' \<in> nodes g - set ys" using st' n by (auto simp: available_def)
qed

lemma initial_available:
  assumes "wf_graph g"
  shows "mset (initial_zero_outdegree g key) = image_mset (\<lambda>n. (key n, n)) (mset_set (available g {}))"
proof -
  let ?zs = "map fst (filter (\<lambda>(node, es). es = []) g)"
  have "distinct ?zs" using assms by (simp add: wf_graph_def wf_dict_def distinct_map_filter)
  moreover have "edges g n = {} \<longleftrightarrow> dget g n = Some []" if "n \<in> nodes g" for n
    using that by (cases "dget g n") (auto simp: edges_def nodes_def dget_or_def map_of_eq_None_iff)
  then have "available g {} = {n. dget g n = Some []}"
    by (auto simp: available_def nodes_def edges_def dget_or_def dest: dget_in intro: rev_image_eqI)
  moreover have "set ?zs = {n. (n, []) \<in> set g}" by force
  ultimately have "distinct ?zs" "set ?zs = available g {}"
    using in_dict_iff[of g] assms by (simp_all add: wf_graph_def)
  then have "mset ?zs = mset_set (available g {})" by (metis mset_set_set)
  moreover have "initial_zero_outdegree g key = map (\<lambda>n. (key n, n)) ?zs"
    by (simp add: initial_zero_outdegree_def case_prod_beta comp_def)
  ultimately show ?thesis by (simp only: mset_map)
qed

lemma sort_inv_initial: "wf_graph g \<Longrightarrow> sort_inv g key (heapify (initial_zero_outdegree g key), g, [])"
  by (simp add: sort_inv_def heapify_laws initial_available wf_graph_distinct_edges)

lemma sort_greedy:
  assumes "wf_graph g"
  shows "\<exists>xs. lexicographical_topological_sort g key = Some xs \<and> greedy g key {} xs"
proof -
  let ?b = "\<lambda>(zero_outdegree :: ('b \<times> 'a) list, _, _). zero_outdegree \<noteq> []"
  let ?f = "\<lambda>(_, _, ys). card (nodes g) - length ys"
  let ?init = "(heapify (initial_zero_outdegree g key), g, [])"
  have "sort_inv g key (sort_step key (reverse_graph g) s) \<and> ?f (sort_step key (reverse_graph g) s) < ?f s"
    if "sort_inv g key s" "?b s" for s :: "('a, 'b) sort_state"
  proof -
    obtain h out ys where s: "s = (h, out, ys)" by (cases s)
    obtain h' out' ys' where st: "sort_step key (reverse_graph g) (h, out, ys) = (h', out', ys')"
      by (cases "sort_step key (reverse_graph g) (h, out, ys)")
    have "h \<noteq> []" using that(2) s by simp
    note step = sort_inv_step[OF assms that(1)[unfolded s] this st]
    have ys: "distinct ys" "set ys \<subseteq> nodes g" using that(1) s by (auto simp: sort_inv_def)
    have "card (insert (last ys') (set ys)) \<le> card (nodes g)"
      using step that(2) s ys by (intro card_mono) (auto simp: nodes_def)
    then have "length ys < card (nodes g)" using step that(2) s ys by (simp add: distinct_card)
    moreover have "length ys' = Suc (length ys)" using arg_cong[OF step(2), of length] by simp
    ultimately show ?thesis using step(1) that(2) by (simp add: s st)
  qed
  note step = this
  obtain t where t: "while_option ?b (sort_step key (reverse_graph g)) ?init = Some t"
    using measure_while_option_Some[of "sort_inv g key" ?b _ ?f, OF step sort_inv_initial[OF assms]] by blast
  have inv: "sort_inv g key t"
    by (rule while_option_rule[where P = "sort_inv g key", OF _ t sort_inv_initial[OF assms]]) (use step in blast)
  obtain out ys where ys: "t = ([], out, ys)" using while_option_stop[OF t] by (cases t) auto
  have "available g (set ys) = {}" using inv by (simp add: sort_inv_def ys mset_set_empty_iff)
  then have "greedy g key (set ys) []" by simp
  with inv have "greedy g key {} (ys @ [])" unfolding sort_inv_def ys prod.case by blast
  then show ?thesis using t by (simp add: lexicographical_topological_sort_def ys)
qed

section \<open>Properties\<close>

text \<open>
  C19. The sort ends on every well-formed graph and yields exactly the specified sequence: at each
  point the node with the least key, ties broken by the node itself, among the nodes all of whose
  references were yielded before.
\<close>

theorem sort_is_greedy_order:
  assumes "wf_graph g"
  shows "\<exists>xs. lexicographical_topological_sort g key = Some xs \<and> greedy g key {} xs
    \<and> (\<forall>ys. greedy g key {} ys \<longrightarrow> ys = xs)"
  using sort_greedy[OF assms, of key] greedy_unique by blast

definition sample_graph :: "nat graph" where
  "sample_graph = [(1, []), (2, [1]), (3, [1]), (4, [2, 3]), (5, [])]"

theorem sort_is_greedy_order_witness:
  "\<exists>xs. lexicographical_topological_sort sample_graph (\<lambda>n. 10 - n) = Some xs
     \<and> greedy sample_graph (\<lambda>n. 10 - n) {} xs \<and> (\<forall>ys. greedy sample_graph (\<lambda>n. 10 - n) {} ys \<longrightarrow> ys = xs)"
  by (rule sort_is_greedy_order) code_simp

text \<open>
  On an acyclic graph whose references are nodes, the sort is a reverse topological order of
  all nodes: each node occurs exactly once, after every node it refers to.
\<close>

lemma sort_is_topological:
  assumes "wf_graph g" and "\<And>n. n \<in> nodes g \<Longrightarrow> edges g n \<subseteq> nodes g"
    and "wf {(m, n). n \<in> nodes g \<and> m \<in> edges g n}"
  shows "\<exists>xs. lexicographical_topological_sort g key = Some xs \<and> distinct xs \<and> set xs = nodes g
    \<and> (\<forall>as n bs. xs = as @ n # bs \<longrightarrow> edges g n \<subseteq> set as)"
proof -
  obtain xs where xs: "lexicographical_topological_sort g key = Some xs" "greedy g key {} xs"
    using sort_greedy[OF assms(1)] by blast
  have "edges g n \<subseteq> set as" if "xs = as @ n # bs" for as n bs
    using greedy_topological[OF xs(2) that] by simp
  with xs greedy_complete[OF xs(2) assms(3,2)] greedy_distinct[OF xs(2)] show ?thesis by blast
qed

text \<open>
  C35. The result depends only on the graph, not on the order in which the dictionary or the sets
  of references list it, so every server that builds the same graph gets the same order.
\<close>

theorem sort_order_independent:
  assumes "wf_graph g" and "wf_graph g'" and "nodes g = nodes g'" and "edges g = edges g'"
  shows "lexicographical_topological_sort g key = lexicographical_topological_sort g' key"
  using sort_greedy[OF assms(1), of key] sort_greedy[OF assms(2), of key] greedy_cong[OF assms(3,4), of key]
    greedy_unique by metis

definition sample_graph' :: "nat graph" where
  "sample_graph' = [(5, []), (4, [3, 2]), (3, [1]), (2, [1]), (1, [])]"

theorem sort_order_independent_witness:
  "lexicographical_topological_sort sample_graph (\<lambda>n. 10 - n) = lexicographical_topological_sort sample_graph' (\<lambda>n. 10 - n)"
proof (rule sort_order_independent)
  show "edges sample_graph = edges sample_graph'"
    by (rule ext) (auto simp: edges_def sample_graph_def sample_graph'_def dget_or_def)
qed (auto simp: sample_graph_def sample_graph'_def nodes_def wf_graph_def wf_dict_def)

end
