(* ===== verification/Computation.thy ===== *)
theory Computation
  imports Prelude "HOL-Library.While_Combinator"
begin

text \<open>
  Computations that read and change a state, may raise an exception and may not return: a function
  from the state to \<open>None\<close> (it does not return), an exception, or a value with the new state. Python
  code whose functions share a mutable dictionary and loop until a condition holds is translated
  into them.
\<close>

type_synonym ('s, 'a) comp = "'s \<Rightarrow> ('a \<times> 's) res option"

definition cret :: "'a \<Rightarrow> ('s, 'a) comp" where
  "cret x = (\<lambda>s. Some (Inr (x, s)))"

definition craise :: "py_error \<Rightarrow> ('s, 'a) comp" where
  "craise e = (\<lambda>s. Some (Inl e))"

definition clift :: "'a res \<Rightarrow> ('s, 'a) comp" where
  "clift r = (\<lambda>s. Some (rbind r (\<lambda>x. Inr (x, s))))"

definition cbind :: "('s, 'a) comp \<Rightarrow> ('a \<Rightarrow> ('s, 'b) comp) \<Rightarrow> ('s, 'b) comp" where
  "cbind m f = (\<lambda>s. case m s of
     None \<Rightarrow> None
   | Some (Inl e) \<Rightarrow> Some (Inl e)
   | Some (Inr (x, s')) \<Rightarrow> f x s')"

definition cget :: "('s, 's) comp" where
  "cget = (\<lambda>s. Some (Inr (s, s)))"

definition cput :: "'s \<Rightarrow> ('s, unit) comp" where
  "cput s' = (\<lambda>s. Some (Inr ((), s')))"

text \<open>The loops: \<open>for\<close> over a list with an accumulator, and \<open>while\<close>.\<close>

fun cfold :: "('a \<Rightarrow> 'b \<Rightarrow> ('s, 'b) comp) \<Rightarrow> 'a list \<Rightarrow> 'b \<Rightarrow> ('s, 'b) comp" where
  "cfold f [] acc = cret acc"
| "cfold f (x # xs) acc = cbind (f x acc) (cfold f xs)"

definition running :: "('b \<Rightarrow> bool) \<Rightarrow> ('b \<times> 's) res option \<Rightarrow> bool" where
  "running b r = (case r of Some (Inr (x, s)) \<Rightarrow> b x | _ \<Rightarrow> False)"

definition advance :: "('b \<Rightarrow> ('s, 'b) comp) \<Rightarrow> ('b \<times> 's) res option \<Rightarrow> ('b \<times> 's) res option" where
  "advance c r = (case r of Some (Inr (x, s)) \<Rightarrow> c x s | _ \<Rightarrow> r)"

definition cwhile :: "('b \<Rightarrow> bool) \<Rightarrow> ('b \<Rightarrow> ('s, 'b) comp) \<Rightarrow> 'b \<Rightarrow> ('s, 'b) comp" where
  "cwhile b c x = (\<lambda>s. case while_option (running b) (advance c) (Some (Inr (x, s))) of
     None \<Rightarrow> None | Some r \<Rightarrow> r)"

section \<open>Results\<close>

named_theorems comp_simps

abbreviation returns :: "('s, 'a) comp \<Rightarrow> 's \<Rightarrow> 'a \<Rightarrow> 's \<Rightarrow> bool" where
  "returns m s x s' \<equiv> m s = Some (Inr (x, s'))"

lemma returns_cret [simp, comp_simps]: "returns (cret x) s y s' \<longleftrightarrow> y = x \<and> s' = s"
  by (auto simp: cret_def)

lemma returns_craise [simp, comp_simps]: "\<not> returns (craise e) s y s'"
  by (simp add: craise_def)

lemma returns_clift [simp, comp_simps]: "returns (clift r) s y s' \<longleftrightarrow> r = Inr y \<and> s' = s"
  by (auto simp: clift_def)

lemma returns_cget [simp, comp_simps]: "returns cget s y s' \<longleftrightarrow> y = s \<and> s' = s"
  by (auto simp: cget_def)

lemma returns_cput [simp, comp_simps]: "returns (cput t) s y s' \<longleftrightarrow> s' = t"
  by (auto simp: cput_def)

lemma returns_cbind [simp, comp_simps]:
  "returns (cbind m f) s y s' \<longleftrightarrow> (\<exists>x t. returns m s x t \<and> returns (f x) t y s')"
  by (auto simp: cbind_def split: option.splits sum.splits)

text \<open>An invariant of accumulator and state is kept by a \<open>for\<close> loop.\<close>

lemma cfold_invariant:
  assumes "returns (cfold f xs acc) s acc' s'" and "P acc s"
    and "\<And>x a t a' t'. x \<in> set xs \<Longrightarrow> P a t \<Longrightarrow> returns (f x a) t a' t' \<Longrightarrow> P a' t'"
  shows "P acc' s'"
  using assms
proof (induction xs arbitrary: acc s)
  case (Cons x xs)
  then obtain a t where "returns (f x acc) s a t" "returns (cfold f xs a) t acc' s'" by auto
  with Cons show ?case by (meson list.set_intros)
qed simp

lemma cwhile_invariant:
  assumes "returns (cwhile b c x) s x' s'" and "P x s"
    and "\<And>y t y' t'. P y t \<Longrightarrow> b y \<Longrightarrow> returns (c y) t y' t' \<Longrightarrow> P y' t'"
  shows "P x' s' \<and> \<not> b x'"
proof -
  define Q where "Q = (\<lambda>r :: (_ \<times> _) res option. case r of Some (Inr (y, t)) \<Rightarrow> P y t | _ \<Rightarrow> True)"
  from assms(1) have w: "while_option (running b) (advance c) (Some (Inr (x, s))) = Some (Some (Inr (x', s')))"
    by (auto simp: cwhile_def split: option.splits)
  have "Q (Some (Inr (x', s')))"
  proof (rule while_option_rule[of Q "running b" "advance c", OF _ w])
    fix q
    assume "Q q" "running b q"
    then obtain y t where q: "q = Some (Inr (y, t))" "P y t" "b y"
      by (auto simp: Q_def running_def split: option.splits sum.splits prod.splits)
    then show "Q (advance c q)"
      using assms(3)[OF q(2,3)] by (auto simp: Q_def advance_def split: option.splits sum.splits)
  qed (simp add: Q_def assms(2))
  with while_option_stop[OF w] show ?thesis by (simp add: Q_def running_def)
qed

section \<open>Ending\<close>

named_theorems ends_intros

definition ends :: "('s, 'a) comp \<Rightarrow> 's \<Rightarrow> bool" where
  "ends m s \<longleftrightarrow> m s \<noteq> None"

lemma ends_basic [simp, ends_intros]:
  "ends (cret x) s" "ends (craise e) s" "ends (clift r) s" "ends cget s" "ends (cput t) s"
  by (simp_all add: ends_def cret_def craise_def clift_def cget_def cput_def)

lemma ends_cbind [ends_intros]:
  "ends m s \<Longrightarrow> (\<And>x t. returns m s x t \<Longrightarrow> ends (f x) t) \<Longrightarrow> ends (cbind m f) s"
  by (cases "m s") (auto simp: ends_def cbind_def split: sum.splits)

lemma ends_cases [ends_intros]:
  "(b \<Longrightarrow> ends m s) \<Longrightarrow> (\<not> b \<Longrightarrow> ends m' s) \<Longrightarrow> ends (if b then m else m') s"
  "(v = None \<Longrightarrow> ends m s) \<Longrightarrow> (\<And>x. v = Some x \<Longrightarrow> ends (f x) s) \<Longrightarrow>
     ends (case v of None \<Rightarrow> m | Some x \<Rightarrow> f x) s"
  "(l = [] \<Longrightarrow> ends m s) \<Longrightarrow> (\<And>x xs. l = x # xs \<Longrightarrow> ends (g x xs) s) \<Longrightarrow>
     ends (case l of [] \<Rightarrow> m | x # xs \<Rightarrow> g x xs) s"
  "(\<And>a b. p = (a, b) \<Longrightarrow> ends (h a b) s) \<Longrightarrow> ends (case p of (a, b) \<Rightarrow> h a b) s"
  "(\<And>x. r = Inl x \<Longrightarrow> ends (f' x) s) \<Longrightarrow> (\<And>x. r = Inr x \<Longrightarrow> ends (g' x) s) \<Longrightarrow>
     ends (case r of Inl x \<Rightarrow> f' x | Inr x \<Rightarrow> g' x) s"
  by (cases b; cases v; cases l; cases p; cases r; simp)+

lemma ends_returns_or_raises:
  "ends m s \<longleftrightarrow> (\<exists>x s'. returns m s x s') \<or> (\<exists>e. m s = Some (Inl e))"
  by (cases "m s"; cases "the (m s)") (auto simp: ends_def)

lemma ends_cfold:
  assumes "P acc s"
    and "\<And>x a t. x \<in> set xs \<Longrightarrow> P a t \<Longrightarrow> ends (f x a) t"
    and "\<And>x a t a' t'. x \<in> set xs \<Longrightarrow> P a t \<Longrightarrow> returns (f x a) t a' t' \<Longrightarrow> P a' t'"
  shows "ends (cfold f xs acc) s"
  using assms
proof (induction xs arbitrary: acc s)
  case (Cons x xs)
  show ?case unfolding cfold.simps
  proof (rule ends_cbind)
    show "ends (f x acc) s" using Cons.prems by simp
    fix a t assume "returns (f x acc) s a t"
    then have "P a t" using Cons.prems(1,3) by (meson list.set_intros(1))
    then show "ends (cfold f xs a) t"
      by (rule Cons.IH) (erule Cons.prems(2,3)[OF list.set_intros(2)]; assumption)+
  qed
qed simp

text \<open>
  A \<open>while\<close> loop whose body ends, keeps an invariant and makes a measure smaller comes to an end.
\<close>

lemma ends_cwhile:
  fixes r :: "('b \<times> 's) rel"
  assumes "wf r" and "P x s"
    and "\<And>y t. P y t \<Longrightarrow> b y \<Longrightarrow> ends (c y) t"
    and "\<And>y t y' t'. P y t \<Longrightarrow> b y \<Longrightarrow> returns (c y) t y' t' \<Longrightarrow> P y' t' \<and> ((y', t'), (y, t)) \<in> r"
  shows "ends (cwhile b c x) s"
proof -
  have "\<exists>q. while_option (running b) (advance c) (Some (Inr (y, t))) = Some q \<and> q \<noteq> None" if "P y t" for y t
    using assms(1) that
  proof (induction "(y, t)" arbitrary: y t rule: wf_induct_rule)
    case less
    show ?case
    proof (cases "b y")
      case True
      obtain q where q: "c y t = Some q" using assms(3)[OF less.prems True] by (auto simp: ends_def)
      show ?thesis
      proof (cases q)
        case (Inl e)
        then show ?thesis using True q
          by (subst while_option_unfold, subst while_option_unfold) (simp add: running_def advance_def)
      next
        case (Inr p)
        obtain y' t' where p: "p = (y', t')" by (cases p)
        with assms(4)[OF less.prems True] q Inr have "P y' t'" "((y', t'), (y, t)) \<in> r" by auto
        from less.hyps[OF this(2,1)] show ?thesis using True q Inr p
          by (subst while_option_unfold) (simp add: running_def advance_def)
      qed
    qed (subst while_option_unfold, simp add: running_def)
  qed
  from this[OF assms(2)] show ?thesis by (auto simp: cwhile_def ends_def)
qed

section \<open>Steady computations\<close>

text \<open>
  When the state only ever moves along a preorder (a cache that only grows, say), every computation
  built from steady ones is steady.
\<close>

named_theorems steady_intros

definition steady :: "('s \<Rightarrow> 's \<Rightarrow> bool) \<Rightarrow> ('s, 'a) comp \<Rightarrow> bool" where
  "steady R m \<longleftrightarrow> (\<forall>s x s'. returns m s x s' \<longrightarrow> R s s')"

lemma steady_case_option [steady_intros]:
  "(v = None \<Longrightarrow> steady R m) \<Longrightarrow> (\<And>x. v = Some x \<Longrightarrow> steady R (f x)) \<Longrightarrow>
     steady R (case v of None \<Rightarrow> m | Some x \<Rightarrow> f x)"
  by (cases v) auto

lemma steady_case_list [steady_intros]:
  "(v = [] \<Longrightarrow> steady R m) \<Longrightarrow> (\<And>x xs. v = x # xs \<Longrightarrow> steady R (f x xs)) \<Longrightarrow>
     steady R (case v of [] \<Rightarrow> m | x # xs \<Rightarrow> f x xs)"
  by (cases v) auto

lemma steady_if [steady_intros]:
  "(b \<Longrightarrow> steady R m) \<Longrightarrow> (\<not> b \<Longrightarrow> steady R m') \<Longrightarrow> steady R (if b then m else m')"
  by simp

lemma steady_case_prod [steady_intros]:
  "(\<And>a b. p = (a, b) \<Longrightarrow> steady R (f a b)) \<Longrightarrow> steady R (case p of (a, b) \<Rightarrow> f a b)"
  by (cases p) auto

lemma steadyD: "steady R m \<Longrightarrow> returns m s x s' \<Longrightarrow> R s s'"
  by (auto simp: steady_def)

locale state_preorder =
  fixes R :: "'s \<Rightarrow> 's \<Rightarrow> bool"
  assumes preorder_refl: "R s s" and preorder_trans: "R s t \<Longrightarrow> R t u \<Longrightarrow> R s u"
begin

lemma steady_basic [steady_intros]:
  "steady R (cret x)" "steady R (craise e)" "steady R (clift r)" "steady R cget"
  by (auto simp: steady_def preorder_refl)

lemma steady_cbind [steady_intros]:
  "steady R m \<Longrightarrow> (\<And>x. steady R (f x)) \<Longrightarrow> steady R (cbind m f)"
  unfolding steady_def returns_cbind by (meson preorder_trans)

lemma steady_cfold [steady_intros]:
  "(\<And>x a. steady R (f x a)) \<Longrightarrow> steady R (cfold f xs acc)"
  by (induction xs arbitrary: acc) (auto intro: steady_intros)

lemma steady_cwhile [steady_intros]:
  assumes "\<And>y. steady R (c y)"
  shows "steady R (cwhile b c x)"
  unfolding steady_def
proof (intro allI impI)
  fix s y s'
  assume "returns (cwhile b c x) s y s'"
  from cwhile_invariant[where P = "\<lambda>_. R s", OF this preorder_refl] assms show "R s s'"
    by (meson preorder_trans steadyD)
qed

end

end
