(* ===== verification/State_V2.thy ===== *)
theory State_V2
  imports Event_Auth Topological_Sort Computation
begin

text \<open>
  State resolution version 2 and 2.1 (\<open>state/v2.py\<close>). The dictionary \<open>event_map\<close> that the code
  fills while it runs is the state of the computations; the store is a parameter with the two
  operations of the protocol class \<open>StateResolutionStore\<close>. Python sets are lists without
  duplicates. The pauses for the reactor and the log messages are left out.
\<close>

type_synonym event_map = "(string, EventBase) dict"
type_synonym 'a resolving = "(event_map, 'a) comp"
type_synonym state_set = "(StateKey, string) dict"

record StateDifference =
  auth_difference :: "string list"
  conflicted_subgraph :: "string list option"

record StateResolutionStore =
  get_events :: "string list \<Rightarrow> event_map"
  get_auth_chain_difference :: "string \<Rightarrow> string list list \<Rightarrow> string list option \<Rightarrow> string list \<Rightarrow> StateDifference"

section \<open>Looking up events\<close>

definition get_event_opt :: "StateResolutionStore \<Rightarrow> string \<Rightarrow> string \<Rightarrow> bool \<Rightarrow> EventBase option resolving" where
  "get_event_opt store rid event_id allow_none =
     cbind cget (\<lambda>event_map.
     let event_map' = (if dhas event_map event_id then event_map
                       else dupdate event_map (get_events store [event_id])) in
     cbind (cput event_map') (\<lambda>_.
     case dget event_map' event_id of
       None \<Rightarrow> if allow_none then cret None else craise (OtherException ''Unknown event'')
     | Some event \<Rightarrow>
         cbind (clift (room_id event)) (\<lambda>r.
         if r \<noteq> rid then craise (OtherException ''event is in another room'') else cret (Some event))))"

text \<open>The call without \<open>allow_none\<close>, which returns an event or raises.\<close>

definition get_event :: "StateResolutionStore \<Rightarrow> string \<Rightarrow> string \<Rightarrow> EventBase resolving" where
  "get_event store rid event_id =
     cbind (get_event_opt store rid event_id False) (\<lambda>ev.
     case ev of None \<Rightarrow> craise (OtherException ''Unknown event'') | Some event \<Rightarrow> cret event)"

text \<open>\<open>aev and (aev.type, aev.state_key) == key\<close>.\<close>

definition has_key :: "StateKey \<Rightarrow> EventBase option \<Rightarrow> bool res" where
  "has_key key aev = (case aev of None \<Rightarrow> Inr False
     | Some e \<Rightarrow> rbind (state_key e) (\<lambda>k. Inr ((ev_type e, k) = key)))"

abbreviation POWER_KEY :: StateKey where "POWER_KEY \<equiv> (EventTypes_PowerLevels, [])"

definition find_pl_and_create ::
    "StateResolutionStore \<Rightarrow> string \<Rightarrow> string \<Rightarrow> EventBase option \<times> EventBase option
       \<Rightarrow> (EventBase option \<times> EventBase option) resolving" where
  "find_pl_and_create store rid aid = (\<lambda>(pl, create).
     cbind (get_event_opt store rid aid True) (\<lambda>aev.
     cbind (clift (has_key POWER_KEY aev)) (\<lambda>is_pl.
     cbind (clift (has_key CREATE_KEY aev)) (\<lambda>is_create.
     cret (if is_pl then aev else pl, if is_create then aev else create)))))"

text \<open>The search for the create event when there is no power-levels event: the first one decides.\<close>

fun creator_level :: "StateResolutionStore \<Rightarrow> string \<Rightarrow> EventBase \<Rightarrow> string list \<Rightarrow> int resolving" where
  "creator_level store rid event [] = cret 0"
| "creator_level store rid event (aid # aids) =
     cbind (get_event_opt store rid aid True) (\<lambda>aev.
     cbind (clift (has_key CREATE_KEY aev)) (\<lambda>is_create.
     if is_create then
       let creator = (if implicit_room_creator (ev_room_version event) then map_option (\<lambda>e. JStr (ev_sender e)) aev
                      else Option.bind aev (\<lambda>e. not_none (dget (ev_content e) ''creator'')))
       in cret (if creator = Some (JStr (ev_sender event)) then 100 else 0)
     else creator_level store rid event aids))"

definition get_power_level_for_sender :: "StateResolutionStore \<Rightarrow> string \<Rightarrow> string \<Rightarrow> int resolving" where
  "get_power_level_for_sender store rid event_id =
     cbind (get_event store rid event_id) (\<lambda>event.
     cbind (clift (auth_event_ids event)) (\<lambda>aids.
     cbind (cfold (find_pl_and_create store rid) aids (None, None)) (\<lambda>(pl, create).
     if ev_type event \<noteq> EventTypes_Create \<and> create = None then craise AssertionError
     else
       cbind (case create of
                Some c \<Rightarrow> if msc4289_creator_power_enabled (ev_room_version c)
                          then clift (is_creator c (ev_sender event)) else cret False
              | None \<Rightarrow> cret False) (\<lambda>creator.
       if creator then cret CREATOR_POWER_LEVEL
       else (case pl of
               None \<Rightarrow> creator_level store rid event aids
             | Some pl_event \<Rightarrow> clift (level_in_content (ev_content pl_event) (ev_sender event)))))))"

section \<open>Conflicted and unconflicted state\<close>

definition state_keys :: "state_set list \<Rightarrow> StateKey list" where
  "state_keys state_sets = remdups (concat (map dkeys state_sets))"

definition entries :: "state_set list \<Rightarrow> StateKey \<Rightarrow> string option list" where
  "entries state_sets key = remdups (map (\<lambda>state_set. dget state_set key) state_sets)"

definition separate_key :: "state_set list \<Rightarrow> StateKey \<Rightarrow> state_set \<times> (StateKey, string list) dict
    \<Rightarrow> state_set \<times> (StateKey, string list) dict" where
  "separate_key state_sets key = (\<lambda>(unconflicted_state, conflicted_state).
     case entries state_sets key of
       [Some event_id] \<Rightarrow> (dset key event_id unconflicted_state, conflicted_state)
     | event_ids \<Rightarrow> (unconflicted_state, dset key (somes event_ids) conflicted_state))"

definition seperate :: "state_set list \<Rightarrow> state_set \<times> (StateKey, string list) dict" where
  "seperate state_sets = fold (separate_key state_sets) (state_keys state_sets) ([], [])"

definition is_power_event :: "EventBase \<Rightarrow> bool res" where
  "is_power_event event =
     rbind (state_key event) (\<lambda>sk.
     if (ev_type event, sk) \<in> {POWER_KEY, (EventTypes_JoinRules, []), CREATE_KEY} then Inr True
     else if ev_type event = EventTypes_Member then
       rbind (membership event) (\<lambda>m.
       Inr (m \<in> {Membership_LEAVE, Membership_BAN} \<and> ev_sender event \<noteq> sk))
     else Inr False)"

section \<open>Sorting the power events\<close>

text \<open>
  The loop state is the stack (its top first) and the graph. The \<open>for\<close> loop over the auth events
  adds the edges and pushes the events that are not nodes yet.
\<close>

definition add_auth_edge ::
    "string list \<Rightarrow> string \<Rightarrow> string \<Rightarrow> string list \<times> string graph \<Rightarrow> string list \<times> string graph" where
  "add_auth_edge full_conflicted_set eid aid = (\<lambda>(stack, graph).
     if aid \<in> set full_conflicted_set then
       (if dhas graph aid then stack else aid # stack, add_edge eid aid graph)
     else (stack, graph))"

definition graph_step ::
    "StateResolutionStore \<Rightarrow> string \<Rightarrow> string list \<Rightarrow> string list \<times> string graph
       \<Rightarrow> (string list \<times> string graph) resolving" where
  "graph_step store rid full_conflicted_set = (\<lambda>(stack, graph).
     case stack of
       [] \<Rightarrow> cret (stack, graph)
     | eid # rest \<Rightarrow>
         cbind (get_event store rid eid) (\<lambda>event.
         cbind (clift (auth_event_ids event)) (\<lambda>aids.
         cret (fold (add_auth_edge full_conflicted_set eid) aids (rest, add_node eid graph)))))"

definition add_event_and_auth_chain_to_graph ::
    "StateResolutionStore \<Rightarrow> string \<Rightarrow> string list \<Rightarrow> string \<Rightarrow> string graph \<Rightarrow> string graph resolving" where
  "add_event_and_auth_chain_to_graph store rid full_conflicted_set event_id graph =
     cbind (cwhile (\<lambda>(stack, _). stack \<noteq> []) (graph_step store rid full_conflicted_set) ([event_id], graph))
       (\<lambda>(_, graph'). cret graph')"

type_synonym power_order = "int \<times> int \<times> string"

definition get_power_order :: "(string, int) dict \<Rightarrow> event_map \<Rightarrow> string \<Rightarrow> power_order res" where
  "get_power_order event_to_pl event_map event_id =
     rbind (dsub event_map event_id) (\<lambda>ev.
     rbind (dsub event_to_pl event_id) (\<lambda>pl.
     Inr (- pl, ev_origin_server_ts ev, event_id)))"

text \<open>
  The keys are computed for all nodes before the sort, which reads them from the table; the sort is
  total on the graphs built here, so the value for a sort that does not end is never used.
\<close>

definition sort_by_table :: "string graph \<Rightarrow> (string, 'k::linorder) dict \<Rightarrow> 'k \<Rightarrow> string list resolving" where
  "sort_by_table graph table k = (\<lambda>event_map.
     case lexicographical_topological_sort graph (\<lambda>n. dget_or table n k) of
       None \<Rightarrow> None
     | Some ns \<Rightarrow> Some (Inr (ns, event_map)))"

definition reverse_topological_power_sort ::
    "StateResolutionStore \<Rightarrow> string \<Rightarrow> string list \<Rightarrow> string list \<Rightarrow> string list resolving" where
  "reverse_topological_power_sort store rid event_ids full_conflicted_set =
     cbind (cfold (add_event_and_auth_chain_to_graph store rid full_conflicted_set) event_ids []) (\<lambda>graph.
     cbind (cfold (\<lambda>event_id event_to_pl.
              cbind (get_power_level_for_sender store rid event_id) (\<lambda>pl.
              cret (dset event_id pl event_to_pl))) (dkeys graph) []) (\<lambda>event_to_pl.
     cbind cget (\<lambda>event_map.
     cbind (clift (rmap (\<lambda>n. rbind (get_power_order event_to_pl event_map n) (\<lambda>k. Inr (n, k))) (dkeys graph)))
       (\<lambda>table. sort_by_table graph table (0, 0, [])))))"

section \<open>Iterative auth checks\<close>

definition add_auth_event ::
    "StateResolutionStore \<Rightarrow> string \<Rightarrow> string \<Rightarrow> (StateKey, EventBase) dict \<Rightarrow> (StateKey, EventBase) dict resolving" where
  "add_auth_event store rid aid auth_events =
     cbind (get_event_opt store rid aid True) (\<lambda>ev.
     case ev of
       None \<Rightarrow> cret auth_events
     | Some e \<Rightarrow>
         if ev_rejected_reason e = None
         then cbind (clift (state_key e)) (\<lambda>k. cret (dset (ev_type e, k) e auth_events))
         else cret auth_events)"

definition add_resolved_event ::
    "StateResolutionStore \<Rightarrow> string \<Rightarrow> state_set \<Rightarrow> auth_key \<Rightarrow> (StateKey, EventBase) dict
       \<Rightarrow> (StateKey, EventBase) dict resolving" where
  "add_resolved_event store rid resolved_state = (\<lambda>(t, k) auth_events.
     case k of
       JStr sk \<Rightarrow>
         (case dget resolved_state (t, sk) of
            None \<Rightarrow> cret auth_events
          | Some ev_id \<Rightarrow>
              cbind (get_event store rid ev_id) (\<lambda>e.
              if ev_rejected_reason e = None then
                cbind cget (\<lambda>event_map.
                cbind (clift (dsub event_map ev_id)) (\<lambda>e'.
                cret (dset (t, sk) e' auth_events)))
              else cret auth_events))
     | _ \<Rightarrow> cret auth_events)"

definition gather_auth_events ::
    "StateResolutionStore \<Rightarrow> string \<Rightarrow> RoomVersion \<Rightarrow> EventBase \<Rightarrow> state_set
       \<Rightarrow> (StateKey, EventBase) dict resolving" where
  "gather_auth_events store rid room_version event resolved_state =
     cbind (clift (auth_event_ids event)) (\<lambda>aids.
     cbind (cfold (add_auth_event store rid) aids []) (\<lambda>auth_events.
     cbind (clift (auth_types_for_event room_version event)) (\<lambda>keys.
     cfold (add_resolved_event store rid resolved_state) keys auth_events)))"

text \<open>
  One event: an \<open>AuthError\<close> leaves the state as it is, every other exception leaves the function.
  The mark that a redaction gets in its metadata is not read here, so the checked event is dropped.
\<close>

definition auth_check_step ::
    "auth_env \<Rightarrow> StateResolutionStore \<Rightarrow> string \<Rightarrow> RoomVersion \<Rightarrow> string \<Rightarrow> state_set \<Rightarrow> state_set resolving" where
  "auth_check_step env store rid room_version event_id resolved_state =
     cbind cget (\<lambda>event_map.
     cbind (clift (dsub event_map event_id)) (\<lambda>event.
     cbind (gather_auth_events store rid room_version event resolved_state) (\<lambda>auth_events.
     if ev_rejected_reason event \<noteq> None then cret resolved_state
     else (case check_state_dependent_auth_rules env event (dvalues auth_events) of
             Inl e \<Rightarrow> if is_AuthError e then cret resolved_state else craise e
           | Inr _ \<Rightarrow> cbind (clift (state_key event)) (\<lambda>k.
               cret (dset (ev_type event, k) event_id resolved_state))))))"

definition iterative_auth_checks ::
    "auth_env \<Rightarrow> StateResolutionStore \<Rightarrow> string \<Rightarrow> RoomVersion \<Rightarrow> string list \<Rightarrow> state_set \<Rightarrow> state_set resolving" where
  "iterative_auth_checks env store rid room_version event_ids base_state =
     cfold (auth_check_step env store rid room_version) event_ids base_state"

section \<open>The mainline\<close>

text \<open>The first auth event that is the power-levels event, with its identifier.\<close>

fun find_power_levels ::
    "StateResolutionStore \<Rightarrow> string \<Rightarrow> string list \<Rightarrow> (string \<times> EventBase) option resolving" where
  "find_power_levels store rid [] = cret None"
| "find_power_levels store rid (aid # aids) =
     cbind (get_event_opt store rid aid True) (\<lambda>ev.
     cbind (clift (has_key POWER_KEY ev)) (\<lambda>is_pl.
     if is_pl then cret (map_option (\<lambda>e. (aid, e)) ev) else find_power_levels store rid aids))"

text \<open>\<open>while pl\<close>: the loop also stops on an empty identifier.\<close>

definition mainline_step ::
    "StateResolutionStore \<Rightarrow> string \<Rightarrow> string option \<times> string list \<Rightarrow> (string option \<times> string list) resolving" where
  "mainline_step store rid = (\<lambda>(pl, mainline).
     case pl of
       None \<Rightarrow> cret (pl, mainline)
     | Some p \<Rightarrow>
         cbind (get_event store rid p) (\<lambda>pl_ev.
         cbind (clift (auth_event_ids pl_ev)) (\<lambda>auth_events.
         cbind (find_power_levels store rid auth_events) (\<lambda>found.
         cret (map_option fst found, mainline @ [p])))))"

definition get_mainline :: "StateResolutionStore \<Rightarrow> string \<Rightarrow> string option \<Rightarrow> string list resolving" where
  "get_mainline store rid pl =
     cbind (cwhile (\<lambda>(pl, _). pl \<notin> {None, Some []}) (mainline_step store rid) (pl, [])) (\<lambda>(_, mainline). cret mainline)"

definition mainline_map_of :: "string list \<Rightarrow> (string, nat) dict" where
  "mainline_map_of mainline = dict_of (zip (rev mainline) [1..<Suc (length mainline)])"

datatype depth_search = Searching EventBase | Found nat | NoPowerLevels

definition depth_step ::
    "StateResolutionStore \<Rightarrow> string \<Rightarrow> (string, nat) dict \<Rightarrow> depth_search \<Rightarrow> depth_search resolving" where
  "depth_step store rid mainline_map search =
     (case search of
        Searching tmp_event \<Rightarrow>
          (case dget mainline_map (ev_event_id tmp_event) of
             Some depth \<Rightarrow> cret (Found depth)
           | None \<Rightarrow>
               cbind (clift (auth_event_ids tmp_event)) (\<lambda>auth_events.
               cbind (find_power_levels store rid auth_events) (\<lambda>found.
               cret (case found of None \<Rightarrow> NoPowerLevels | Some (_, aev) \<Rightarrow> Searching aev))))
      | _ \<Rightarrow> cret search)"

definition get_mainline_depth_for_event ::
    "StateResolutionStore \<Rightarrow> EventBase \<Rightarrow> (string, nat) dict \<Rightarrow> nat resolving" where
  "get_mainline_depth_for_event store event mainline_map =
     cbind (clift (room_id event)) (\<lambda>rid.
     cbind (cwhile (\<lambda>search. case search of Searching _ \<Rightarrow> True | _ \<Rightarrow> False)
              (depth_step store rid mainline_map) (Searching event)) (\<lambda>result.
     cret (case result of Found depth \<Rightarrow> depth | _ \<Rightarrow> 0)))"

type_synonym mainline_order = "nat \<times> int \<times> string"

definition add_order ::
    "StateResolutionStore \<Rightarrow> (string, nat) dict \<Rightarrow> string \<Rightarrow> (string, mainline_order) dict
       \<Rightarrow> (string, mainline_order) dict resolving" where
  "add_order store mainline_map ev_id order_map =
     cbind cget (\<lambda>event_map.
     cbind (clift (dsub event_map ev_id)) (\<lambda>event.
     cbind (get_mainline_depth_for_event store event mainline_map) (\<lambda>depth.
     cret (dset ev_id (depth, ev_origin_server_ts event, ev_id) order_map))))"

definition mainline_sort ::
    "StateResolutionStore \<Rightarrow> string \<Rightarrow> string list \<Rightarrow> string option \<Rightarrow> string list resolving" where
  "mainline_sort store rid event_ids resolved_power_event_id =
     (if event_ids = [] then cret []
      else
        cbind (get_mainline store rid resolved_power_event_id) (\<lambda>mainline.
        cbind (cfold (add_order store (mainline_map_of mainline)) event_ids []) (\<lambda>order_map.
        cret (sort_key (\<lambda>ev_id. dget_or order_map ev_id (0, 0, [])) event_ids))))"

section \<open>The auth chain difference\<close>

text \<open>
  For each event in flight, its auth chain inside the events in flight plus one step out of them,
  and the links back. The loop state is the stack, the chain and the links.
\<close>

type_synonym chain_state = "EventBase list \<times> string list \<times> string graph"

definition follow_auth_id ::
    "event_map \<Rightarrow> EventBase \<Rightarrow> string \<Rightarrow> chain_state \<Rightarrow> chain_state" where
  "follow_auth_id unpersisted_events next_event auth_id = (\<lambda>(to_search, chain, event_to_next_event).
     (case dget unpersisted_events auth_id of None \<Rightarrow> to_search | Some auth_event \<Rightarrow> auth_event # to_search,
      List.insert auth_id chain,
      add_edge auth_id (ev_event_id next_event) event_to_next_event))"

definition chain_step :: "event_map \<Rightarrow> chain_state \<Rightarrow> chain_state resolving" where
  "chain_step unpersisted_events = (\<lambda>(to_search, chain, event_to_next_event).
     case to_search of
       [] \<Rightarrow> cret (to_search, chain, event_to_next_event)
     | next_event # rest \<Rightarrow>
         cbind (clift (auth_event_ids next_event)) (\<lambda>ids.
         cret (fold (follow_auth_id unpersisted_events next_event) ids (rest, chain, event_to_next_event))))"

definition add_auth_chain ::
    "event_map \<Rightarrow> EventBase \<Rightarrow> (string, string list) dict \<times> string graph
       \<Rightarrow> ((string, string list) dict \<times> string graph) resolving" where
  "add_auth_chain unpersisted_events event = (\<lambda>(events_to_auth_chain, event_to_next_event).
     cbind (cwhile (\<lambda>(to_search, _, _). to_search \<noteq> []) (chain_step unpersisted_events)
              ([event], [ev_event_id event], event_to_next_event)) (\<lambda>(_, chain, event_to_next_event').
     cret (dset (ev_event_id event) chain events_to_auth_chain, event_to_next_event')))"

text \<open>The identifiers of one state set: those to pass to the store, and those in flight.\<close>

definition split_state_set ::
    "event_map \<Rightarrow> (string, string list) dict \<Rightarrow> state_set \<Rightarrow> string list \<times> string list" where
  "split_state_set unpersisted_events events_to_auth_chain state_set =
     (remdups (concat (map (\<lambda>event_id. case dget events_to_auth_chain event_id of
          None \<Rightarrow> [event_id]
        | Some chain \<Rightarrow> filter (\<lambda>e. \<not> dhas unpersisted_events e) chain) (dvalues state_set))),
      remdups (concat (map (\<lambda>event_id. case dget events_to_auth_chain event_id of
          None \<Rightarrow> []
        | Some chain \<Rightarrow> filter (dhas unpersisted_events) chain) (dvalues state_set))))"

text \<open>\<open>union - intersection\<close> of a list of sets; there is at least one.\<close>

definition union_minus_intersection :: "string list list \<Rightarrow> string list res" where
  "union_minus_intersection sets = (case sets of
     [] \<Rightarrow> Inl IndexError
   | _ \<Rightarrow> Inr (filter (\<lambda>e. \<not> list_all (\<lambda>s. e \<in> set s) sets) (remdups (concat sets))))"

definition forward_step :: "string graph \<Rightarrow> string list \<times> string list \<Rightarrow> (string list \<times> string list) resolving" where
  "forward_step event_to_next_event = (\<lambda>(search_queue, forwards).
     case search_queue of
       [] \<Rightarrow> cret (search_queue, forwards)
     | frontier_event # rest \<Rightarrow>
         cret (fold List.insert (dget_or event_to_next_event frontier_event []) rest,
               List.insert frontier_event forwards))"

definition forwards_conflicted ::
    "string graph \<Rightarrow> string list \<Rightarrow> string list resolving" where
  "forwards_conflicted event_to_next_event search_queue =
     cbind (cwhile (\<lambda>(q, _). q \<noteq> []) (forward_step event_to_next_event) (search_queue, [])) (\<lambda>(_, forwards).
     cret forwards)"

definition union_list :: "'a list \<Rightarrow> 'a list \<Rightarrow> 'a list" where
  "union_list xs ys = fold List.insert ys xs"

text \<open>The part of the conflicted subgraph (version 2.1) that runs through the events in flight.\<close>

definition expand_subgraph ::
    "(string, string list) dict \<Rightarrow> string graph \<Rightarrow> string list \<Rightarrow> string list \<Rightarrow> string list
       \<Rightarrow> string list \<Rightarrow> string list resolving" where
  "expand_subgraph events_to_auth_chain event_to_next_event conflicted_state unpersisted_conflicted
     additional subgraph =
     (let subgraph1 = union_list subgraph conflicted_state;
          subgraph_frontier = filter (\<lambda>e. e \<in> set additional) subgraph1 in
      cbind (forwards_conflicted event_to_next_event (union_list subgraph_frontier unpersisted_conflicted))
        (\<lambda>forwards.
      let backwards = remdups (concat (map (\<lambda>uce. dget_or events_to_auth_chain uce []) unpersisted_conflicted)) in
      cret (union_list subgraph1 (filter (\<lambda>e. e \<in> set forwards) backwards))))"

definition unpersisted_conflicted_events ::
    "event_map \<Rightarrow> (string, string list) dict \<Rightarrow> string list option \<Rightarrow> string list" where
  "unpersisted_conflicted_events unpersisted_events events_to_auth_chain conflicted_state =
     (if unpersisted_events = [] then []
      else filter (dhas events_to_auth_chain) (case conflicted_state of None \<Rightarrow> [] | Some c \<Rightarrow> c))"

definition get_auth_chain_difference_of ::
    "StateResolutionStore \<Rightarrow> string \<Rightarrow> state_set list \<Rightarrow> event_map \<Rightarrow> string list option \<Rightarrow> string list resolving" where
  "get_auth_chain_difference_of store rid state_sets unpersisted_events conflicted_state =
     cbind (cfold (add_auth_chain unpersisted_events) (dvalues unpersisted_events) ([], []))
       (\<lambda>(events_to_auth_chain, event_to_next_event).
     let splits = map (split_state_set unpersisted_events events_to_auth_chain) state_sets;
         uce = unpersisted_conflicted_events unpersisted_events events_to_auth_chain conflicted_state;
         additional = remdups (concat (map (\<lambda>c. filter (\<lambda>e. \<not> dhas unpersisted_events e)
                                            (dget_or events_to_auth_chain c [])) uce)) in
     cbind (if unpersisted_events = [] then cret ([], map (\<lambda>s. remdups (dvalues s)) state_sets)
            else clift (rbind (union_minus_intersection (map snd splits)) (\<lambda>d. Inr (d, map fst splits))))
       (\<lambda>(auth_difference_unpersisted_part, state_sets_ids).
     let conflicted_state' = map_option (filter (\<lambda>e. e \<notin> set uce)) conflicted_state;
         difference = get_auth_chain_difference store rid state_sets_ids conflicted_state' additional;
         auth_diff = union_list (auth_difference difference) auth_difference_unpersisted_part in
     cbind (case (conflicted_state', conflicted_subgraph difference) of
              (Some c, Some subgraph) \<Rightarrow>
                if unpersisted_events \<noteq> []
                then expand_subgraph events_to_auth_chain event_to_next_event c uce additional subgraph
                else cret subgraph
            | (_, Some subgraph) \<Rightarrow> cret subgraph
            | (_, None) \<Rightarrow> cret []) (\<lambda>subgraph.
     cret (union_list auth_diff subgraph))))"

section \<open>The resolution\<close>

definition check_rooms :: "string \<Rightarrow> event_map \<Rightarrow> unit res" where
  "check_rooms rid event_map =
     riter (\<lambda>event. rbind (room_id event) (\<lambda>r.
       raise_if (r \<noteq> rid) (OtherException ''Attempting to state-resolve with event in another room'')))
       (dvalues event_map)"

fun rfilter :: "('a \<Rightarrow> bool res) \<Rightarrow> 'a list \<Rightarrow> 'a list res" where
  "rfilter p [] = Inr []"
| "rfilter p (x # xs) = rbind (p x) (\<lambda>b. rbind (rfilter p xs) (\<lambda>ys. Inr (if b then x # ys else ys)))"

text \<open>
  The second half of the function: from the full conflicted set (all of it in the event map) to the
  resolved state.
\<close>

definition resolve_conflicts ::
    "auth_env \<Rightarrow> StateResolutionStore \<Rightarrow> string \<Rightarrow> RoomVersion \<Rightarrow> state_set \<Rightarrow> string list \<Rightarrow> state_set resolving" where
  "resolve_conflicts env store rid room_version unconflicted_state full_conflicted_set =
     cbind cget (\<lambda>event_map.
     cbind (clift (rfilter (\<lambda>eid. rbind (dsub event_map eid) is_power_event) full_conflicted_set)) (\<lambda>power_events.
     cbind (reverse_topological_power_sort store rid power_events full_conflicted_set) (\<lambda>sorted_power_events.
     let base_state = (if state_res room_version = STATE_RES_V2_1 then [] else unconflicted_state) in
     cbind (iterative_auth_checks env store rid room_version sorted_power_events base_state) (\<lambda>resolved_state.
     let leftover_events = filter (\<lambda>ev_id. ev_id \<notin> set sorted_power_events) full_conflicted_set;
         pl = dget resolved_state POWER_KEY in
     cbind (mainline_sort store rid leftover_events pl) (\<lambda>sorted_leftover.
     cbind (iterative_auth_checks env store rid room_version sorted_leftover resolved_state) (\<lambda>resolved_state'.
     cret (dupdate resolved_state' unconflicted_state)))))))"

definition resolve_events_with_store ::
    "auth_env \<Rightarrow> StateResolutionStore \<Rightarrow> string \<Rightarrow> RoomVersion \<Rightarrow> state_set list \<Rightarrow> state_set resolving" where
  "resolve_events_with_store env store rid room_version state_sets =
     (let (unconflicted_state, conflicted_state) = seperate state_sets in
      if conflicted_state = [] then cret unconflicted_state
      else
        let conflicted_ids = remdups (concat (dvalues conflicted_state)) in
        cbind cget (\<lambda>event_map.
        cbind (get_auth_chain_difference_of store rid state_sets event_map
                 (if state_res room_version = STATE_RES_V2_1 then Some conflicted_ids else None)) (\<lambda>auth_diff.
        let full_conflicted_set = union_list conflicted_ids auth_diff;
            event_map' = dupdate event_map (get_events store (filter (\<lambda>eid. \<not> dhas event_map eid) full_conflicted_set)) in
        cbind (cput event_map') (\<lambda>_.
        cbind (clift (check_rooms rid event_map')) (\<lambda>_.
        resolve_conflicts env store rid room_version unconflicted_state
          (filter (dhas event_map') full_conflicted_set))))))"

end
