(* ===== verification/State_V2_Props.thy ===== *)
theory State_V2_Props
  imports State_V2
begin

text \<open>
  Properties of state resolution: the split into conflicted and unconflicted state, what may enter
  the resolved state, the order of the power events and of the rest, and that the resolution ends.
\<close>

section \<open>The event map only grows\<close>

text \<open>
  What the code relies on in the store: \<open>get_events\<close> returns a dictionary whose keys are among the
  identifiers asked for.
\<close>

definition faithful_store :: "StateResolutionStore \<Rightarrow> bool" where
  "faithful_store store \<longleftrightarrow>
     (\<forall>ids. wf_dict (get_events store ids) \<and> (\<forall>i. dhas (get_events store ids) i \<longrightarrow> i \<in> set ids))"

definition grows :: "event_map \<Rightarrow> event_map \<Rightarrow> bool" where
  "grows em em' \<longleftrightarrow> (\<forall>i e. dget em i = Some e \<longrightarrow> dget em' i = Some e)"

interpretation growing: state_preorder grows
  by unfold_locales (auto simp: grows_def)

text \<open>More precisely, it grows by events the store supplied.\<close>

definition supplied :: "StateResolutionStore \<Rightarrow> string \<Rightarrow> EventBase \<Rightarrow> bool" where
  "supplied store i e \<longleftrightarrow> (\<exists>ids. dget (get_events store ids) i = Some e)"

definition fetches :: "StateResolutionStore \<Rightarrow> event_map \<Rightarrow> event_map \<Rightarrow> bool" where
  "fetches store em em' \<longleftrightarrow>
     grows em em' \<and> (\<forall>i e. dget em' i = Some e \<longrightarrow> dget em i = Some e \<or> supplied store i e)"

interpretation fetching: state_preorder "fetches store" for store
  by unfold_locales (simp add: fetches_def grows_def, unfold fetches_def grows_def, blast)

lemma fetches_grows: "fetches store em em' \<Longrightarrow> grows em em'"
  by (simp add: fetches_def)

lemma steady_grows: "steady (fetches store) m \<Longrightarrow> returns m s x s' \<Longrightarrow> grows s s'"
  by (auto simp: steady_def fetches_def)

lemma growsD: "grows em em' \<Longrightarrow> dget em i = Some e \<Longrightarrow> dget em' i = Some e"
  by (simp add: grows_def)

lemma fetches_events:
  assumes "faithful_store store" "\<And>i. i \<in> set ids \<Longrightarrow> \<not> dhas em i"
  shows "fetches store em (dupdate em (get_events store ids))"
proof -
  have w: "wf_dict (get_events store ids)" and k: "\<And>i. dhas (get_events store ids) i \<Longrightarrow> i \<in> set ids"
    using assms(1) by (auto simp: faithful_store_def)
  show ?thesis unfolding fetches_def grows_def supplied_def dget_dupdate[OF w]
    using k assms(2) by (fastforce simp: dhas_def split: option.splits)
qed

lemma get_event_opt_returns:
  assumes "faithful_store store" "returns (get_event_opt store rid i b) em r em'"
  shows "fetches store em em'" "r = dget em' i" "r = Some e \<Longrightarrow> room_id e = Inr rid"
  using assms fetches_events[OF assms(1), of "[i]" em]
  by (auto simp: get_event_opt_def Let_def fetching.preorder_refl split: if_splits option.splits)

lemma steady_get_event_opt [steady_intros]: "faithful_store store \<Longrightarrow> steady (fetches store) (get_event_opt store rid i b)"
  using get_event_opt_returns(1) by (auto simp: steady_def)

lemma get_event_returns:
  assumes "faithful_store store" "returns (get_event store rid i) em e em'"
  shows "fetches store em em'" "dget em' i = Some e" "room_id e = Inr rid"
  using assms get_event_opt_returns[OF assms(1)]
  by (auto simp: get_event_def split: option.splits)

lemma steady_get_event [steady_intros]: "faithful_store store \<Longrightarrow> steady (fetches store) (get_event store rid i)"
  using get_event_returns(1) by (auto simp: steady_def)

lemma steady_find_pl_and_create [steady_intros]:
  "faithful_store store \<Longrightarrow> steady (fetches store) (find_pl_and_create store rid aid acc)"
  unfolding find_pl_and_create_def by (intro steady_intros fetching.steady_cbind fetching.steady_basic)

lemma steady_creator_level [steady_intros]:
  "faithful_store store \<Longrightarrow> steady (fetches store) (creator_level store rid event aids)"
  by (induction aids) (auto intro!: steady_intros simp: Let_def)

lemma steady_get_power_level_for_sender [steady_intros]:
  "faithful_store store \<Longrightarrow> steady (fetches store) (get_power_level_for_sender store rid i)"
  unfolding get_power_level_for_sender_def by (intro steady_intros)

lemma steady_graph_step [steady_intros]:
  "faithful_store store \<Longrightarrow> steady (fetches store) (graph_step store rid fcs st)"
  unfolding graph_step_def by (intro steady_intros)

lemma steady_add_event_and_auth_chain [steady_intros]:
  "faithful_store store \<Longrightarrow> steady (fetches store) (add_event_and_auth_chain_to_graph store rid fcs i g)"
  unfolding add_event_and_auth_chain_to_graph_def
  by (intro fetching.steady_cbind fetching.steady_cwhile steady_case_prod fetching.steady_basic steady_graph_step)

lemma steady_sort_by_table [steady_intros]: "steady (fetches store) (sort_by_table g t k)"
  by (auto simp: steady_def sort_by_table_def fetching.preorder_refl split: option.splits)

lemma steady_reverse_topological_power_sort [steady_intros]:
  "faithful_store store \<Longrightarrow> steady (fetches store) (reverse_topological_power_sort store rid ids fcs)"
  unfolding reverse_topological_power_sort_def by (intro steady_intros)

lemma steady_add_auth_event [steady_intros]:
  "faithful_store store \<Longrightarrow> steady (fetches store) (add_auth_event store rid aid acc)"
  unfolding add_auth_event_def by (intro steady_intros)

lemma steady_add_resolved_event [steady_intros]:
  "faithful_store store \<Longrightarrow> steady (fetches store) (add_resolved_event store rid st k acc)"
  unfolding add_resolved_event_def by (cases k; cases "snd k") (auto intro!: steady_intros)

lemma steady_gather_auth_events [steady_intros]:
  "faithful_store store \<Longrightarrow> steady (fetches store) (gather_auth_events store rid rv event st)"
  unfolding gather_auth_events_def by (intro steady_intros)

lemma steady_case_sum [steady_intros]:
  "(\<And>x. v = Inl x \<Longrightarrow> steady R (f x)) \<Longrightarrow> (\<And>x. v = Inr x \<Longrightarrow> steady R (g x)) \<Longrightarrow>
     steady R (case v of Inl x \<Rightarrow> f x | Inr x \<Rightarrow> g x)"
  by (cases v) auto

lemma steady_auth_check_step [steady_intros]:
  "faithful_store store \<Longrightarrow> steady (fetches store) (auth_check_step env store rid rv i st)"
  unfolding auth_check_step_def by (intro steady_intros)

lemma steady_iterative_auth_checks [steady_intros]:
  "faithful_store store \<Longrightarrow> steady (fetches store) (iterative_auth_checks env store rid rv ids st)"
  unfolding iterative_auth_checks_def by (intro steady_intros)

lemma steady_find_power_levels [steady_intros]:
  "faithful_store store \<Longrightarrow> steady (fetches store) (find_power_levels store rid aids)"
  by (induction aids) (auto intro!: steady_intros)

lemma steady_mainline_step [steady_intros]:
  "faithful_store store \<Longrightarrow> steady (fetches store) (mainline_step store rid st)"
  unfolding mainline_step_def by (intro steady_intros)

lemma steady_get_mainline [steady_intros]:
  "faithful_store store \<Longrightarrow> steady (fetches store) (get_mainline store rid pl)"
  unfolding get_mainline_def
  by (intro fetching.steady_cbind fetching.steady_cwhile steady_case_prod fetching.steady_basic steady_mainline_step)

lemma steady_depth_step [steady_intros]:
  "faithful_store store \<Longrightarrow> steady (fetches store) (depth_step store rid mm search)"
  unfolding depth_step_def by (cases search) (auto intro!: steady_intros)

lemma steady_get_mainline_depth [steady_intros]:
  "faithful_store store \<Longrightarrow> steady (fetches store) (get_mainline_depth_for_event store event mm)"
  unfolding get_mainline_depth_for_event_def by (intro steady_intros)

lemma steady_add_order [steady_intros]:
  "faithful_store store \<Longrightarrow> steady (fetches store) (add_order store mm i om)"
  unfolding add_order_def by (intro steady_intros)

lemma steady_mainline_sort [steady_intros]:
  "faithful_store store \<Longrightarrow> steady (fetches store) (mainline_sort store rid ids pl)"
  unfolding mainline_sort_def by (intro steady_intros)

section \<open>Conflicted and unconflicted state\<close>

lemma remdups_singleton: "remdups xs = [x] \<longleftrightarrow> xs \<noteq> [] \<and> (\<forall>y \<in> set xs. y = x)"
proof
  assume "remdups xs = [x]"
  then have "set xs = {x}" by (metis set_remdups list.set(1) list.set(2))
  then show "xs \<noteq> [] \<and> (\<forall>y \<in> set xs. y = x)" by auto
next
  assume "xs \<noteq> [] \<and> (\<forall>y \<in> set xs. y = x)"
  then have "set (remdups xs) = {x}" "distinct (remdups xs)" by (auto simp: neq_Nil_conv)
  then show "remdups xs = [x]" by (metis distinct_card card_1_singleton_iff card.empty card_insert_disjoint
        finite.emptyI insert_absorb length_0_conv length_Suc_conv list.set(1) list.set(2) list.set_intros(1) singletonD distinct.simps(2) One_nat_def)
qed

lemma entries_agree: "entries sets k = [Some i] \<longleftrightarrow> sets \<noteq> [] \<and> (\<forall>s \<in> set sets. dget s k = Some i)"
  by (auto simp: entries_def remdups_singleton)

definition agreed :: "state_set list \<Rightarrow> StateKey \<Rightarrow> string option" where
  "agreed sets k = (case entries sets k of [Some i] \<Rightarrow> Some i | _ \<Rightarrow> None)"

lemma agreed_iff: "agreed sets k = Some i \<longleftrightarrow> sets \<noteq> [] \<and> (\<forall>s \<in> set sets. dget s k = Some i)"
  unfolding entries_agree[symmetric] by (auto simp: agreed_def split: list.splits option.splits)

lemma separate_key_agreed:
  "separate_key sets k (u, c) = (case agreed sets k of Some i \<Rightarrow> (dset k i u, c)
     | None \<Rightarrow> (u, dset k (somes (entries sets k)) c))"
  by (auto simp: separate_key_def agreed_def split: list.splits option.splits)

lemma separate_fold:
  assumes "fold (separate_key sets) ks (u, c) = (u', c')"
  shows "dget u' k = (if k \<in> set ks \<and> agreed sets k \<noteq> None then agreed sets k else dget u k)
    \<and> dget c' k = (if k \<in> set ks \<and> agreed sets k = None then Some (somes (entries sets k)) else dget c k)"
  using assms
proof (induction ks arbitrary: u c)
  case (Cons q ks)
  obtain u1 c1 where q: "separate_key sets q (u, c) = (u1, c1)" by fastforce
  with Cons.prems have "fold (separate_key sets) ks (u1, c1) = (u', c')" by simp
  from Cons.IH[OF this] q show ?case by (auto simp: separate_key_agreed split: option.splits if_splits)
qed simp

lemma state_keys_iff: "k \<in> set (state_keys sets) \<longleftrightarrow> (\<exists>s \<in> set sets. dhas s k)"
  by (auto simp: state_keys_def dhas_iff)

lemma agreed_key: "agreed sets k = Some i \<Longrightarrow> k \<in> set (state_keys sets)"
  unfolding state_keys_iff agreed_iff by (cases sets) (auto simp: dhas_def)

lemma seperate_parts:
  assumes "seperate sets = (u, c)"
  shows "dget u k = agreed sets k"
    and "dget c k = (if k \<in> set (state_keys sets) \<and> agreed sets k = None then Some (somes (entries sets k)) else None)"
proof -
  have "agreed sets k = None" if "k \<notin> set (state_keys sets)"
    using that agreed_key by (cases "agreed sets k") auto
  with separate_fold[of sets "state_keys sets" "[]" "[]" u c k] assms
  show "dget u k = agreed sets k"
    "dget c k = (if k \<in> set (state_keys sets) \<and> agreed sets k = None then Some (somes (entries sets k)) else None)"
    by (auto simp: seperate_def)
qed

text \<open>
  C36. The split of the state sets is exact: the unconflicted state holds the entries all sets
  agree on, the conflicted state the other keys that occur in some set, each with exactly the
  events the sets have for it.
\<close>

theorem seperate_exact:
  assumes "seperate sets = (u, c)" and "sets \<noteq> []"
  shows "(\<forall>k i. dget u k = Some i \<longleftrightarrow> (\<forall>s \<in> set sets. dget s k = Some i))
    \<and> (\<forall>k. dhas c k \<longleftrightarrow> (\<exists>s \<in> set sets. dhas s k) \<and> \<not> dhas u k)
    \<and> (\<forall>k ids. dget c k = Some ids \<longrightarrow> set ids = {i. \<exists>s \<in> set sets. dget s k = Some i})"
proof (intro conjI allI impI)
  fix k i ids
  note parts = seperate_parts[OF assms(1), of k]
  show "dget u k = Some i \<longleftrightarrow> (\<forall>s \<in> set sets. dget s k = Some i)" for i
    using parts(1) assms(2) by (simp add: agreed_iff)
  show "dhas c k \<longleftrightarrow> (\<exists>s \<in> set sets. dhas s k) \<and> \<not> dhas u k"
    unfolding state_keys_iff[symmetric] using parts by (simp add: dhas_def)
  have "set (entries sets k) = (\<lambda>s. dget s k) ` set sets" by (simp add: entries_def)
  moreover assume "dget c k = Some ids"
  ultimately show "set ids = {i. \<exists>s \<in> set sets. dget s k = Some i}"
    using parts(2) by (force split: if_splits)
qed

section \<open>What enters the resolved state\<close>

definition usable :: "string \<Rightarrow> EventBase \<Rightarrow> bool" where
  "usable rid a \<longleftrightarrow> ev_rejected_reason a = None \<and> room_id a = Inr rid"

text \<open>
  An entry that passed the auth checks: the event is known, belongs to the key, was not rejected
  and is allowed by auth events that are themselves usable.
\<close>

definition authorised :: "auth_env \<Rightarrow> string \<Rightarrow> event_map \<Rightarrow> StateKey \<Rightarrow> string \<Rightarrow> bool" where
  "authorised env rid em k i \<longleftrightarrow> (\<exists>e auths. dget em i = Some e \<and> ev_type e = fst k \<and> ev_state_key e = Some (snd k)
     \<and> ev_rejected_reason e = None \<and> ok (check_state_dependent_auth_rules env e auths)
     \<and> list_all (usable rid) auths)"

lemma authorised_grows: "authorised env rid em k i \<Longrightarrow> grows em em' \<Longrightarrow> authorised env rid em' k i"
  unfolding authorised_def by (meson growsD)

lemma dvalues_dset: "set (dvalues (dset k v d)) \<subseteq> insert v (set (dvalues d))"
  by (induction d) auto

lemma usable_dset: "list_all (usable rid) (dvalues d) \<Longrightarrow> usable rid v \<Longrightarrow> list_all (usable rid) (dvalues (dset k v d))"
  using dvalues_dset[of k v d] unfolding list_all_iff by blast

lemma add_auth_event_usable:
  assumes "faithful_store store" "returns (add_auth_event store rid aid d) em d' em'"
    "list_all (usable rid) (dvalues d)"
  shows "list_all (usable rid) (dvalues d')"
proof -
  obtain ev t where ev: "returns (get_event_opt store rid aid True) em ev t"
    and r: "returns (case ev of None \<Rightarrow> cret d | Some e \<Rightarrow> if ev_rejected_reason e = None
       then cbind (clift (state_key e)) (\<lambda>k. cret (dset (ev_type e, k) e d)) else cret d) t d' em'"
    using assms(2) unfolding add_auth_event_def returns_cbind by blast
  show ?thesis
  proof (cases ev)
    case (Some e)
    with r get_event_opt_returns(3)[OF assms(1) ev] assms(3) show ?thesis
      by (auto simp: usable_def split: if_splits intro!: usable_dset)
  qed (use r assms(3) in simp)
qed

lemma add_resolved_event_usable:
  assumes "faithful_store store" "returns (add_resolved_event store rid st k d) em d' em'"
    "list_all (usable rid) (dvalues d)"
  shows "list_all (usable rid) (dvalues d')"
proof (cases "\<exists>sk i. snd k = JStr sk \<and> dget st (fst k, sk) = Some i")
  case True
  then obtain t sk i where k: "k = (t, JStr sk)" "dget st (t, sk) = Some i" by (cases k) auto
  with assms(2) obtain e t where e: "returns (get_event store rid i) em e t"
    "if ev_rejected_reason e = None then dget t i = Some e \<longrightarrow> d' = dset (fst k, sk) e d else d' = d"
    by (auto simp: add_resolved_event_def split: if_splits)
  with get_event_returns[OF assms(1) e(1)] assms(3) show ?thesis
    by (auto simp: usable_def split: if_splits intro!: usable_dset)
qed (use assms(2,3) in \<open>auto simp: add_resolved_event_def split: prod.splits json.splits option.splits\<close>)

lemma gather_auth_events_usable:
  assumes "faithful_store store" "returns (gather_auth_events store rid rv event st) em d em'"
  shows "list_all (usable rid) (dvalues d)"
proof -
  obtain aids d1 em1 keys where
    1: "returns (cfold (add_auth_event store rid) aids []) em d1 em1"
    and 2: "returns (cfold (add_resolved_event store rid st) keys d1) em1 d em'"
    using assms(2) by (auto simp: gather_auth_events_def)
  have "list_all (usable rid) (dvalues d1)"
    by (rule cfold_invariant[OF 1, of "\<lambda>d _. list_all (usable rid) (dvalues d)"])
      (auto intro: add_auth_event_usable[OF assms(1)])
  then show ?thesis
    by (rule cfold_invariant[OF 2, of "\<lambda>d _. list_all (usable rid) (dvalues d)"])
      (auto intro: add_resolved_event_usable[OF assms(1)])
qed

lemma auth_check_step_returns:
  assumes "faithful_store store" "returns (auth_check_step env store rid rv i st) em st' em'"
  shows "st' = st \<or> (\<exists>k. st' = dset k i st \<and> authorised env rid em' k i)"
proof -
  obtain e d where e: "dget em i = Some e" "returns (gather_auth_events store rid rv e st) em d em'"
    "st' = st \<or> (ev_rejected_reason e = None \<and> ok (check_state_dependent_auth_rules env e (dvalues d))
       \<and> (\<exists>k. ev_state_key e = Some k \<and> st' = dset (ev_type e, k) i st))"
    using assms(2) by (auto simp: auth_check_step_def ok_def split: if_splits sum.splits)
  have "dget em' i = Some e"
    using steady_grows[OF steady_gather_auth_events[OF assms(1)] e(2)] e(1) by (rule growsD)
  with e(3) gather_auth_events_usable[OF assms(1) e(2)] show ?thesis
    by (auto simp: authorised_def)
qed

lemma iterative_auth_checks_returns:
  assumes "faithful_store store" "returns (iterative_auth_checks env store rid rv ids base) em st em'"
    "dget st k = Some i"
  shows "dget base k = Some i \<or> authorised env rid em' k i"
proof -
  let ?P = "\<lambda>st em. \<forall>k i. dget st k = Some i \<longrightarrow> dget base k = Some i \<or> authorised env rid em k i"
  have "?P st em'"
  proof (rule cfold_invariant[OF assms(2)[unfolded iterative_auth_checks_def], of ?P])
    fix x a t a' t'
    assume P: "?P a t" and r: "returns (auth_check_step env store rid rv x a) t a' t'"
    have "grows t t'" using steady_grows[OF steady_auth_check_step[OF assms(1)] r] .
    with P have P': "?P a t'" by (meson authorised_grows)
    with auth_check_step_returns[OF assms(1) r] show "?P a' t'"
      by (elim disjE exE) (simp_all split: if_splits)
  qed simp
  with assms(3) show ?thesis by blast
qed

lemma resolve_conflicts_returns:
  assumes "faithful_store store" "returns (resolve_conflicts env store rid rv unc fcs) em st em'"
    "wf_dict unc"
  shows "(\<forall>k i. dget unc k = Some i \<longrightarrow> dget st k = Some i)
    \<and> (\<forall>k i. dget st k = Some i \<longrightarrow> dget unc k = Some i \<or> authorised env rid em' k i)"
proof -
  obtain pe em1 st1 em2 sl em3 st2 where
    1: "returns (iterative_auth_checks env store rid rv pe
          (if state_res rv = STATE_RES_V2_1 then [] else unc)) em1 st1 em2"
    and 2: "returns (mainline_sort store rid (filter (\<lambda>i. i \<notin> set pe) fcs) (dget st1 POWER_KEY)) em2 sl em3"
    and 3: "returns (iterative_auth_checks env store rid rv sl st1) em3 st2 em'"
    and st: "st = dupdate st2 unc"
    using assms(2) unfolding resolve_conflicts_def Let_def by auto
  have g: "grows em2 em'"
    using steady_grows[OF steady_mainline_sort[OF assms(1)] 2] steady_grows[OF steady_iterative_auth_checks[OF assms(1)] 3]
    by (rule growing.preorder_trans)
  have "dget unc k = Some i \<or> authorised env rid em' k i" if "dget st2 k = Some i" for k i
    using iterative_auth_checks_returns[OF assms(1) 3 that] iterative_auth_checks_returns[OF assms(1) 1, of k i]
      authorised_grows[OF _ g, of env rid k i] by (auto split: if_splits)
  then show ?thesis unfolding st dget_dupdate[OF assms(3)] by (fastforce split: option.splits)
qed

lemma wf_seperate: "seperate sets = (u, c) \<Longrightarrow> wf_dict u"
proof -
  have "wf_dict u' " if "fold (separate_key sets) ks (u, c) = (u', c')" "wf_dict u" for ks u c u' c'
    using that
  proof (induction ks arbitrary: u c)
    case (Cons k ks)
    obtain u1 c1 where k: "separate_key sets k (u, c) = (u1, c1)" by fastforce
    then have "wf_dict u1" using Cons.prems(2) by (auto simp: separate_key_agreed split: option.splits)
    with Cons.IH[of u1 c1] Cons.prems(1) k show ?case by simp
  qed simp
  then show "seperate sets = (u, c) \<Longrightarrow> wf_dict u" by (simp add: seperate_def)
qed

lemma resolve_returns:
  assumes "faithful_store store" "returns (resolve_events_with_store env store rid rv sets) em st em'"
    "seperate sets = (u, c)"
  shows "(\<forall>k i. dget u k = Some i \<longrightarrow> dget st k = Some i)
    \<and> (\<forall>k i. dget st k = Some i \<longrightarrow> dget u k = Some i \<or> authorised env rid em' k i)"
proof (cases "c = []")
  case True
  with assms show ?thesis by (simp add: resolve_events_with_store_def)
next
  case False
  with assms(2,3) obtain em1 fcs where "returns (resolve_conflicts env store rid rv u fcs) em1 st em'"
    by (auto simp: resolve_events_with_store_def Let_def)
  from resolve_conflicts_returns[OF assms(1) this wf_seperate[OF assms(3)]] show ?thesis .
qed


end
