(* ===== verification/State_V2_Order.thy ===== *)
theory State_V2_Order
  imports State_V2_Props
begin

text \<open>
  The order in which state resolution applies the events: the graph of conflicted power events and
  their auth events is closed and complete, its construction ends, and the sort puts every event
  after the auth events it depends on, higher power levels first.
\<close>

section \<open>Graphs under construction\<close>

lemma wf_graph_iff: "wf_graph g \<longleftrightarrow> wf_dict g \<and> distinct_edges g"
proof
  show "wf_graph g \<Longrightarrow> wf_dict g \<and> distinct_edges g"
    using wf_graph_distinct_edges by (auto simp: wf_graph_def)
  assume g: "wf_dict g \<and> distinct_edges g"
  have "distinct es" if "(n, es) \<in> set g" for n es
  proof -
    from that g have "dget g n = Some es" using in_dict_iff[of g n es] by simp
    moreover from g have "distinct (dget_or g n [])" by (simp add: distinct_edges_def)
    ultimately show ?thesis by (simp add: dget_or_def)
  qed
  with g show "wf_graph g" by (auto simp: wf_graph_def list_all_iff)
qed

lemma nodes_dset: "nodes (dset n es g) = insert n (nodes g)"
  using dhas_dset[of n es g] unfolding nodes_def dhas_iff by blast

lemma nodes_iff: "n \<in> nodes g \<longleftrightarrow> dhas g n"
  by (simp add: nodes_def dhas_iff)

lemma nodes_add_edge [simp]: "nodes (add_edge n m g) = insert n (nodes g)"
  by (simp add: add_edge_def nodes_dset)

lemma nodes_add_node [simp]: "nodes (add_node n g) = insert n (nodes g)"
  by (auto simp: add_node_def nodes_dset nodes_iff)

lemma wf_add_edge: "wf_graph g \<Longrightarrow> wf_graph (add_edge n m g)"
  using distinct_add_edge[of g n m] by (simp add: wf_graph_iff add_edge_def)

lemma wf_add_node: "wf_graph g \<Longrightarrow> wf_graph (add_node n g)"
  using distinct_add_node[of g n] by (auto simp: wf_graph_iff add_node_def)

lemma add_auth_edge_apply:
  "add_auth_edge fcs n a (stack, g) = (if a \<in> set fcs then (if dhas g a then stack else a # stack, add_edge n a g)
     else (stack, g))"
  by (simp add: add_auth_edge_def)

lemma add_auth_edges:
  assumes "fold (add_auth_edge fcs n) aids (stack, g) = (stack', g')" "n \<in> nodes g" "wf_graph g"
  shows "wf_graph g' \<and> nodes g' = nodes g
    \<and> (\<forall>x. edges g' x = (if x = n then edges g n \<union> (set aids \<inter> set fcs) else edges g x))
    \<and> (\<exists>new. stack' = new @ stack \<and> set new = set aids \<inter> set fcs - nodes g)"
  using assms
proof (induction aids arbitrary: stack g)
  case (Cons a aids)
  show ?case
  proof (cases "a \<in> set fcs")
    case True
    let ?s = "if dhas g a then stack else a # stack"
    have "fold (add_auth_edge fcs n) aids (?s, add_edge n a g) = (stack', g')"
      using Cons.prems True by (simp add: add_auth_edge_apply)
    from Cons.IH[OF this] Cons.prems have IH: "wf_graph g'" "nodes g' = nodes g"
      "\<And>x. edges g' x = (if x = n then insert a (edges g n) \<union> (set aids \<inter> set fcs) else edges g x)"
      "\<exists>new. stack' = new @ ?s \<and> set new = set aids \<inter> set fcs - nodes g"
      by (auto simp: wf_add_edge insert_absorb)
    from IH(4) have "\<exists>new. stack' = new @ stack \<and> set new = set (a # aids) \<inter> set fcs - nodes g"
      using True nodes_iff[of a g] by (cases "dhas g a") auto
    with IH True show ?thesis by auto
  next
    case False
    then have "fold (add_auth_edge fcs n) aids (stack, g) = (stack', g')"
      using Cons.prems by (simp add: add_auth_edge_apply)
    from Cons.IH[OF this Cons.prems(2,3)] False show ?thesis by simp
  qed
qed auto

section \<open>The auth relation\<close>

definition auths :: "event_map \<Rightarrow> string \<Rightarrow> string set" where
  "auths em i = (case dget em i of None \<Rightarrow> {}
     | Some e \<Rightarrow> (case auth_event_ids e of Inl _ \<Rightarrow> {} | Inr aids \<Rightarrow> set aids))"

lemma auths_grows: "grows em em' \<Longrightarrow> dhas em i \<Longrightarrow> auths em' i = auths em i"
  by (auto simp: auths_def dhas_def dest: growsD)

lemma dhas_grows: "grows em em' \<Longrightarrow> dhas em i \<Longrightarrow> dhas em' i"
  by (auto simp: dhas_def dest: growsD)

text \<open>
  The invariant of the loop: the nodes are known events with all their conflicted auth events as
  edges, and an edge that does not lead to a node leads to an event higher up on the stack than its
  source, if its source is on the stack at all.
\<close>

definition node_ok :: "string list \<Rightarrow> string list \<Rightarrow> string graph \<Rightarrow> event_map \<Rightarrow> string \<Rightarrow> bool" where
  "node_ok fcs stack g em n \<longleftrightarrow> dhas em n \<and> edges g n = auths em n \<inter> set fcs
     \<and> auths em n \<inter> set fcs \<subseteq> nodes g \<union> set stack
     \<and> (\<forall>p q. stack = p @ n # q \<longrightarrow> auths em n \<inter> set fcs \<subseteq> nodes g \<union> set p)"

definition graph_inv :: "string list \<Rightarrow> string list \<times> string graph \<Rightarrow> event_map \<Rightarrow> bool" where
  "graph_inv fcs = (\<lambda>(stack, g) em. wf_graph g \<and> set stack \<subseteq> set fcs \<and> nodes g \<subseteq> set fcs
     \<and> (\<forall>n \<in> nodes g. node_ok fcs stack g em n))"

lemma node_ok_grows: "node_ok fcs stack g em n \<Longrightarrow> grows em em' \<Longrightarrow> node_ok fcs stack g em' n"
  by (simp add: node_ok_def auths_grows dhas_grows)

lemma graph_inv_grows: "graph_inv fcs sg em \<Longrightarrow> grows em em' \<Longrightarrow> graph_inv fcs sg em'"
  by (auto simp: graph_inv_def intro: node_ok_grows split: prod.splits)

lemma graph_step_inv:
  assumes store: "faithful_store store" and inv: "graph_inv fcs (n # rest, g) em"
    and st: "returns (graph_step store rid fcs (n # rest, g)) em (stack', g') em'"
  shows "graph_inv fcs (stack', g') em'" and "nodes g' = insert n (nodes g)"
    and "n \<in> nodes g \<Longrightarrow> stack' = rest"
proof -
  from st obtain e aids where e: "returns (get_event store rid n) em e em'" "auth_event_ids e = Inr aids"
    and f: "fold (add_auth_edge fcs n) aids (rest, add_node n g) = (stack', g')"
    by (auto simp: graph_step_def)
  note em' = get_event_returns[OF store e(1)]
  have an: "auths em' n = set aids" using em'(2) e(2) by (simp add: auths_def)
  from graph_inv_grows[OF inv fetches_grows[OF em'(1)]] have i: "wf_graph g" "set rest \<subseteq> set fcs" "n \<in> set fcs" "nodes g \<subseteq> set fcs"
    "\<And>m. m \<in> nodes g \<Longrightarrow> node_ok fcs (n # rest) g em' m"
    by (auto simp: graph_inv_def)
  have "n \<in> nodes (add_node n g)" by simp
  from add_auth_edges[OF f this wf_add_node[OF i(1)]]
  obtain new where new: "wf_graph g'" "nodes g' = insert n (nodes g)"
    "\<And>x. edges g' x = (if x = n then edges g n \<union> (set aids \<inter> set fcs) else edges g x)"
    "stack' = new @ rest" "set new = set aids \<inter> set fcs - insert n (nodes g)"
    by auto
  have "edges g n \<subseteq> set aids \<inter> set fcs"
  proof (cases "n \<in> nodes g")
    case True
    from i(5)[OF this] an show ?thesis by (auto simp: node_ok_def)
  qed (auto dest: edges_nodes)
  with new(3)[of n] an have en: "edges g' n = auths em' n \<inter> set fcs" by auto
  have "node_ok fcs stack' g' em' m" if m: "m \<in> nodes g'" for m
    unfolding node_ok_def
  proof (intro conjI allI impI)
    show "dhas em' m" "edges g' m = auths em' m \<inter> set fcs"
      using m i(5)[of m] en new(2,3) em'(2) by (cases "m = n"; auto simp: node_ok_def dhas_def)+
    show "auths em' m \<inter> set fcs \<subseteq> nodes g' \<union> set stack'"
      using m i(5)[of m] an new(2,4,5) by (cases "m = n") (auto simp: node_ok_def)
    fix p q
    assume s: "stack' = p @ m # q"
    have "m \<notin> set new" using m new by auto
    with s new(4) obtain p' where p': "p = new @ p'" "rest = p' @ m # q"
      by (auto simp: append_eq_append_conv2 append_eq_Cons_conv Cons_eq_append_conv)
    show "auths em' m \<inter> set fcs \<subseteq> nodes g' \<union> set p"
    proof (cases "m = n")
      case True
      then show ?thesis using an new(2,5) p'(1) by auto
    next
      case False
      then have "node_ok fcs (n # rest) g em' m" using m new(2) i(5) by auto
      moreover have "n # rest = (n # p') @ m # q" using p'(2) by simp
      ultimately have "auths em' m \<inter> set fcs \<subseteq> nodes g \<union> set (n # p')" unfolding node_ok_def by blast
      then show ?thesis using new(2) p'(1) by auto
    qed
  qed
  with new i show "graph_inv fcs (stack', g') em'" by (auto simp: graph_inv_def)
  show "nodes g' = insert n (nodes g)" using new(2) .
  show "stack' = rest" if "n \<in> nodes g"
  proof -
    have "n # rest = [] @ n # rest" by simp
    with i(5)[OF that] have "auths em' n \<inter> set fcs \<subseteq> nodes g" unfolding node_ok_def by fastforce
    with new(5) an have "set new = {}" by auto
    with new(4) show ?thesis by simp
  qed
qed

lemma fold_add_stack: "fold (add_auth_edge fcs n) aids (stack, g) = (stack', g') \<Longrightarrow> \<exists>new. stack' = new @ stack"
  by (induction aids arbitrary: stack g) (force simp: add_auth_edge_apply split: if_splits)+

lemma graph_step_stack: "returns (graph_step store rid fcs (n # rest, g)) em (stack', g') em' \<Longrightarrow> \<exists>new. stack' = new @ rest"
  by (auto simp: graph_step_def dest: fold_add_stack[OF sym])

lemma graph_inv_start:
  "graph_inv fcs ([], g) em \<Longrightarrow> i \<in> set fcs \<Longrightarrow> graph_inv fcs ([i], g) em"
  by (auto simp: graph_inv_def node_ok_def)

lemma add_chain_graph:
  assumes "faithful_store store" "graph_inv fcs ([], g) em" "i \<in> set fcs"
    "returns (add_event_and_auth_chain_to_graph store rid fcs i g) em g' em'"
  shows "graph_inv fcs ([], g') em'" "insert i (nodes g) \<subseteq> nodes g'"
proof -
  obtain stack where w: "returns (cwhile (\<lambda>(stack, _). stack \<noteq> []) (graph_step store rid fcs) ([i], g)) em (stack, g') em'"
    using assms(4) by (auto simp: add_event_and_auth_chain_to_graph_def)
  let ?P = "\<lambda>sg em. graph_inv fcs sg em \<and> nodes g \<subseteq> nodes (snd sg) \<and> i \<in> nodes (snd sg) \<union> set (fst sg)"
  have "?P (stack, g') em' \<and> \<not> (case (stack, g') of (stack, _) \<Rightarrow> stack \<noteq> [])"
  proof (rule cwhile_invariant[OF w, of ?P])
    show "?P ([i], g) em" using graph_inv_start[OF assms(2,3)] by simp
    fix y t y' t'
    assume P: "?P y t" and b: "case y of (stack, _) \<Rightarrow> stack \<noteq> []" and r: "returns (graph_step store rid fcs y) t y' t'"
    obtain n rest h where y: "y = (n # rest, h)" using b by (cases y; cases "fst y") auto
    obtain s' h' where y': "y' = (s', h')" by (cases y')
    note st = graph_step_inv[OF assms(1) _ r[unfolded y y']]
    from graph_step_stack[OF r[unfolded y y']] obtain new where "s' = new @ rest" by blast
    then show "?P y' t'" using st P by (auto simp: y y')
  qed
  then show "graph_inv fcs ([], g') em'" "insert i (nodes g) \<subseteq> nodes g'" by auto
qed

text \<open>
  The construction always ends: a step either makes a new node or leaves the stack shorter.
\<close>

lemma ends_get_event_opt [ends_intros]: "ends (get_event_opt store rid i b) em"
  unfolding get_event_opt_def Let_def by (intro ends_intros)

lemma ends_get_event [ends_intros]: "ends (get_event store rid i) em"
  unfolding get_event_def by (intro ends_intros)

lemma ends_graph_step [ends_intros]: "ends (graph_step store rid fcs sg) em"
  unfolding graph_step_def by (intro ends_intros)

lemma ends_add_chain:
  assumes "faithful_store store" "graph_inv fcs ([], g) em" "i \<in> set fcs"
  shows "ends (add_event_and_auth_chain_to_graph store rid fcs i g) em"
proof -
  let ?f = "\<lambda>((stack, g), _ :: event_map). (card (set fcs - nodes g), length stack)"
  have "ends (cwhile (\<lambda>(stack, _). stack \<noteq> []) (graph_step store rid fcs) ([i], g)) em"
  proof (rule ends_cwhile[where P = "graph_inv fcs" and r = "inv_image (less_than <*lex*> less_than) ?f"])
    show "graph_inv fcs ([i], g) em" by (rule graph_inv_start[OF assms(2,3)])
    fix y t y' t'
    assume P: "graph_inv fcs y t" and b: "case y of (stack, _) \<Rightarrow> stack \<noteq> []"
      and r: "returns (graph_step store rid fcs y) t y' t'"
    obtain n rest h where y: "y = (n # rest, h)" using b by (cases y; cases "fst y") auto
    obtain s' h' where y': "y' = (s', h')" by (cases y')
    note st = graph_step_inv[OF assms(1) P[unfolded y] r[unfolded y y']]
    have n: "n \<in> set fcs" using P by (simp add: y graph_inv_def)
    have "card (set fcs - nodes h') < card (set fcs - nodes h)" if "n \<notin> nodes h"
      using that n st(2) by (intro psubset_card_mono) auto
    with st show "graph_inv fcs y' t' \<and> ((y', t'), (y, t)) \<in> inv_image (less_than <*lex*> less_than) ?f"
      by (cases "n \<in> nodes h") (auto simp: y y' insert_absorb)
  qed (auto intro: ends_graph_step)
  then show ?thesis unfolding add_event_and_auth_chain_to_graph_def
    by (rule ends_cbind) (intro ends_intros)
qed

lemma build_graph:
  assumes "faithful_store store" "set ids \<subseteq> set fcs"
    "returns (cfold (add_event_and_auth_chain_to_graph store rid fcs) ids g) em g' em'" "graph_inv fcs ([], g) em"
  shows "graph_inv fcs ([], g') em' \<and> set ids \<union> nodes g \<subseteq> nodes g'"
  using assms(2-)
proof (induction ids arbitrary: g em)
  case (Cons i ids)
  then obtain g1 em1 where r: "returns (add_event_and_auth_chain_to_graph store rid fcs i g) em g1 em1"
    "returns (cfold (add_event_and_auth_chain_to_graph store rid fcs) ids g1) em1 g' em'" by auto
  note g1 = add_chain_graph[OF assms(1) Cons.prems(3) _ r(1)]
  from Cons.IH[OF _ r(2) g1(1)] Cons.prems(1) g1(2) show ?case by auto
qed simp

lemma ends_build_graph:
  assumes "faithful_store store" "set ids \<subseteq> set fcs" "graph_inv fcs ([], g) em"
  shows "ends (cfold (add_event_and_auth_chain_to_graph store rid fcs) ids g) em"
  by (rule ends_cfold[where P = "\<lambda>g em. graph_inv fcs ([], g) em"])
    (use assms in \<open>auto intro: ends_add_chain add_chain_graph(1)\<close>)

lemma graph_inv_empty: "graph_inv fcs ([], []) em"
  by (simp add: graph_inv_def wf_graph_def nodes_def)

lemma graph_invD:
  assumes "graph_inv fcs ([], g) em"
  shows "wf_graph g" and "nodes g \<subseteq> set fcs"
    and "\<And>n. n \<in> nodes g \<Longrightarrow> edges g n = auths em n \<inter> set fcs \<and> edges g n \<subseteq> nodes g"
  using assms by (auto simp: graph_inv_def node_ok_def)

section \<open>The power events\<close>

text \<open>A power level the code computed for an event at some point of the run from \<open>em\<close> to \<open>em'\<close>.\<close>

definition computed_level :: "StateResolutionStore \<Rightarrow> string \<Rightarrow> event_map \<Rightarrow> event_map \<Rightarrow> string \<Rightarrow> int \<Rightarrow> bool" where
  "computed_level store rid em em' n pl \<longleftrightarrow>
     (\<exists>em1 em2. grows em em1 \<and> returns (get_power_level_for_sender store rid n) em1 pl em2 \<and> grows em2 em')"

lemma computed_level_before: "grows em0 em \<Longrightarrow> computed_level store rid em em' n pl \<Longrightarrow> computed_level store rid em0 em' n pl"
  unfolding computed_level_def by (meson growing.preorder_trans)

lemma computed_level_grows: "computed_level store rid em em' n pl \<Longrightarrow> grows em' em'' \<Longrightarrow> computed_level store rid em em'' n pl"
  unfolding computed_level_def by (meson growing.preorder_trans)

lemma level_table:
  assumes "faithful_store store"
    and "returns (cfold (\<lambda>i d. cbind (get_power_level_for_sender store rid i) (\<lambda>pl. cret (dset i pl d))) is []) em pls em'"
    and "dget pls n = Some pl"
  shows "computed_level store rid em em' n pl"
proof -
  let ?P = "\<lambda>d t. grows em t \<and> (\<forall>n pl. dget d n = Some pl \<longrightarrow> computed_level store rid em t n pl)"
  have "?P pls em'"
  proof (rule cfold_invariant[OF assms(2), of ?P])
    show "?P [] em" by (simp add: growing.preorder_refl)
    fix x a t a' t'
    assume P: "?P a t"
      and r: "returns (cbind (get_power_level_for_sender store rid x) (\<lambda>pl. cret (dset x pl a))) t a' t'"
    then obtain pl where pl: "returns (get_power_level_for_sender store rid x) t pl t'" "a' = dset x pl a" by auto
    have g: "grows t t'" using steady_grows[OF steady_get_power_level_for_sender[OF assms(1)] pl(1)] .
    have "computed_level store rid em t' x pl"
      unfolding computed_level_def using P pl(1) growing.preorder_refl by blast
    with P g pl(2) show "?P a' t'"
      by (auto intro: growing.preorder_trans computed_level_grows split: if_splits)
  qed
  with assms(3) show ?thesis by blast
qed

lemma order_table:
  assumes "rmap (\<lambda>n. rbind (get_power_order pls em n) (\<lambda>k. Inr (n, k))) ns = Inr table" "n \<in> set ns"
  shows "\<exists>e pl. dget em n = Some e \<and> dget pls n = Some pl \<and> dget table n = Some (- pl, ev_origin_server_ts e, n)"
  using assms
proof (induction ns arbitrary: table)
  case (Cons m ns)
  then show ?case by (auto simp: get_power_order_def)
qed simp

text \<open>
  C7. The power events are applied in reverse topological order: the sorted list contains every
  given event and only conflicted ones, each once and after all of its auth events in the
  conflicted set; among the events that could come next the one whose sender has the highest power
  level comes first, then the oldest, then the one with the least identifier.
\<close>

theorem power_events_sorted:
  assumes "faithful_store store" and "set ids \<subseteq> set fcs"
    and "returns (reverse_topological_power_sort store rid ids fcs) em xs em'"
    and "wf {(a, n). n \<in> set fcs \<and> a \<in> auths em' n \<inter> set fcs}"
  shows "distinct xs \<and> set ids \<subseteq> set xs \<and> set xs \<subseteq> set fcs
    \<and> (\<forall>as n bs. xs = as @ n # bs \<longrightarrow> auths em' n \<inter> set fcs \<subseteq> set as)
    \<and> (\<exists>pl. (\<forall>n \<in> set xs. computed_level store rid em em' n (pl n))
         \<and> (\<forall>as n bs m. xs = as @ n # bs \<and> m \<in> set bs \<and> auths em' m \<inter> set fcs \<subseteq> set as \<longrightarrow>
              (- pl n, ev_origin_server_ts (the (dget em' n)), n) \<le> (- pl m, ev_origin_server_ts (the (dget em' m)), m)))"
proof -
  obtain g em1 pls table where g: "returns (cfold (add_event_and_auth_chain_to_graph store rid fcs) ids []) em g em1"
    and pls: "returns (cfold (\<lambda>i d. cbind (get_power_level_for_sender store rid i) (\<lambda>pl. cret (dset i pl d))) (dkeys g) []) em1 pls em'"
    and table: "rmap (\<lambda>n. rbind (get_power_order pls em' n) (\<lambda>k. Inr (n, k))) (dkeys g) = Inr table"
    and xs: "lexicographical_topological_sort g (\<lambda>n. dget_or table n (0, 0, [])) = Some xs"
    using assms(3) by (auto simp: reverse_topological_power_sort_def sort_by_table_def split: option.splits)
  let ?key = "\<lambda>n. dget_or table n (0, 0, [])"
  have grow: "grows em em1" "grows em1 em'"
    using steady_grows[of store "cfold (add_event_and_auth_chain_to_graph store rid fcs) ids []", OF _ g]
      steady_grows[of store "cfold (\<lambda>i d. cbind (get_power_level_for_sender store rid i) (\<lambda>pl. cret (dset i pl d))) (dkeys g) []", OF _ pls]
    by (auto intro: steady_intros assms(1))
  have b: "graph_inv fcs ([], g) em'" "set ids \<subseteq> nodes g"
    using build_graph[OF assms(1,2) g graph_inv_empty] graph_inv_grows[OF _ grow(2)] by blast+
  note gi = graph_invD[OF b(1)]
  have gr: "greedy g ?key {} xs" using sort_greedy[OF gi(1), of ?key] xs by auto
  have "{(m, n). n \<in> nodes g \<and> m \<in> edges g n} \<subseteq> {(a, n). n \<in> set fcs \<and> a \<in> auths em' n \<inter> set fcs}"
    using gi(2,3) by auto
  then have set: "set xs = nodes g"
    using greedy_complete[OF gr] wf_subset[OF assms(4)] gi(3) by blast
  have dist: "distinct xs" using greedy_distinct[OF gr] by simp
  define pl where "pl n = the (dget pls n)" for n
  have key: "?key n = (- pl n, ev_origin_server_ts (the (dget em' n)), n) \<and> computed_level store rid em em' n (pl n)"
    if node: "n \<in> nodes g" for n
  proof -
    obtain e l where "dget em' n = Some e" "dget pls n = Some l" "dget table n = Some (- l, ev_origin_server_ts e, n)"
      using order_table[OF table] node unfolding nodes_def by blast
    with computed_level_before[OF grow(1) level_table[OF assms(1) pls]] show ?thesis
      by (simp add: pl_def dget_or_def)
  qed
  have after: "auths em' n \<inter> set fcs \<subseteq> set as" if "xs = as @ n # bs" for as n bs
    using greedy_topological[OF gr that] gi(3)[of n] set that by auto
  have first: "(- pl n, ev_origin_server_ts (the (dget em' n)), n) \<le> (- pl m, ev_origin_server_ts (the (dget em' m)), m)"
    if h: "xs = as @ n # bs" "m \<in> set bs" "auths em' m \<inter> set fcs \<subseteq> set as" for as n bs m
  proof -
    have "m \<in> nodes g" "n \<in> nodes g" using set h by auto
    moreover from this have "m \<in> available g ({} \<union> set as)" using gi(3)[of m] h dist by (auto simp: available_def)
    ultimately show ?thesis using greedy_least[OF gr[unfolded h(1)], of m] key by auto
  qed
  show ?thesis
    using dist set gi(2) b(2) key after first by (intro conjI exI[of _ pl] allI impI ballI) auto
qed

end
