(* ===== verification/State_V2_Termination.thy ===== *)
theory State_V2_Termination
  imports State_V2_Order "HOL-Library.Multiset"
begin

text \<open>
  State resolution comes to an end: the loops that walk auth events make progress when no event is
  among its own auth ancestors, and every other loop runs over a list that is given.
\<close>

section \<open>Code without unbounded loops\<close>

lemma ends_cfold_all [ends_intros]: "(\<And>x a t. ends (f x a) t) \<Longrightarrow> ends (cfold f xs acc) s"
  by (rule ends_cfold[where P = "\<lambda>_ _. True"]) auto

lemma ends_find_pl_and_create [ends_intros]: "ends (find_pl_and_create store rid aid acc) em"
  unfolding find_pl_and_create_def by (intro ends_intros)

lemma ends_creator_level [ends_intros]: "ends (creator_level store rid event aids) em"
  by (induction aids arbitrary: em) (auto simp: Let_def intro!: ends_intros)

lemma ends_get_power_level_for_sender [ends_intros]: "ends (get_power_level_for_sender store rid i) em"
  unfolding get_power_level_for_sender_def by (intro ends_intros)

lemma ends_add_auth_event [ends_intros]: "ends (add_auth_event store rid aid acc) em"
  unfolding add_auth_event_def by (intro ends_intros)

lemma ends_add_resolved_event [ends_intros]: "ends (add_resolved_event store rid st k acc) em"
  unfolding add_resolved_event_def by (cases k; cases "snd k") (auto intro!: ends_intros)

lemma ends_auth_check_step [ends_intros]: "ends (auth_check_step env store rid rv i st) em"
  unfolding auth_check_step_def gather_auth_events_def by (intro ends_intros)

lemma ends_iterative_auth_checks [ends_intros]: "ends (iterative_auth_checks env store rid rv ids st) em"
  unfolding iterative_auth_checks_def by (intro ends_intros)

lemma ends_find_power_levels [ends_intros]: "ends (find_power_levels store rid aids) em"
  by (induction aids arbitrary: em) (auto intro!: ends_intros)

lemma ends_mainline_step [ends_intros]: "ends (mainline_step store rid st) em"
  unfolding mainline_step_def by (intro ends_intros)

lemma ends_depth_step [ends_intros]: "ends (depth_step store rid m search) em"
  unfolding depth_step_def by (cases search) (auto intro!: ends_intros)

lemma ends_chain_step [ends_intros]: "ends (chain_step u st) em"
  unfolding chain_step_def by (intro ends_intros)

lemma ends_forward_step [ends_intros]: "ends (forward_step g st) em"
  unfolding forward_step_def by (intro ends_intros)

text \<open>The sort of the power events ends whatever their auth events are, cyclic or not.\<close>

lemma ends_reverse_topological_power_sort:
  assumes "faithful_store store" "set ids \<subseteq> set fcs"
  shows "ends (reverse_topological_power_sort store rid ids fcs) em"
  unfolding reverse_topological_power_sort_def
proof (rule ends_cbind)
  show "ends (cfold (add_event_and_auth_chain_to_graph store rid fcs) ids []) em"
    by (rule ends_build_graph[OF assms graph_inv_empty])
  fix g em1
  assume "returns (cfold (add_event_and_auth_chain_to_graph store rid fcs) ids []) em g em1"
  then have "wf_graph g" using build_graph[OF assms _ graph_inv_empty] graph_invD(1) by blast
  from sort_greedy[OF this] have "ends (sort_by_table g table k) em2" for table and k :: power_order and em2
    by (force simp: ends_def sort_by_table_def split: option.splits)
  then show "ends (cbind (cfold (\<lambda>event_id event_to_pl.
              cbind (get_power_level_for_sender store rid event_id) (\<lambda>pl.
              cret (dset event_id pl event_to_pl))) (dkeys g) []) (\<lambda>event_to_pl.
     cbind cget (\<lambda>event_map.
     cbind (clift (rmap (\<lambda>n. rbind (get_power_order event_to_pl event_map n) (\<lambda>k. Inr (n, k))) (dkeys g)))
       (\<lambda>table. sort_by_table g table (0, 0, []))))) em1"
    by (intro ends_intros)
qed

section \<open>Ranked events\<close>

text \<open>
  The auth events of an event come before it: \<open>rank\<close> is any measure that witnesses it, the depth of
  the event in its auth chain for example. Events are filed under their own identifiers.
\<close>

definition ranked :: "(string \<Rightarrow> nat) \<Rightarrow> string \<Rightarrow> EventBase \<Rightarrow> bool" where
  "ranked rank i e \<longleftrightarrow> ev_event_id e = i
     \<and> (case auth_event_ids e of Inl _ \<Rightarrow> True | Inr aids \<Rightarrow> list_all (\<lambda>a. rank a < rank i) aids)"

definition ranked_map :: "(string \<Rightarrow> nat) \<Rightarrow> event_map \<Rightarrow> bool" where
  "ranked_map rank em \<longleftrightarrow> list_all (\<lambda>(i, e). ranked rank i e) em"

definition ranked_store :: "(string \<Rightarrow> nat) \<Rightarrow> StateResolutionStore \<Rightarrow> bool" where
  "ranked_store rank store \<longleftrightarrow> (\<forall>ids. ranked_map rank (get_events store ids))"


text \<open>The same of what a lookup finds, which a run keeps.\<close>

definition ranked_at :: "(string \<Rightarrow> nat) \<Rightarrow> event_map \<Rightarrow> bool" where
  "ranked_at rank em \<longleftrightarrow> (\<forall>i e. dget em i = Some e \<longrightarrow> ranked rank i e)"

lemma ranked_map_at: "ranked_map rank em \<Longrightarrow> ranked_at rank em"
  by (auto simp: ranked_map_def ranked_at_def list_all_iff dest!: map_of_SomeD)

lemma ranked_at_fetches:
  "fetches store em em' \<Longrightarrow> ranked_store rank store \<Longrightarrow> ranked_at rank em \<Longrightarrow> ranked_at rank em'"
  unfolding fetches_def supplied_def ranked_store_def
  using ranked_map_at ranked_at_def by metis

lemma ranked_less: "ranked rank i e \<Longrightarrow> auth_event_ids e = Inr aids \<Longrightarrow> a \<in> set aids \<Longrightarrow> rank a < rank i"
  by (simp add: ranked_def list_all_iff)

lemma ranked_id: "ranked rank i e \<Longrightarrow> ev_event_id e = i"
  by (simp add: ranked_def)

section \<open>The walk along the mainline\<close>

lemma find_power_levels_returns:
  assumes "faithful_store store" "returns (find_power_levels store rid aids) em (Some (a, e)) em'"
  shows "a \<in> set aids \<and> dget em' a = Some e"
  using assms(2)
proof (induction aids arbitrary: em)
  case (Cons b aids)
  then obtain ev em1 is_pl where g: "returns (get_event_opt store rid b True) em ev em1"
    and r: "returns (if is_pl then cret (map_option (\<lambda>e. (b, e)) ev) else find_power_levels store rid aids) em1 (Some (a, e)) em'"
    by auto
  show ?case
    using r Cons.IH[of em1] get_event_opt_returns(2)[OF assms(1) g] by (cases is_pl; cases "dget em1 b") auto
qed simp

lemma mainline_step_down:
  assumes "faithful_store store" "ranked_store rank store" "ranked_at rank em"
    and "returns (mainline_step store rid (Some p, ml)) em (Some q, ml') em'"
  shows "rank q < rank p"
proof -
  obtain e em1 aids a where r: "returns (get_event store rid p) em e em1" "auth_event_ids e = Inr aids"
    "returns (find_power_levels store rid aids) em1 (Some (q, a)) em'"
    using assms(4) by (auto simp: mainline_step_def eq_commute[of "Some q"])
  from get_event_returns[OF assms(1) r(1)] ranked_at_fetches[OF _ assms(2,3)]
  have "ranked rank p e" by (auto simp: ranked_at_def)
  from ranked_less[OF this r(2)] find_power_levels_returns[OF assms(1) r(3)] show ?thesis by simp
qed

lemma ends_get_mainline:
  assumes "faithful_store store" "ranked_store rank store" "ranked_at rank em"
  shows "ends (get_mainline store rid pl) em"
proof -
  let ?f = "\<lambda>((pl, _ :: string list), _ :: event_map). case pl of None \<Rightarrow> 0 | Some p \<Rightarrow> Suc (rank p)"
  have "ends (cwhile (\<lambda>(pl, _). pl \<notin> {None, Some []}) (mainline_step store rid) (pl, [])) em"
  proof (rule ends_cwhile[where P = "\<lambda>_ em. ranked_at rank em" and r = "measure ?f"])
    fix y t y' t'
    assume P: "ranked_at rank t" and b: "case y of (pl, _) \<Rightarrow> pl \<notin> {None, Some []}"
      and r: "returns (mainline_step store rid y) t y' t'"
    obtain p ml where y: "y = (Some p, ml)" using b by (cases y; cases "fst y") auto
    obtain pl' ml' where y': "y' = (pl', ml')" by (cases y')
    have "ranked_at rank t'"
      using ranked_at_fetches[OF steadyD[OF steady_mainline_step[OF assms(1)] r] assms(2) P] .
    moreover have "((y', t'), (y, t)) \<in> measure ?f"
      using mainline_step_down[OF assms(1,2) P] r by (cases pl') (auto simp: y y')
    ultimately show "ranked_at rank t' \<and> ((y', t'), (y, t)) \<in> measure ?f" by blast
  qed (use assms in \<open>auto intro: ends_mainline_step\<close>)
  then show ?thesis unfolding get_mainline_def by (rule ends_cbind) (intro ends_intros)
qed

lemma depth_step_down:
  assumes "faithful_store store" "ranked_store rank store" "ranked_at rank em" "ranked rank (ev_event_id e) e"
    and "returns (depth_step store rid m (Searching e)) em (Searching e') em'"
  shows "ranked rank (ev_event_id e') e' \<and> rank (ev_event_id e') < rank (ev_event_id e)"
proof -
  obtain aids a where r: "auth_event_ids e = Inr aids" "returns (find_power_levels store rid aids) em (Some (a, e')) em'"
    using assms(5) by (auto simp: depth_step_def split: option.splits)
  note f = find_power_levels_returns[OF assms(1) r(2)]
  have "ranked_at rank em'"
    using ranked_at_fetches[OF steadyD[OF steady_find_power_levels[OF assms(1)] r(2)] assms(2,3)] .
  with f have "ranked rank a e'" by (simp add: ranked_at_def)
  with ranked_less[OF assms(4) r(1)] f show ?thesis using ranked_id by fastforce
qed

lemma ends_get_mainline_depth:
  assumes "faithful_store store" "ranked_store rank store" "ranked_at rank em" "ranked rank (ev_event_id e) e"
  shows "ends (get_mainline_depth_for_event store e m) em"
proof -
  let ?b = "\<lambda>search. case search of Searching _ \<Rightarrow> True | _ \<Rightarrow> False"
  let ?f = "\<lambda>(search, _ :: event_map). case search of Searching e \<Rightarrow> Suc (rank (ev_event_id e)) | _ \<Rightarrow> 0"
  let ?P = "\<lambda>search em. ranked_at rank em \<and> (case search of Searching e \<Rightarrow> ranked rank (ev_event_id e) e | _ \<Rightarrow> True)"
  have "ends (cwhile ?b (depth_step store rid m) (Searching e)) em" for rid
  proof (rule ends_cwhile[where P = ?P and r = "measure ?f"])
    fix y t y' t'
    assume P: "?P y t" and b: "?b y" and r: "returns (depth_step store rid m y) t y' t'"
    then obtain d where y: "y = Searching d" by (cases y) auto
    have "ranked_at rank t'"
      using ranked_at_fetches[OF steadyD[OF steady_depth_step[OF assms(1)] r] assms(2)] P by blast
    moreover have "ranked rank (ev_event_id d') d' \<and> rank (ev_event_id d') < rank (ev_event_id d)" if "y' = Searching d'" for d'
      using depth_step_down[OF assms(1,2) _ _ r[unfolded y that]] P by (simp add: y)
    ultimately show "?P y' t' \<and> ((y', t'), (y, t)) \<in> measure ?f" by (cases y') (simp_all add: y)
  qed (use assms in \<open>auto intro: ends_depth_step\<close>)
  then show ?thesis unfolding get_mainline_depth_for_event_def by (intro ends_intros) (auto simp only: returns_clift)
qed

lemma ends_mainline_sort:
  assumes "faithful_store store" "ranked_store rank store" "ranked_at rank em"
  shows "ends (mainline_sort store rid ids pl) em"
proof -
  have add: "ends (add_order store m i acc) t" if "ranked_at rank t" for m i acc t
  proof -
    have "ends (get_mainline_depth_for_event store e m) t" if "dsub t i = Inr e" for e
    proof (rule ends_get_mainline_depth[OF assms(1,2) \<open>ranked_at rank t\<close>])
      have "ranked rank i e" using \<open>ranked_at rank t\<close> that by (auto simp: ranked_at_def dsub_def split: option.splits)
      with ranked_id show "ranked rank (ev_event_id e) e" by blast
    qed
    then show ?thesis unfolding add_order_def by (intro ends_intros) (auto simp only: returns_clift returns_cget)
  qed
  have "ends (cfold (add_order store m) ids []) t" if "ranked_at rank t" for m t
    by (rule ends_cfold[where P = "\<lambda>_ em. ranked_at rank em"], rule that, erule add)
      (rule ranked_at_fetches[OF steadyD[OF steady_add_order[OF assms(1)]] assms(2)])
  moreover have "ranked_at rank t" if "returns (get_mainline store rid pl) em ml t" for ml t
    using ranked_at_fetches[OF steadyD[OF steady_get_mainline[OF assms(1)] that] assms(2,3)] .
  ultimately show ?thesis unfolding mainline_sort_def
    by (intro ends_cases ends_cbind ends_basic ends_get_mainline[OF assms]) blast
qed

section \<open>The auth chains of the events in flight\<close>

text \<open>The links go from an auth event up to the events that name it.\<close>

definition up_links :: "(string \<Rightarrow> nat) \<Rightarrow> string graph \<Rightarrow> bool" where
  "up_links rank g \<longleftrightarrow> (\<forall>a n. n \<in> edges g a \<longrightarrow> rank a < rank n)"

lemma follow_auth_id_apply:
  "follow_auth_id u e a (rest, chain, links) =
     (case dget u a of None \<Rightarrow> rest | Some d \<Rightarrow> d # rest, List.insert a chain, add_edge a (ev_event_id e) links)"
  by (simp add: follow_auth_id_def)

lemma follow_auth_ids:
  assumes "fold (follow_auth_id u e) ids (rest, chain, links) = (todo, chain', links')"
  shows "(\<exists>new. todo = new @ rest \<and> (\<forall>d \<in> set new. \<exists>a \<in> set ids. dget u a = Some d))
    \<and> (up_links rank links \<longrightarrow> (\<forall>a \<in> set ids. rank a < rank (ev_event_id e)) \<longrightarrow> up_links rank links')"
  using assms
proof (induction ids arbitrary: rest chain links)
  case (Cons a ids)
  let ?links = "add_edge a (ev_event_id e) links"
  let ?rest = "case dget u a of None \<Rightarrow> rest | Some d \<Rightarrow> d # rest"
  have "fold (follow_auth_id u e) ids (?rest, List.insert a chain, ?links) = (todo, chain', links')"
    using Cons.prems by (simp add: follow_auth_id_apply)
  note IH = Cons.IH[OF this]
  have "up_links rank ?links" if "up_links rank links" "rank a < rank (ev_event_id e)"
    using that by (auto simp: up_links_def)
  moreover obtain new where "todo = new @ ?rest" "\<forall>d \<in> set new. \<exists>a \<in> set ids. dget u a = Some d" using IH by blast
  then have "todo = (new @ (case dget u a of None \<Rightarrow> [] | Some d \<Rightarrow> [d])) @ rest
    \<and> (\<forall>d \<in> set (new @ (case dget u a of None \<Rightarrow> [] | Some d \<Rightarrow> [d])). \<exists>b \<in> set (a # ids). dget u b = Some d)"
    by (cases "dget u a") auto
  ultimately show ?case using IH by (intro conjI exI) auto
qed simp

abbreviation rank_order :: "(string \<Rightarrow> nat) \<Rightarrow> (chain_state \<times> event_map) rel" where
  "rank_order rank \<equiv> inv_image (mult less_than) (\<lambda>((todo, _, _), _). mset (map (rank \<circ> ev_event_id) todo))"

definition chain_inv :: "(string \<Rightarrow> nat) \<Rightarrow> chain_state \<Rightarrow> bool" where
  "chain_inv rank = (\<lambda>(todo, _, links). (\<forall>e \<in> set todo. ranked rank (ev_event_id e) e) \<and> up_links rank links)"

lemma chain_step_down:
  assumes u: "ranked_at rank u" and inv: "chain_inv rank y" and todo: "case y of (todo, _) \<Rightarrow> todo \<noteq> []"
    and r: "returns (chain_step u y) em y' em'"
  shows "chain_inv rank y' \<and> ((y', em'), (y, em)) \<in> rank_order rank"
proof -
  obtain e rest chain links where y: "y = (e # rest, chain, links)" using todo by (cases y; cases "fst y") auto
  obtain todo' chain' links' where y': "y' = (todo', chain', links')" by (cases y')
  obtain ids where ids: "auth_event_ids e = Inr ids"
    and f: "fold (follow_auth_id u e) ids (rest, chain, links) = (todo', chain', links')"
    using r by (auto simp: chain_step_def y y')
  have e: "ranked rank (ev_event_id e) e" using inv by (simp add: chain_inv_def y)
  have less: "rank a < rank (ev_event_id e)" if "a \<in> set ids" for a using ranked_less[OF e ids that] .
  obtain new where new: "todo' = new @ rest" "\<And>d. d \<in> set new \<Longrightarrow> \<exists>a \<in> set ids. dget u a = Some d"
    using follow_auth_ids[OF f, of rank] by blast
  have n: "ranked rank (ev_event_id d) d \<and> rank (ev_event_id d) < rank (ev_event_id e)" if "d \<in> set new" for d
    using new(2)[OF that] u less ranked_id by (metis ranked_at_def)
  have "chain_inv rank y'"
    using inv n new(1) follow_auth_ids[OF f, of rank] less by (auto simp: chain_inv_def y y')
  moreover have "(mset (map (rank \<circ> ev_event_id) rest) + mset (map (rank \<circ> ev_event_id) new),
      mset (map (rank \<circ> ev_event_id) rest) + {#rank (ev_event_id e)#}) \<in> mult less_than"
    by (rule one_step_implies_mult) (use n in auto)
  ultimately show ?thesis by (simp add: y y' new(1) add.commute)
qed

lemma ends_add_auth_chain:
  assumes u: "ranked_at rank u" and e: "ranked rank (ev_event_id e) e" and acc: "up_links rank (snd acc)"
  shows "ends (add_auth_chain u e acc) em"
    and "returns (add_auth_chain u e acc) em acc' em' \<Longrightarrow> up_links rank (snd acc')"
proof -
  obtain chains links where a: "acc = (chains, links)" by (cases acc)
  let ?start = "([e], [ev_event_id e], links)"
  have start: "chain_inv rank ?start" using e acc by (simp add: chain_inv_def a)
  have "ends (cwhile (\<lambda>(todo, _, _). todo \<noteq> []) (chain_step u) ?start) em"
    by (rule ends_cwhile[where P = "\<lambda>y _. chain_inv rank y" and r = "rank_order rank"])
      (use start chain_step_down[OF u] in \<open>auto intro: wf_mult ends_chain_step\<close>)
  then show "ends (add_auth_chain u e acc) em" unfolding add_auth_chain_def a
    by (simp, intro ends_intros)
  assume "returns (add_auth_chain u e acc) em acc' em'"
  then obtain y t where "returns (cwhile (\<lambda>(todo, _, _). todo \<noteq> []) (chain_step u) ?start) em y t"
    and acc': "snd acc' = snd (snd y)" by (auto simp: add_auth_chain_def a split: prod.splits)
  from cwhile_invariant[OF this(1), of "\<lambda>y _. chain_inv rank y"] start chain_step_down[OF u]
  have "chain_inv rank y" by fastforce
  then show "up_links rank (snd acc')" by (auto simp: chain_inv_def acc' split: prod.splits)
qed

section \<open>The walk back up\<close>

lemma fold_insert_new: "\<exists>new. fold List.insert es q = new @ q \<and> set new \<subseteq> set es"
proof (induction es arbitrary: q)
  case (Cons x es)
  obtain new where "fold List.insert es (List.insert x q) = new @ List.insert x q" "set new \<subseteq> set es"
    using Cons[of "List.insert x q"] by blast
  then show ?case
    by (cases "x \<in> set q") (auto intro: exI[of _ "new @ [x]"])
qed simp

lemma links_bounded: "\<exists>M. \<forall>a n. n \<in> edges g a \<longrightarrow> (rank n :: nat) \<le> M"
proof -
  have "n \<in> set (concat (map snd g))" if "n \<in> edges g a" for a n
    using that map_of_SomeD[of g a] by (force simp: edges_def dget_or_def split: option.splits)
  then show ?thesis using finite_nat_set_iff_bounded_le[of "rank ` set (concat (map snd g))"] by blast
qed

lemma ends_forwards_conflicted:
  assumes "up_links rank g"
  shows "ends (forwards_conflicted g q) em"
proof -
  obtain M where M: "\<And>a n. n \<in> edges g a \<Longrightarrow> rank n \<le> M" using links_bounded[of g rank] by blast
  let ?h = "\<lambda>n. M - rank n"
  let ?r = "inv_image (mult less_than) (\<lambda>((q, _ :: string list), _ :: event_map). mset (map ?h q))"
  have "ends (cwhile (\<lambda>(q, _). q \<noteq> []) (forward_step g) (q, [])) em"
  proof (rule ends_cwhile[where P = "\<lambda>_ _. True" and r = ?r])
    fix y t y' t'
    assume b: "case y of (q, _) \<Rightarrow> q \<noteq> []" and r: "returns (forward_step g y) t y' t'"
    obtain n rest f where y: "y = (n # rest, f)" using b by (cases y; cases "fst y") auto
    obtain new where new: "fst y' = new @ rest" "set new \<subseteq> edges g n"
      using r fold_insert_new[of "dget_or g n []" rest] by (auto simp: forward_step_def y edges_def)
    have "(mset (map ?h rest) + mset (map ?h new), mset (map ?h rest) + {#?h n#}) \<in> mult less_than"
      by (rule one_step_implies_mult) (use new(2) assms M in \<open>fastforce simp: up_links_def\<close>)+
    then show "True \<and> ((y', t'), (y, t)) \<in> ?r" using new(1) by (cases y') (simp add: y add.commute)
  qed (auto intro: wf_mult ends_forward_step)
  then show ?thesis unfolding forwards_conflicted_def by (rule ends_cbind) (intro ends_intros)
qed

section \<open>The whole resolution\<close>

lemma ends_expand_subgraph:
  "up_links rank links \<Longrightarrow> ends (expand_subgraph cs links conflicted uce additional subgraph) em"
  unfolding expand_subgraph_def Let_def by (intro ends_intros ends_forwards_conflicted)

lemma ends_get_auth_chain_difference_of:
  assumes "ranked_map rank u"
  shows "ends (get_auth_chain_difference_of store rid sets u conflicted) em"
proof -
  have e: "ranked rank (ev_event_id e) e" if "e \<in> set (dvalues u)" for e
    using assms that ranked_id by (fastforce simp: ranked_map_def list_all_iff)
  let ?loop = "cfold (add_auth_chain u) (dvalues u) ([], [])"
  note add = ends_add_auth_chain[OF ranked_map_at[OF assms] e]
  have empty: "up_links rank (snd ([], []))" by (simp add: up_links_def edges_def dget_or_def)
  have ends: "ends ?loop em"
    by (rule ends_cfold[where P = "\<lambda>acc _. up_links rank (snd acc)"]) (use empty add in blast)+
  have links: "up_links rank (snd acc)" if "returns ?loop em acc t" for acc t
    by (rule cfold_invariant[OF that, where P = "\<lambda>acc _. up_links rank (snd acc)"]) (use empty add in blast)+
  show ?thesis unfolding get_auth_chain_difference_of_def Let_def
    by (intro ends_cbind[OF ends] ends_intros ends_expand_subgraph[of rank]) (use links in force)
qed

lemma rfilter_subset: "rfilter p xs = Inr ys \<Longrightarrow> set ys \<subseteq> set xs"
  by (induction xs arbitrary: ys) (auto split: if_splits)

lemma ends_resolve_conflicts:
  assumes "faithful_store store" "ranked_store rank store" "ranked_at rank em"
  shows "ends (resolve_conflicts env store rid rv u fcs) em"
proof -
  have sort: "ends (reverse_topological_power_sort store rid ids fcs) em"
    if "rfilter (\<lambda>eid. rbind (dsub em eid) is_power_event) fcs = Inr ids" for ids
    by (rule ends_reverse_topological_power_sort[OF assms(1) rfilter_subset[OF that]])
  have main: "ends (mainline_sort store rid ls pl) em2"
    if "returns (reverse_topological_power_sort store rid ids fcs) em xs em1"
      "returns (iterative_auth_checks env store rid rv xs st) em1 st' em2" for ids xs st st' ls pl em1 em2
    using ends_mainline_sort[OF assms(1,2)] ranked_at_fetches[OF _ assms(2)] assms(3)
      steadyD[OF steady_reverse_topological_power_sort[OF assms(1)] that(1)]
      steadyD[OF steady_iterative_auth_checks[OF assms(1)] that(2)] by blast
  show ?thesis unfolding resolve_conflicts_def Let_def
    by (intro ends_cbind ends_basic ends_iterative_auth_checks) (use sort main in auto)
qed

text \<open>
  C3. State resolution always comes to an end, with a resolved state or with an exception: it is
  enough that no event known to the caller or to the store is among its own auth ancestors.
\<close>

theorem resolution_ends:
  assumes "faithful_store store" and "ranked_store rank store" and "ranked_map rank em"
  shows "(\<exists>st em'. returns (resolve_events_with_store env store rid rv sets) em st em')
    \<or> (\<exists>exn. resolve_events_with_store env store rid rv sets em = Some (Inl exn))"
proof -
  have fetched: "ranked_at rank (dupdate em (get_events store (filter (\<lambda>i. \<not> dhas em i) ids)))" for ids
    by (rule ranked_at_fetches[OF fetches_events[OF assms(1)] assms(2) ranked_map_at[OF assms(3)]]) simp
  have "ends (resolve_events_with_store env store rid rv sets) em"
    unfolding resolve_events_with_store_def Let_def
    by (intro ends_cases ends_cbind ends_basic ends_get_auth_chain_difference_of[of rank]
          ends_resolve_conflicts[OF assms(1,2)]) (use assms(3) fetched in auto)
  then show ?thesis by (simp only: ends_returns_or_raises)
qed

end
