(* ===== verification/State_V2_Mainline.thy ===== *)
theory State_V2_Mainline
  imports State_V2_Props
begin

text \<open>
  The order of the events that are not power events: the mainline the code walks is the chain of
  power-levels events behind the resolved one, and the events are sorted by the place on it of
  the closest power-levels event behind them.
\<close>

section \<open>A store that answers from one set of events\<close>

text \<open>
  Each lookup gives the same event, in the event map or in the store: an event is determined by its
  identifier.
\<close>

definition answers :: "(string \<Rightarrow> EventBase option) \<Rightarrow> StateResolutionStore \<Rightarrow> bool" where
  "answers known store \<longleftrightarrow>
     (\<forall>ids. wf_dict (get_events store ids)
        \<and> (\<forall>i. dget (get_events store ids) i = (if i \<in> set ids then known i else None)))"

definition drawn_from :: "(string \<Rightarrow> EventBase option) \<Rightarrow> event_map \<Rightarrow> bool" where
  "drawn_from known em \<longleftrightarrow> (\<forall>i e. dget em i = Some e \<longrightarrow> known i = Some e)"

lemma answers_faithful: "answers known store \<Longrightarrow> faithful_store store"
  by (auto simp: answers_def faithful_store_def dhas_def)

lemma drawn_from_fetches: "answers known store \<Longrightarrow> drawn_from known em \<Longrightarrow> fetches store em em' \<Longrightarrow> drawn_from known em'"
  unfolding answers_def drawn_from_def fetches_def supplied_def by (metis option.distinct(1))

lemma get_event_opt_known:
  assumes "answers known store" "drawn_from known em" "returns (get_event_opt store rid i b) em r em'"
  shows "r = known i"
proof -
  note f = answers_faithful[OF assms(1)]
  have w: "wf_dict (get_events store [i])" and k: "dget (get_events store [i]) i = known i"
    using assms(1) by (auto simp: answers_def)
  have "dget em' i = known i"
    using assms(2,3) dget_dupdate[OF w, of em i] k
    by (auto simp: get_event_opt_def Let_def drawn_from_def dhas_def split: if_splits option.splits)
  with get_event_opt_returns(2)[OF f assms(3)] show ?thesis by simp
qed

text \<open>The first power-levels event among some identifiers.\<close>

fun first_pl :: "(string \<Rightarrow> EventBase option) \<Rightarrow> string list \<Rightarrow> (string \<times> EventBase) option" where
  "first_pl known [] = None"
| "first_pl known (a # as) =
     (if has_key POWER_KEY (known a) = Inr True then map_option (\<lambda>e. (a, e)) (known a) else first_pl known as)"

lemma find_power_levels_first:
  assumes "answers known store" "drawn_from known em" "returns (find_power_levels store rid aids) em found em'"
  shows "found = first_pl known aids"
  using assms(2,3)
proof (induction aids arbitrary: em)
  case (Cons a aids)
  then obtain em1 ev b where g: "returns (get_event_opt store rid a True) em ev em1" and b: "has_key POWER_KEY ev = Inr b"
    and r: "returns (if b then cret (map_option (\<lambda>e. (a, e)) ev) else find_power_levels store rid aids) em1 found em'"
    by auto
  note ev = get_event_opt_known[OF assms(1) Cons.prems(1) g]
  have "drawn_from known em1"
    using drawn_from_fetches[OF assms(1) Cons.prems(1) get_event_opt_returns(1)[OF answers_faithful[OF assms(1)] g]] .
  from Cons.IH[OF this] r b ev show ?case by (cases b) auto
qed simp

section \<open>The mainline\<close>

definition pl_parent :: "(string \<Rightarrow> EventBase option) \<Rightarrow> EventBase \<Rightarrow> (string \<times> EventBase) option" where
  "pl_parent known e = (case auth_event_ids e of Inl _ \<Rightarrow> None | Inr aids \<Rightarrow> first_pl known aids)"

text \<open>\<open>mainline_path known pl ms\<close>: \<open>ms\<close> is the chain of power-levels events that starts at \<open>pl\<close>.\<close>

inductive mainline_path :: "(string \<Rightarrow> EventBase option) \<Rightarrow> string option \<Rightarrow> string list \<Rightarrow> bool" for known where
  path_stop: "pl \<in> {None, Some []} \<Longrightarrow> mainline_path known pl []"
| path_step: "p \<noteq> [] \<Longrightarrow> known p = Some e \<Longrightarrow> mainline_path known (map_option fst (pl_parent known e)) ms \<Longrightarrow>
    mainline_path known (Some p) (p # ms)"

inductive_cases mainline_path_Cons: "mainline_path known pl (p # ms)"

inductive_cases mainline_path_Nil: "mainline_path known pl []"

lemma mainline_path_unique: "mainline_path known pl ms \<Longrightarrow> mainline_path known pl ms' \<Longrightarrow> ms = ms'"
proof (induction arbitrary: ms' rule: mainline_path.induct)
  case (path_stop pl)
  then show ?case by (cases ms') (auto elim: mainline_path_Cons)
next
  case (path_step p e ms)
  from path_step.prems obtain ms2 where "ms' = p # ms2" "mainline_path known (map_option fst (pl_parent known e)) ms2"
    by (cases rule: mainline_path.cases) (use path_step.hyps in auto)
  with path_step.IH show ?case by simp
qed

lemma mainline_path_suffix: "mainline_path known pl (as @ q # bs) \<Longrightarrow> mainline_path known (Some q) (q # bs)"
proof (induction as arbitrary: pl)
  case Nil
  then show ?case by (auto elim!: mainline_path_Cons intro: mainline_path.intros)
next
  case (Cons a as)
  from Cons.prems obtain e where "mainline_path known (map_option fst (pl_parent known e)) (as @ q # bs)"
    by (auto elim!: mainline_path_Cons)
  with Cons.IH show ?case by blast
qed

lemma mainline_path_distinct: "mainline_path known pl ms \<Longrightarrow> distinct ms"
proof (induction ms arbitrary: pl)
  case (Cons p ms)
  have "p \<notin> set ms"
  proof
    assume "p \<in> set ms"
    then obtain as bs where ms: "ms = as @ p # bs" by (auto simp: in_set_conv_decomp)
    from mainline_path_suffix[of known pl "p # as" p bs] mainline_path_suffix[of known pl "[]" p ms] Cons.prems
    have "p # bs = p # ms" using mainline_path_unique[of known "Some p" "p # bs" "p # ms"] by (simp add: ms)
    then show False by (simp add: ms)
  qed
  moreover from Cons.prems obtain e where "mainline_path known (map_option fst (pl_parent known e)) ms"
    by (auto elim: mainline_path_Cons)
  ultimately show ?case using Cons.IH by simp
qed simp

lemma mainline_step_path:
  assumes "answers known store" "drawn_from known em" "p \<noteq> []"
    and "returns (mainline_step store rid (Some p, ms)) em (pl, ms') em'"
  shows "ms' = ms @ [p]" and "mainline_path known pl rest \<Longrightarrow> mainline_path known (Some p) (p # rest)"
proof -
  note f = answers_faithful[OF assms(1)]
  obtain e aids em1 found where r: "returns (get_event store rid p) em e em1" "auth_event_ids e = Inr aids"
    "returns (find_power_levels store rid aids) em1 found em'" "pl = map_option fst found" "ms' = ms @ [p]"
    using assms(4) by (auto simp: mainline_step_def)
  have em1: "drawn_from known em1"
    using drawn_from_fetches[OF assms(1,2) get_event_returns(1)[OF f r(1)]] .
  then have e: "known p = Some e" using get_event_returns(2)[OF f r(1)] by (simp add: drawn_from_def)
  show "ms' = ms @ [p]" by (rule r(5))
  assume "mainline_path known pl rest"
  then show "mainline_path known (Some p) (p # rest)"
    using path_step[of p known e rest] assms(3) e r(2,4) find_power_levels_first[OF assms(1) em1 r(3)]
    by (simp add: pl_parent_def)
qed

lemma get_mainline_path:
  assumes "answers known store" "drawn_from known em" "returns (get_mainline store rid pl) em ms em'"
  shows "mainline_path known pl ms"
proof -
  let ?b = "\<lambda>(pl, _). pl \<notin> {None, Some []}"
  let ?P = "\<lambda>(q, done) em. drawn_from known em \<and> (\<forall>rest. mainline_path known q rest \<longrightarrow> mainline_path known pl (done @ rest))"
  obtain q where r: "returns (cwhile ?b (mainline_step store rid) (pl, [])) em (q, ms) em'"
    using assms(3) by (auto simp: get_mainline_def)
  have "?P (q, ms) em' \<and> \<not> ?b (q, ms)"
  proof (rule cwhile_invariant[OF r])
    show "?P (pl, []) em" using assms(2) by simp
    fix y t y' t'
    assume P: "?P y t" and b: "?b y" and r: "returns (mainline_step store rid y) t y' t'"
    obtain p d where y: "y = (Some p, d)" "p \<noteq> []" using b by (cases y; cases "fst y") auto
    obtain q' d' where y': "y' = (q', d')" by (cases y')
    have "drawn_from known t"using P by (simp add: y)
    note st = mainline_step_path[OF assms(1) this y(2) r[unfolded y(1) y']]
    have "drawn_from known t'"
      using drawn_from_fetches[OF assms(1) _ steadyD[OF steady_mainline_step[OF answers_faithful[OF assms(1)]] r]] P
      by (simp add: y)
    then show "?P y' t'" using P st by (simp add: y y')
  qed
  then show ?thesis using path_stop[of q known] by force
qed

text \<open>The places: the oldest event of the mainline has place 1.\<close>

lemma mainline_map_place:
  assumes "distinct ms"
  shows "dget (mainline_map_of ms) i = Some d \<longleftrightarrow> (\<exists>k < length ms. ms ! k = i \<and> d = length ms - k)"
proof -
  let ?z = "zip (rev ms) [1..<Suc (length ms)]"
  have w: "wf_dict ?z" using assms by (simp add: wf_dict_def)
  have "dget (mainline_map_of ms) i = Some d \<longleftrightarrow> (i, d) \<in> set ?z"
    unfolding mainline_map_of_def dict_of_def dget_dupdate[OF w] using in_dict_iff[OF w, of i d]
    by (auto split: option.splits)
  also have "\<dots> \<longleftrightarrow> (\<exists>j < length ms. rev ms ! j = i \<and> [1..<Suc (length ms)] ! j = d)"
    by (auto simp: set_zip simp del: upt_Suc)
  also have "\<dots> \<longleftrightarrow> (\<exists>j < length ms. ms ! (length ms - Suc j) = i \<and> d = Suc j)"
    by (intro ex_cong1) (auto simp: rev_nth simp del: upt_Suc)
  also have "\<dots> \<longleftrightarrow> (\<exists>k < length ms. ms ! k = i \<and> d = length ms - k)"
  proof
    assume "\<exists>j < length ms. ms ! (length ms - Suc j) = i \<and> d = Suc j"
    then obtain j where "j < length ms" "ms ! (length ms - Suc j) = i" "d = Suc j" by blast
    then show "\<exists>k < length ms. ms ! k = i \<and> d = length ms - k" by (intro exI[of _ "length ms - Suc j"]) auto
  next
    assume "\<exists>k < length ms. ms ! k = i \<and> d = length ms - k"
    then obtain k where "k < length ms" "ms ! k = i" "d = length ms - k" by blast
    then show "\<exists>j < length ms. ms ! (length ms - Suc j) = i \<and> d = Suc j" by (intro exI[of _ "length ms - Suc k"]) auto
  qed
  finally show ?thesis .
qed

section \<open>The depth of an event\<close>

text \<open>
  The place of the closest power-levels event on the mainline, along the chain of power-levels
  events behind the event (the event itself included); 0 when the chain misses the mainline.
\<close>

inductive mainline_depth :: "(string \<Rightarrow> EventBase option) \<Rightarrow> string list \<Rightarrow> EventBase \<Rightarrow> nat \<Rightarrow> bool"
  for known ms where
  depth_on: "k < length ms \<Longrightarrow> ms ! k = ev_event_id e \<Longrightarrow> mainline_depth known ms e (length ms - k)"
| depth_none: "ev_event_id e \<notin> set ms \<Longrightarrow> pl_parent known e = None \<Longrightarrow> mainline_depth known ms e 0"
| depth_step: "ev_event_id e \<notin> set ms \<Longrightarrow> pl_parent known e = Some (i, e') \<Longrightarrow> mainline_depth known ms e' d \<Longrightarrow>
    mainline_depth known ms e d"

lemma depth_step_depth:
  assumes "answers known store" "drawn_from known em" "distinct ms"
    and "returns (depth_step store rid (mainline_map_of ms) (Searching e)) em s em'"
  shows "case s of Found d \<Rightarrow> mainline_depth known ms e d | NoPowerLevels \<Rightarrow> mainline_depth known ms e 0
     | Searching e' \<Rightarrow> (\<forall>d. mainline_depth known ms e' d \<longrightarrow> mainline_depth known ms e d)"
proof (cases "dget (mainline_map_of ms) (ev_event_id e)")
  case (Some d)
  with assms(4) have "s = Found d" by (simp add: depth_step_def)
  with Some show ?thesis using mainline_map_place[OF assms(3)] depth_on by auto
next
  case None
  then obtain aids found where r: "auth_event_ids e = Inr aids" "returns (find_power_levels store rid aids) em found em'"
    and s: "s = (case found of None \<Rightarrow> NoPowerLevels | Some (_, aev) \<Rightarrow> Searching aev)"
    using assms(4) by (auto simp: depth_step_def)
  have "ev_event_id e \<notin> set ms"
    using mainline_map_place[OF assms(3), of "ev_event_id e"] None by (auto simp: in_set_conv_nth)
  moreover have "pl_parent known e = found"
    using find_power_levels_first[OF assms(1,2) r(2)] r(1) by (simp add: pl_parent_def)
  ultimately show ?thesis using s depth_none mainline_depth.depth_step
    by (auto split: option.splits)
qed

lemma get_mainline_depth:
  assumes "answers known store" "drawn_from known em" "distinct ms"
    and "returns (get_mainline_depth_for_event store e (mainline_map_of ms)) em d em'"
  shows "mainline_depth known ms e d"
proof -
  let ?b = "\<lambda>search. case search of Searching _ \<Rightarrow> True | _ \<Rightarrow> False"
  let ?result = "\<lambda>s d. case s of Found d' \<Rightarrow> d = d' | NoPowerLevels \<Rightarrow> d = 0 | Searching e' \<Rightarrow> mainline_depth known ms e' d"
  let ?P = "\<lambda>s em. drawn_from known em \<and> (\<forall>d. ?result s d \<longrightarrow> mainline_depth known ms e d)"
  obtain rid s where r: "returns (cwhile ?b (depth_step store rid (mainline_map_of ms)) (Searching e)) em s em'"
    and d: "d = (case s of Found depth \<Rightarrow> depth | _ \<Rightarrow> 0)"
    using assms(4) by (auto simp: get_mainline_depth_for_event_def)
  have "?P s em' \<and> \<not> ?b s"
  proof (rule cwhile_invariant[OF r])
    show "?P (Searching e) em" using assms(2) by simp
    fix y t y' t'
    assume P: "?P y t" and b: "?b y" and r: "returns (depth_step store rid (mainline_map_of ms) y) t y' t'"
    obtain e1 where y: "y = Searching e1" using b by (cases y) auto
    have t: "drawn_from known t" using P by simp
    have "drawn_from known t'"
      using drawn_from_fetches[OF assms(1) t steadyD[OF steady_depth_step[OF answers_faithful[OF assms(1)]] r]] .
    then show "?P y' t'"
      using P depth_step_depth[OF assms(1) t assms(3) r[unfolded y]] by (cases y') (simp_all add: y)
  qed
  with d show ?thesis by (cases s) auto
qed

definition mainline_order_of :: "(string \<Rightarrow> EventBase option) \<Rightarrow> string list \<Rightarrow> string \<Rightarrow> mainline_order \<Rightarrow> bool" where
  "mainline_order_of known ms i k \<longleftrightarrow>
     (\<exists>e d. known i = Some e \<and> mainline_depth known ms e d \<and> k = (d, ev_origin_server_ts e, i))"

lemma add_orders:
  assumes "answers known store" "drawn_from known em" "distinct ms"
    and "returns (cfold (add_order store (mainline_map_of ms)) ids acc) em acc' em'"
  shows "(\<forall>i \<in> set ids. \<exists>k. dget acc' i = Some k \<and> mainline_order_of known ms i k)
    \<and> (\<forall>i. i \<notin> set ids \<longrightarrow> dget acc' i = dget acc i)"
  using assms(2,4)
proof (induction ids arbitrary: acc em)
  case (Cons i ids)
  then obtain acc1 em1 where a: "returns (add_order store (mainline_map_of ms) i acc) em acc1 em1"
    and r: "returns (cfold (add_order store (mainline_map_of ms)) ids acc1) em1 acc' em'" by auto
  from a obtain e d where e: "dget em i = Some e"
    and d: "returns (get_mainline_depth_for_event store e (mainline_map_of ms)) em d em1"
    and acc1: "acc1 = dset i (d, ev_origin_server_ts e, i) acc"
    by (auto simp: add_order_def dsub_def split: option.splits)
  have em1: "drawn_from known em1"
    using drawn_from_fetches[OF assms(1) Cons.prems(1) steadyD[OF steady_add_order[OF answers_faithful[OF assms(1)]] a]] .
  have "mainline_order_of known ms i (d, ev_origin_server_ts e, i)"
    using get_mainline_depth[OF assms(1) Cons.prems(1) assms(3) d] e Cons.prems(1)
    by (auto simp: mainline_order_of_def drawn_from_def)
  with Cons.IH[OF em1 r] acc1 show ?case by (cases "i \<in> set ids") auto
qed simp

text \<open>
  C17. The events that are left are put in mainline order: the result is a permutation of the given
  events, sorted by the place on the mainline of the closest power-levels event behind them (those
  whose chain misses the mainline first), then by timestamp, then by identifier; and the mainline is
  the chain of power-levels events behind the resolved one.
\<close>

theorem leftover_events_sorted:
  assumes "answers known store" and "drawn_from known em" and "ids \<noteq> []"
    and "returns (mainline_sort store rid ids pl) em xs em'"
  shows "mset xs = mset ids
    \<and> (\<exists>ms key. mainline_path known pl ms \<and> (\<forall>i \<in> set ids. mainline_order_of known ms i (key i)) \<and> sorted (map key xs))"
proof -
  obtain ms em1 orders where ms: "returns (get_mainline store rid pl) em ms em1"
    and o: "returns (cfold (add_order store (mainline_map_of ms)) ids []) em1 orders em'"
    and xs: "xs = sort_key (\<lambda>i. dget_or orders i (0, 0, [])) ids"
    using assms(3,4) by (auto simp: mainline_sort_def)
  have em1: "drawn_from known em1"
    using drawn_from_fetches[OF assms(1,2) steadyD[OF steady_get_mainline[OF answers_faithful[OF assms(1)]] ms]] .
  note path = get_mainline_path[OF assms(1,2) ms]
  have "mainline_order_of known ms i (dget_or orders i (0, 0, []))" if "i \<in> set ids" for i
    using add_orders[OF assms(1) em1 mainline_path_distinct[OF path] o] that by (auto simp: dget_or_def)
  with path show ?thesis by (auto simp: xs simp del: dget_or_simps intro!: exI[of _ ms] exI[of _ "\<lambda>i. dget_or orders i (0, 0, [])"])
qed

end
