(* ===== verification/State_V2_Samples.thy ===== *)
theory State_V2_Samples
  imports State_V2_Termination State_V2_Mainline Event_Auth_Theorems
begin

text \<open>
  A store over a table of events, as the store of the tests in \<open>tests/state/test_v2.py\<close>, and a
  room with two conflicting topics, on which the hypotheses of the state-resolution properties hold.
\<close>

definition table_store :: "event_map \<Rightarrow> StateResolutionStore" where
  "table_store table =
     \<lparr>get_events = (\<lambda>ids. filter (\<lambda>(i, _). i \<in> set ids) table),
      get_auth_chain_difference = (\<lambda>_ sets _ _.
        \<lparr>auth_difference = (case union_minus_intersection sets of Inl _ \<Rightarrow> [] | Inr d \<Rightarrow> d), conflicted_subgraph = None\<rparr>)\<rparr>"

lemma faithful_table_store: "wf_dict table \<Longrightarrow> faithful_store (table_store table)"
  by (auto simp: faithful_store_def table_store_def dhas_def dest!: dget_in)

definition topic_event :: "string \<Rightarrow> int \<Rightarrow> EventBase" where
  "topic_event i ts = (sample_event RV_V10 ''m.room.topic'' ''@c:h'' (Some []) [])
     \<lparr>ev_event_id := i, ev_origin_server_ts := ts, ev_auth_events := [''$c'', ''$p'', ''$m'']\<rparr>"

definition sample_table :: event_map where
  "sample_table =
     [(''$c'', (sample_create RV_V10)\<lparr>ev_event_id := ''$c''\<rparr>),
      (''$m'', (sample_member RV_V10 ''@c:h'' Membership_JOIN)\<lparr>ev_event_id := ''$m'', ev_auth_events := [''$c'']\<rparr>),
      (''$p'', (sample_power RV_V10 [(''@c:h'', 100)])\<lparr>ev_event_id := ''$p'', ev_auth_events := [''$c'', ''$m'']\<rparr>),
      (''$t1'', topic_event ''$t1'' 1), (''$t2'', topic_event ''$t2'' 2)]"

definition sample_state :: "string \<Rightarrow> state_set" where
  "sample_state topic = [(CREATE_KEY, ''$c''), (POWER_KEY, ''$p''), ((EventTypes_Member, ''@c:h''), ''$m''),
     ((''m.room.topic'', []), topic)]"

definition sample_resolution :: "(state_set \<times> event_map) res option" where
  "sample_resolution = resolve_events_with_store sample_env (table_store sample_table) ''!r:h'' RV_V10
     [sample_state ''$t1'', sample_state ''$t2''] []"

definition sample_resolved :: state_set where
  "sample_resolved = sample_state ''$t2''"

lemma sample_resolution_value: "map_option (map_sum id fst) sample_resolution = Some (Inr sample_resolved)"
  by code_simp

lemma resolution_value: "map_option (map_sum id fst) r = Some (Inr x) \<Longrightarrow> \<exists>s. r = Some (Inr (x, s))"
  by (cases r; cases "the r") auto

lemma sample_resolution_returns:
  "\<exists>em'. returns (resolve_events_with_store sample_env (table_store sample_table) ''!r:h'' RV_V10
       [sample_state ''$t1'', sample_state ''$t2'']) [] sample_resolved em'"
  using resolution_value[OF sample_resolution_value] unfolding sample_resolution_def .

lemma faithful_sample: "faithful_store (table_store sample_table)"
  by (rule faithful_table_store) code_simp

theorem seperate_exact_witness:
  "\<exists>ids. dget (fst (seperate [sample_state ''$t1'', sample_state ''$t2''])) CREATE_KEY = Some ''$c''
    \<and> dget (snd (seperate [sample_state ''$t1'', sample_state ''$t2''])) (''m.room.topic'', []) = Some ids
    \<and> set ids = {i. \<exists>s \<in> set [sample_state ''$t1'', sample_state ''$t2'']. dget s (''m.room.topic'', []) = Some i}"
proof -
  let ?sets = "[sample_state ''$t1'', sample_state ''$t2'']"
  have c: "\<forall>s \<in> set ?sets. dget s CREATE_KEY = Some ''$c''" by (simp add: sample_state_def)
  have t: "dhas (snd (seperate ?sets)) (''m.room.topic'', [])" by code_simp
  obtain u v where uv: "seperate ?sets = (u, v)" by fastforce
  note e = seperate_exact[OF uv list.distinct(2)]
  have "dget u CREATE_KEY = Some ''$c''" using e c by blast
  moreover obtain ids where ids: "dget v (''m.room.topic'', []) = Some ids" using t by (auto simp: uv dhas_def)
  moreover have "set ids = {i. \<exists>s \<in> set ?sets. dget s (''m.room.topic'', []) = Some i}" using e ids by blast
  ultimately show ?thesis unfolding uv fst_conv snd_conv by blast
qed


section \<open>Order and termination\<close>

lemma answers_table_store: "wf_dict table \<Longrightarrow> answers (dget table) (table_store table)"
  unfolding answers_def table_store_def StateResolutionStore.simps
proof (intro allI conjI)
  fix ids i
  assume w: "wf_dict table"
  then show f: "wf_dict (filter (\<lambda>(i, _). i \<in> set ids) table)"
    by (auto simp: wf_dict_def intro: distinct_map_filter)
  show "dget (filter (\<lambda>(i, _). i \<in> set ids) table) i = (if i \<in> set ids then dget table i else None)"
    using in_dict_iff[OF w, of i] in_dict_iff[OF f, of i]
    by (cases "dget (filter (\<lambda>(i, _). i \<in> set ids) table) i"; cases "dget table i") auto
qed

lemma ranked_table_store: "ranked_map rank table \<Longrightarrow> ranked_store rank (table_store table)"
  by (auto simp: ranked_store_def ranked_map_def table_store_def list_all_iff)

lemma ranked_auths: "ranked_map rank em \<Longrightarrow> a \<in> auths em n \<Longrightarrow> rank a < rank n"
  using ranked_map_at[of rank em] ranked_less[of rank n]
  by (cases "dget em n"; cases "auth_event_ids (the (dget em n))") (fastforce simp: auths_def ranked_at_def)+

lemma ranked_acyclic: "ranked_map rank em \<Longrightarrow> wf {(a, n). n \<in> set fcs \<and> a \<in> auths em n \<inter> set fcs}"
  by (rule wf_subset[OF wf_measure[of rank]]) (auto dest: ranked_auths)

definition sample_rank :: "string \<Rightarrow> nat" where
  "sample_rank i = (if i = ''$c'' then 0 else if i = ''$m'' then 1 else if i = ''$p'' then 2 else 3)"

lemma sample_ranked: "ranked_map sample_rank sample_table"
  by code_simp

lemma sample_wf: "wf_dict sample_table"
  by code_simp

definition sample_fcs :: "string list" where
  "sample_fcs = [''$t1'', ''$p'', ''$c'']"

lemma sample_power_sort:
  "returns (reverse_topological_power_sort (table_store sample_table) ''!r:h'' [''$p'', ''$c''] sample_fcs)
     sample_table [''$c'', ''$p''] sample_table"
  by code_simp

lemma sample_mainline_sort:
  "returns (mainline_sort (table_store sample_table) ''!r:h'' [''$t2'', ''$t1''] (Some ''$p''))
     sample_table [''$t1'', ''$t2''] sample_table"
  by code_simp

theorem power_events_sorted_witness:
  "\<exists>pl. (\<forall>n \<in> set [''$c'', ''$p'']. computed_level (table_store sample_table) ''!r:h'' sample_table sample_table n (pl n))
     \<and> (\<forall>as n bs. [''$c'', ''$p''] = as @ n # bs \<longrightarrow> auths sample_table n \<inter> set sample_fcs \<subseteq> set as)"
proof -
  have "set [''$p'', ''$c''] \<subseteq> set sample_fcs" by (simp add: sample_fcs_def)
  from power_events_sorted[OF faithful_sample this sample_power_sort ranked_acyclic[OF sample_ranked]]
  show ?thesis by blast
qed

theorem resolution_ends_witness:
  "(\<exists>st em'. returns (resolve_events_with_store sample_env (table_store sample_table) ''!r:h'' RV_V10
       [sample_state ''$t1'', sample_state ''$t2'']) sample_table st em')
    \<or> (\<exists>exn. resolve_events_with_store sample_env (table_store sample_table) ''!r:h'' RV_V10
       [sample_state ''$t1'', sample_state ''$t2''] sample_table = Some (Inl exn))"
  by (rule resolution_ends[OF faithful_sample ranked_table_store[OF sample_ranked] sample_ranked])

theorem leftover_events_sorted_witness:
  "\<exists>ms key. mainline_path (dget sample_table) (Some ''$p'') ms
     \<and> (\<forall>i \<in> set [''$t2'', ''$t1'']. mainline_order_of (dget sample_table) ms i (key i))
     \<and> sorted (map key [''$t1'', ''$t2''])"
  using leftover_events_sorted[OF answers_table_store[OF sample_wf] _ _ sample_mainline_sort]
  by (auto simp: drawn_from_def)

section \<open>A ban in conflict with a join\<close>

definition ban_table :: event_map where
  "ban_table = sample_table @
     [(''$u'', (sample_member RV_V10 ''@u:h'' Membership_JOIN)\<lparr>ev_event_id := ''$u'', ev_auth_events := [''$c'', ''$p'']\<rparr>),
      (''$b'', (sample_ban RV_V10)\<lparr>ev_event_id := ''$b'', ev_sender := ''@c:h'', ev_auth_events := [''$c'', ''$p'', ''$m'', ''$u'']\<rparr>)]"

definition ban_state :: "string \<Rightarrow> state_set" where
  "ban_state i = [(CREATE_KEY, ''$c''), (POWER_KEY, ''$p''), ((EventTypes_Member, ''@c:h''), ''$m''), ((EventTypes_Member, ''@u:h''), i)]"

definition ban_resolution :: "(state_set \<times> event_map) res option" where
  "ban_resolution = resolve_events_with_store sample_env (table_store ban_table) ''!r:h'' RV_V10
     [ban_state ''$u'', ban_state ''$b''] []"

lemma ban_resolution_value:
  "map_option (map_sum id fst) ban_resolution = Some (Inr (ban_state ''$b''))"
  by code_simp

lemma ban_resolution_returns:
  "\<exists>em'. returns (resolve_events_with_store sample_env (table_store ban_table) ''!r:h'' RV_V10
       [ban_state ''$u'', ban_state ''$b'']) [] (ban_state ''$b'') em'"
  using resolution_value[OF ban_resolution_value] unfolding ban_resolution_def .

lemma faithful_ban_table: "faithful_store (table_store ban_table)"
  by (rule faithful_table_store) code_simp

end
