(* ===== verification/State_Filter.thy ===== *)
theory State_Filter
  imports Events
begin

text \<open>
  Filters on room state (\<open>types/state.py\<close>): construction, expansion, splitting, subtraction and the
  translation to SQL. A filter maps event types to the set of state keys to fetch, or to \<open>None\<close> for
  all of them; Python's frozen sets are lists in which neither order nor repetition matters.
\<close>

section \<open>Construction\<close>

type_synonym filter_types = "(string, string list option) dict"

record StateFilter =
  sf_types :: filter_types
  include_others :: bool

text \<open>\<open>__attrs_post_init__\<close>: the constructor brings the types into canonical form.\<close>

definition canonical_types :: "filter_types \<Rightarrow> bool \<Rightarrow> filter_types" where
  "canonical_types types others =
     filter (\<lambda>(k, v). if others then v \<noteq> None else v \<noteq> Some []) types"

definition new_StateFilter :: "filter_types \<Rightarrow> bool \<Rightarrow> StateFilter" where
  "new_StateFilter types others = \<lparr>sf_types = canonical_types types others, include_others = others\<rparr>"

definition ALL_STATE_FILTER :: StateFilter where
  "ALL_STATE_FILTER = new_StateFilter [] True"

definition ALL_NON_MEMBER_STATE_FILTER :: StateFilter where
  "ALL_NON_MEMBER_STATE_FILTER = new_StateFilter [(EventTypes_Member, Some [])] True"

definition NONE_STATE_FILTER :: StateFilter where
  "NONE_STATE_FILTER = new_StateFilter [] False"

definition add_type :: "string \<times> string option \<Rightarrow> filter_types \<Rightarrow> filter_types" where
  "add_type = (\<lambda>(typ, s) type_dict.
     if dget type_dict typ = Some None then type_dict
     else (case s of
             None \<Rightarrow> dset typ None type_dict
           | Some k \<Rightarrow> dset typ (Some (List.insert k (case dget type_dict typ of Some (Some ks) \<Rightarrow> ks | _ \<Rightarrow> []))) type_dict))"

definition from_types :: "(string \<times> string option) list \<Rightarrow> StateFilter" where
  "from_types types = new_StateFilter (fold add_type types []) False"

definition to_types :: "StateFilter \<Rightarrow> (string \<times> string option) list" where
  "to_types f = concat (map (\<lambda>(t, ks). case ks of None \<Rightarrow> [(t, None)] | Some ks \<Rightarrow> map (\<lambda>k. (t, Some k)) ks) (sf_types f))"

definition from_lazy_load_member_list :: "string list \<Rightarrow> StateFilter" where
  "from_lazy_load_member_list members = new_StateFilter [(EventTypes_Member, Some members)] True"

definition freeze :: "filter_types \<Rightarrow> bool \<Rightarrow> StateFilter" where
  "freeze types others = new_StateFilter types others"

section \<open>Queries\<close>

definition is_full :: "StateFilter \<Rightarrow> bool" where
  "is_full f \<longleftrightarrow> include_others f \<and> sf_types f = []"

definition has_wildcards :: "StateFilter \<Rightarrow> bool" where
  "has_wildcards f \<longleftrightarrow> include_others f \<or> list_ex (\<lambda>ks. ks = None) (dvalues (sf_types f))"

definition concrete_types :: "StateFilter \<Rightarrow> StateKey list" where
  "concrete_types f = concat (map (\<lambda>(t, ks). case ks of None \<Rightarrow> [] | Some ks \<Rightarrow> map (Pair t) (remdups ks)) (sf_types f))"

definition wildcard_types :: "StateFilter \<Rightarrow> string list" where
  "wildcard_types f = map fst (filter (\<lambda>(t, ks). ks = None) (sf_types f))"

definition max_entries_returned :: "StateFilter \<Rightarrow> nat option" where
  "max_entries_returned f = (if has_wildcards f then None else Some (length (concrete_types f)))"

text \<open>\<open>__contains__\<close> on a pair of strings; on every other value it raises.\<close>

definition passes :: "StateFilter \<Rightarrow> StateKey \<Rightarrow> bool" where
  "passes f = (\<lambda>(typ, state_key).
     case dget (sf_types f) typ of
       Some state_keys \<Rightarrow> (case state_keys of None \<Rightarrow> True | Some ks \<Rightarrow> state_key \<in> set ks)
     | None \<Rightarrow> include_others f)"

datatype any_key = NotAPair | Pair_of json json

fun contains :: "StateFilter \<Rightarrow> any_key \<Rightarrow> bool res" where
  "contains f (Pair_of (JStr typ) (JStr k)) = Inr (passes f (typ, k))"
| "contains f _ = Inl TypeError"

definition filter_bool :: "StateFilter \<Rightarrow> bool" where
  "filter_bool f \<longleftrightarrow> include_others f \<or> sf_types f \<noteq> []"

definition filter_entry ::
    "StateFilter \<Rightarrow> StateKey \<times> 'v \<Rightarrow> (StateKey, 'v) dict \<Rightarrow> (StateKey, 'v) dict" where
  "filter_entry f = (\<lambda>((typ, state_key), v) filtered_state.
     case dget (sf_types f) typ of
       Some state_keys \<Rightarrow>
         (case state_keys of
            None \<Rightarrow> dset (typ, state_key) v filtered_state
          | Some ks \<Rightarrow> if state_key \<in> set ks then dset (typ, state_key) v filtered_state else filtered_state)
     | None \<Rightarrow> if include_others f then dset (typ, state_key) v filtered_state else filtered_state)"

definition filter_state :: "StateFilter \<Rightarrow> (StateKey, 'v) dict \<Rightarrow> (StateKey, 'v) dict" where
  "filter_state f state = (if is_full f then state else fold (filter_entry f) state [])"

definition must_await_full_state :: "(string \<Rightarrow> bool) \<Rightarrow> StateFilter \<Rightarrow> bool" where
  "must_await_full_state is_mine_id f =
     (case dget (sf_types f) EventTypes_Member of
        None \<Rightarrow> include_others f
      | Some None \<Rightarrow> True
      | Some (Some member_state_keys) \<Rightarrow> list_ex (\<lambda>state_key. \<not> is_mine_id state_key) member_state_keys)"

section \<open>Derived filters\<close>

definition return_expanded :: "StateFilter \<Rightarrow> StateFilter" where
  "return_expanded f =
     (if is_full f then f
      else if \<not> has_wildcards f then f
      else
        let get_all_members = (case dget (sf_types f) EventTypes_Member of
              Some ks \<Rightarrow> ks = None | None \<Rightarrow> include_others f);
            has_non_member_wildcard = include_others f
              \<or> list_ex (\<lambda>(t, ks). t \<noteq> EventTypes_Member \<and> ks = None) (sf_types f) in
        if \<not> has_non_member_wildcard then f
        else if get_all_members then ALL_STATE_FILTER
        else (case dget (sf_types f) EventTypes_Member of
                Some ks \<Rightarrow> new_StateFilter [(EventTypes_Member, ks)] True
              | None \<Rightarrow> ALL_NON_MEMBER_STATE_FILTER))"

definition get_member_split :: "StateFilter \<Rightarrow> StateFilter \<times> StateFilter" where
  "get_member_split f =
     (case dget (sf_types f) EventTypes_Member of
        Some None \<Rightarrow> ALL_STATE_FILTER
      | Some (Some ks) \<Rightarrow> new_StateFilter [(EventTypes_Member, Some ks)] False
      | None \<Rightarrow> if include_others f then ALL_STATE_FILTER else NONE_STATE_FILTER,
      new_StateFilter (filter (\<lambda>(k, v). k \<noteq> EventTypes_Member) (sf_types f)) (include_others f))"

type_synonym four_parts = "(bool \<times> string list) \<times> (string list \<times> StateKey list)"

definition decompose_into_four_parts :: "StateFilter \<Rightarrow> four_parts" where
  "decompose_into_four_parts f =
     ((include_others f, if include_others f then dkeys (sf_types f) else []),
      (wildcard_types f, concrete_types f))"

definition add_state_key :: "bool \<Rightarrow> StateKey \<Rightarrow> filter_types \<Rightarrow> filter_types" where
  "add_state_key all_part = (\<lambda>(state_type, state_key) new_types.
     case dget new_types state_type of
       Some None \<Rightarrow> new_types
     | Some (Some entry) \<Rightarrow> dset state_type (Some (List.insert state_key entry)) new_types
     | None \<Rightarrow> if all_part then new_types else dset state_type (Some [state_key]) new_types)"

definition recompose_from_four_parts :: "four_parts \<Rightarrow> StateFilter" where
  "recompose_from_four_parts = (\<lambda>((all_part, minus_wildcards), (plus_wildcards, plus_state_keys)).
     let excluded = (if all_part then fold (\<lambda>t. dset t (Some [])) minus_wildcards [] else []);
         wild = fold (\<lambda>t. dset t None) plus_wildcards excluded in
     freeze (fold (add_state_key all_part) plus_state_keys wild) all_part)"

text \<open>\<open>self - other\<close> on the four parts.\<close>

definition subtract_parts :: "four_parts \<Rightarrow> four_parts \<Rightarrow> four_parts" where
  "subtract_parts = (\<lambda>((self_all, self_excludes), (self_wildcards, self_concrete_keys))
                      ((other_all, other_excludes), (other_wildcards, other_concrete_keys)).
     let new_excludes = self_excludes @ other_wildcards;
         new_wildcards = filter (\<lambda>t. t \<notin> set other_wildcards) self_wildcards;
         new_concrete_keys = filter (\<lambda>k. fst k \<notin> set other_wildcards \<and> k \<notin> set other_concrete_keys) self_concrete_keys in
     if other_all then
       let widened = (if self_all then new_wildcards @ filter (\<lambda>t. t \<notin> set self_excludes) other_excludes
                      else new_wildcards) in
       ((False, []), (filter (\<lambda>t. t \<in> set other_excludes) widened,
                      filter (\<lambda>k. fst k \<in> set other_excludes) new_concrete_keys))
     else ((self_all, new_excludes), (new_wildcards, new_concrete_keys)))"

definition approx_difference :: "StateFilter \<Rightarrow> StateFilter \<Rightarrow> StateFilter" where
  "approx_difference self other =
     recompose_from_four_parts (subtract_parts (decompose_into_four_parts self) (decompose_into_four_parts other))"

section \<open>The SQL clause\<close>

text \<open>\<open>sep.join(ws)\<close>.\<close>

fun join_str :: "string \<Rightarrow> string list \<Rightarrow> string" where
  "join_str sep [] = []"
| "join_str sep [w] = w"
| "join_str sep (w # v # ws) = w @ sep @ join_str sep (v # ws)"

text \<open>The clauses of one entry of the types with their arguments.\<close>

definition entry_clauses :: "string \<times> string list option \<Rightarrow> (string \<times> string list) list" where
  "entry_clauses = (\<lambda>(etype, state_keys). case state_keys of
     None \<Rightarrow> [(''(type = ?)'', [etype])]
   | Some ks \<Rightarrow> map (\<lambda>k. (''(type = ? AND state_key = ?)'', [etype, k])) ks)"

definition make_sql_filter_clause :: "StateFilter \<Rightarrow> string \<times> string list" where
  "make_sql_filter_clause f =
     (if is_full f then ([], [])
      else if \<not> include_others f \<and> sf_types f = [] then (''1 = 2'', [])
      else
        let clauses = concat (map entry_clauses (sf_types f));
            where_clause = join_str '' OR '' (map fst clauses);
            where_args = concat (map snd clauses) in
        if include_others f then
          ((if where_clause \<noteq> [] then where_clause @ '' OR '' else where_clause)
             @ ''type NOT IN ('' @ join_with CHR '','' (replicate (length (sf_types f)) ''?'') @ '')'',
           where_args @ dkeys (sf_types f))
        else (where_clause, where_args))"

end
