(* ===== verification/State_Filter_Props.thy ===== *)
theory State_Filter_Props
  imports State_Filter
begin

text \<open>
  What the filters select: canonical form, the meaning of each constructor and of each derived
  filter, and the contract of subtraction that the state caches rely on.
\<close>

section \<open>Dictionaries built and filtered\<close>

lemma dget_filter: "wf_dict d \<Longrightarrow> dget (filter P d) k = (case dget d k of None \<Rightarrow> None | Some v \<Rightarrow> if P (k, v) then Some v else None)"
proof (induction d)
  case (Cons p d)
  obtain j w where p: "p = (j, w)" by (cases p)
  have "dget d j = None" using Cons.prems by (auto simp: p wf_dict_def map_of_eq_None_iff)
  then show ?case using Cons by (auto simp: p wf_dict_def split: option.splits)
qed simp

text \<open>Copying the entries of a dictionary that satisfy a test is filtering it.\<close>

lemma fold_dset_filter:
  "wf_dict (acc @ d) \<Longrightarrow> fold (\<lambda>(k, v) acc. if P k then dset k v acc else acc) d acc = acc @ filter (\<lambda>(k, v). P k) d"
proof (induction d arbitrary: acc)
  case (Cons p d)
  obtain k v where p: "p = (k, v)" by (cases p)
  have "\<not> dhas acc k" using Cons.prems by (auto simp: wf_dict_def p dhas_iff)
  then have s: "dset k v acc = acc @ [(k, v)]" by (rule dset_fresh)
  show ?case
  proof (cases "P k")
    case True
    with Cons.IH[of "acc @ [(k, v)]"] Cons.prems s show ?thesis by (simp add: p)
  next
    case False
    with Cons.IH[of acc] Cons.prems show ?thesis by (auto simp: p wf_dict_def)
  qed
qed simp

section \<open>Canonical filters\<close>

definition wf_filter :: "StateFilter \<Rightarrow> bool" where
  "wf_filter f \<longleftrightarrow> wf_dict (sf_types f)
     \<and> list_all (\<lambda>(k, v). if include_others f then v \<noteq> None else v \<noteq> Some []) (sf_types f)"

text \<open>What a table of types selects, before the constructor brings it into canonical form.\<close>

definition selects :: "filter_types \<Rightarrow> bool \<Rightarrow> StateKey \<Rightarrow> bool" where
  "selects types others = (\<lambda>(t, k). case dget types t of
     None \<Rightarrow> others | Some None \<Rightarrow> True | Some (Some ks) \<Rightarrow> k \<in> set ks)"

lemma new_StateFilter_sel [simp]:
  "include_others (new_StateFilter types others) = others"
  "sf_types (new_StateFilter types others) = canonical_types types others"
  by (simp_all add: new_StateFilter_def)

lemma wf_new_StateFilter [simp]: "wf_dict types \<Longrightarrow> wf_filter (new_StateFilter types others)"
  by (auto simp: wf_filter_def canonical_types_def list_all_iff)

lemma passes_selects: "passes f (t, k) = selects (sf_types f) (include_others f) (t, k)"
  by (auto simp: passes_def selects_def split: option.splits)

lemma passes_new [simp]: "wf_dict types \<Longrightarrow> passes (new_StateFilter types others) k = selects types others k"
  by (cases k) (auto simp: passes_def selects_def canonical_types_def dget_filter split: option.splits)

lemma wf_constants [simp]:
  "wf_filter ALL_STATE_FILTER" "wf_filter ALL_NON_MEMBER_STATE_FILTER" "wf_filter NONE_STATE_FILTER"
  by (simp_all add: ALL_STATE_FILTER_def ALL_NON_MEMBER_STATE_FILTER_def NONE_STATE_FILTER_def wf_dict_def)

lemma passes_constants [simp]:
  "passes ALL_STATE_FILTER k" "passes ALL_NON_MEMBER_STATE_FILTER k \<longleftrightarrow> fst k \<noteq> EventTypes_Member"
  "\<not> passes NONE_STATE_FILTER k"
  by (cases k; simp add: ALL_STATE_FILTER_def ALL_NON_MEMBER_STATE_FILTER_def NONE_STATE_FILTER_def wf_dict_def selects_def)+

section \<open>Lists of types\<close>

lemma wf_add_type [simp]: "wf_dict d \<Longrightarrow> wf_dict (add_type p d)"
  by (auto simp: add_type_def split: prod.splits option.splits)

lemma wf_add_types: "wf_dict d \<Longrightarrow> wf_dict (fold add_type ts d)"
  by (induction ts arbitrary: d) auto

lemma selects_add_type:
  "selects (add_type (t', s) d) False (t, k) \<longleftrightarrow> selects d False (t, k) \<or> t = t' \<and> (s = None \<or> s = Some k)"
  by (auto simp: add_type_def selects_def split: option.splits if_splits)

lemma selects_add_types:
  "selects (fold add_type ts d) False (t, k) \<longleftrightarrow> selects d False (t, k) \<or> (t, None) \<in> set ts \<or> (t, Some k) \<in> set ts"
proof (induction ts arbitrary: d)
  case (Cons p ts)
  obtain t' s where "p = (t', s)" by (cases p)
  then show ?case by (auto simp: Cons selects_add_type)
qed simp

lemma passes_from_types: "passes (from_types ts) (t, k) \<longleftrightarrow> (t, None) \<in> set ts \<or> (t, Some k) \<in> set ts"
  by (simp add: from_types_def wf_add_types selects_add_types) (simp add: selects_def)

lemma in_concat_map: "p \<in> set (concat (map F d)) \<longleftrightarrow> (\<exists>t v. (t, v) \<in> set d \<and> p \<in> set (F (t, v)))"
  by auto

lemma in_type_entry:
  "(t, s) \<in> set (case v of None \<Rightarrow> [(t', None)] | Some ks \<Rightarrow> map (\<lambda>k. (t', Some k)) ks) \<longleftrightarrow>
     t = t' \<and> (case v of None \<Rightarrow> s = None | Some ks \<Rightarrow> s \<in> Some ` set ks)"
  "(t, k) \<in> set (case v of None \<Rightarrow> [] | Some ks \<Rightarrow> map (Pair t') (remdups ks)) \<longleftrightarrow>
     t = t' \<and> (case v of None \<Rightarrow> False | Some ks \<Rightarrow> k \<in> set ks)"
  by (cases v; auto)+

lemma set_to_types:
  "wf_dict (sf_types f) \<Longrightarrow> (t, s) \<in> set (to_types f) \<longleftrightarrow>
     (case dget (sf_types f) t of None \<Rightarrow> False | Some None \<Rightarrow> s = None | Some (Some ks) \<Rightarrow> s \<in> Some ` set ks)"
  unfolding to_types_def in_concat_map prod.case in_type_entry in_dict_iff by (auto split: option.splits)

section \<open>The four parts\<close>

definition parts_pass :: "four_parts \<Rightarrow> StateKey \<Rightarrow> bool" where
  "parts_pass = (\<lambda>((all_part, excludes), (wildcards, keys)) k.
     all_part \<and> fst k \<notin> set excludes \<or> fst k \<in> set wildcards \<or> k \<in> set keys)"

lemma set_concrete_types:
  "wf_dict (sf_types f) \<Longrightarrow> (t, k) \<in> set (concrete_types f) \<longleftrightarrow> (\<exists>ks. dget (sf_types f) t = Some (Some ks) \<and> k \<in> set ks)"
  unfolding concrete_types_def in_concat_map prod.case in_type_entry in_dict_iff by (auto split: option.splits)

lemma set_wildcard_types: "wf_dict (sf_types f) \<Longrightarrow> t \<in> set (wildcard_types f) \<longleftrightarrow> dget (sf_types f) t = Some None"
proof -
  assume w: "wf_dict (sf_types f)"
  have "t \<in> set (wildcard_types f) \<longleftrightarrow> (t, None) \<in> set (sf_types f)" by (force simp: wildcard_types_def)
  then show ?thesis unfolding in_dict_iff[OF w] .
qed

lemma decompose_passes:
  assumes "wf_filter f"
  shows "parts_pass (decompose_into_four_parts f) (t, k) = passes f (t, k)"
proof -
  have w: "wf_dict (sf_types f)" using assms by (simp add: wf_filter_def)
  have "dget (sf_types f) t \<noteq> Some None" if "include_others f"
    using assms that by (auto simp: wf_filter_def list_all_iff dest!: dget_in)
  moreover have "t \<in> set (dkeys (sf_types f)) \<longleftrightarrow> dget (sf_types f) t \<noteq> None"
    using dhas_iff[of "sf_types f" t] by (simp add: dhas_def)
  ultimately show ?thesis unfolding parts_pass_def decompose_into_four_parts_def passes_def
    by (cases "dget (sf_types f) t"; cases "the (dget (sf_types f) t)")
      (simp_all add: set_concrete_types[OF w] set_wildcard_types[OF w])
qed

lemma dget_fold_const: "dget (fold (\<lambda>t. dset t c) ts d) t = (if t \<in> set ts then Some c else dget d t)"
  by (induction ts arbitrary: d) auto

lemma wf_fold_const [simp]: "wf_dict d \<Longrightarrow> wf_dict (fold (\<lambda>t. dset t c) ts d)"
  by (induction ts arbitrary: d) auto

lemma wf_add_state_key [simp]: "wf_dict d \<Longrightarrow> wf_dict (add_state_key a k d)"
  by (auto simp: add_state_key_def split: prod.splits option.splits)

lemma wf_add_state_keys [simp]: "wf_dict d \<Longrightarrow> wf_dict (fold (add_state_key a) ks d)"
  by (induction ks arbitrary: d) auto

lemma selects_add_state_key: "selects (add_state_key a k' d) a k \<longleftrightarrow> selects d a k \<or> k = k'"
  by (cases k; cases k') (auto simp: add_state_key_def selects_def split: option.splits if_splits)

lemma selects_add_state_keys: "selects (fold (add_state_key a) ks d) a k \<longleftrightarrow> selects d a k \<or> k \<in> set ks"
  by (induction ks arbitrary: d) (auto simp: selects_add_state_key)

lemma recompose_passes:
  "passes (recompose_from_four_parts parts) k = parts_pass parts k" "wf_filter (recompose_from_four_parts parts)"
proof -
  obtain a ex ws ks where parts: "parts = ((a, ex), (ws, ks))" by (cases parts; cases "fst parts"; cases "snd parts") auto
  let ?excluded = "if a then fold (\<lambda>t. dset t (Some [])) ex [] else []"
  let ?wild = "fold (\<lambda>t. dset t None) ws ?excluded"
  have w: "wf_dict ?wild" by simp
  show "wf_filter (recompose_from_four_parts parts)"
    using w by (simp add: parts recompose_from_four_parts_def freeze_def Let_def)
  have "selects ?wild a k \<longleftrightarrow> a \<and> fst k \<notin> set ex \<or> fst k \<in> set ws"
    by (cases k) (auto simp: selects_def dget_fold_const)
  then show "passes (recompose_from_four_parts parts) k = parts_pass parts k"
    using w by (auto simp: parts recompose_from_four_parts_def freeze_def Let_def selects_add_state_keys parts_pass_def)
qed

text \<open>A part takes the whole of a type, or only the keys it names: there are always more keys.\<close>

definition whole_type :: "four_parts \<Rightarrow> string \<Rightarrow> bool" where
  "whole_type = (\<lambda>((all_part, excludes), (wildcards, keys)) t. all_part \<and> t \<notin> set excludes \<or> t \<in> set wildcards)"

lemma whole_type_iff: "(\<forall>k. parts_pass p (t, k)) \<longleftrightarrow> whole_type p t"
proof -
  have "\<exists>k. (t, k) \<notin> set ks" for ks :: "StateKey list"
  proof -
    have "finite {k. (t, k) \<in> set ks}" by (rule finite_subset[of _ "snd ` set ks"]) force+
    then show ?thesis using infinite_UNIV_listI by (metis (mono_tags) ex_new_if_finite mem_Collect_eq)
  qed
  then show ?thesis by (auto simp: whole_type_def parts_pass_def split: prod.splits)
qed

lemma subtract_passes:
  assumes "fst (fst q) \<Longrightarrow> fst (snd q) = []"
  shows "parts_pass (subtract_parts p q) (t, k) \<longleftrightarrow>
    \<not> whole_type q t \<and> (whole_type p t \<or> (t, k) \<in> set (snd (snd p)) - set (snd (snd q)))"
proof -
  obtain a ex ws ks a' ex' ws' ks' where pq: "p = ((a, ex), (ws, ks))" "q = ((a', ex'), (ws', ks'))"
    by (metis surj_pair)
  show ?thesis using assms
    by (cases a') (auto simp: pq parts_pass_def subtract_parts_def whole_type_def Let_def)
qed

lemma parts_pass_whole: "parts_pass p (t, k) \<longleftrightarrow> whole_type p t \<or> (t, k) \<in> set (snd (snd p))"
  by (auto simp: parts_pass_def whole_type_def split: prod.splits)

lemma decompose_no_wildcards:
  "wf_filter f \<Longrightarrow> fst (fst (decompose_into_four_parts f)) \<Longrightarrow> fst (snd (decompose_into_four_parts f)) = []"
  by (auto simp: wf_filter_def decompose_into_four_parts_def wildcard_types_def list_all_iff filter_empty_conv)

lemma passes_difference:
  assumes "wf_filter self" "wf_filter other"
  shows "passes (approx_difference self other) (t, k) \<longleftrightarrow> passes self (t, k) \<and>
    (\<not> passes other (t, k) \<or> (\<forall>k'. passes self (t, k')) \<and> (\<exists>k'. \<not> passes other (t, k')))"
proof -
  let ?p = "decompose_into_four_parts self" and ?q = "decompose_into_four_parts other"
  have self: "passes self (t, k') \<longleftrightarrow> whole_type ?p t \<or> (t, k') \<in> set (snd (snd ?p))" for k'
    by (simp add: decompose_passes[OF assms(1), symmetric] parts_pass_whole)
  have other: "passes other (t, k') \<longleftrightarrow> whole_type ?q t \<or> (t, k') \<in> set (snd (snd ?q))" for k'
    by (simp add: decompose_passes[OF assms(2), symmetric] parts_pass_whole)
  have all: "(\<forall>k'. passes self (t, k')) \<longleftrightarrow> whole_type ?p t" "(\<exists>k'. \<not> passes other (t, k')) \<longleftrightarrow> \<not> whole_type ?q t"
    using whole_type_iff[of ?p t] whole_type_iff[of ?q t] by (auto simp: decompose_passes assms)
  have "parts_pass (subtract_parts ?p ?q) (t, k) \<longleftrightarrow>
      \<not> whole_type ?q t \<and> (whole_type ?p t \<or> (t, k) \<in> set (snd (snd ?p)) - set (snd (snd ?q)))"
    by (rule subtract_passes) (rule decompose_no_wildcards[OF assms(2)])
  then show ?thesis unfolding approx_difference_def recompose_passes all by (simp only: self other) blast
qed

section \<open>Subtraction as a cache uses it\<close>

text \<open>
  The contract of subtraction: the difference covers what one filter has beyond another, and stays
  within the first. A cache that holds the state of \<open>b\<close> and fetches that of \<open>diff a b\<close> can answer
  \<open>a\<close>, and does not fetch anything that \<open>a\<close> does not ask for.
\<close>

locale filter_difference =
  fixes valid :: "'f \<Rightarrow> bool" and admits :: "'f \<Rightarrow> 'k \<Rightarrow> bool" and diff :: "'f \<Rightarrow> 'f \<Rightarrow> 'f"
  assumes diff_covers: "valid a \<Longrightarrow> valid b \<Longrightarrow> admits a k \<Longrightarrow> \<not> admits b k \<Longrightarrow> admits (diff a b) k"
    and diff_within: "valid a \<Longrightarrow> valid b \<Longrightarrow> admits (diff a b) k \<Longrightarrow> admits a k"
    and diff_valid: "valid a \<Longrightarrow> valid b \<Longrightarrow> valid (diff a b)"
begin

lemma diffs_valid: "valid a \<Longrightarrow> list_all valid bs \<Longrightarrow> valid (fold (\<lambda>b a. diff a b) bs a)"
  by (induction bs arbitrary: a) (auto simp: diff_valid)

lemma diffs_within: "valid a \<Longrightarrow> list_all valid bs \<Longrightarrow> admits (fold (\<lambda>b a. diff a b) bs a) k \<Longrightarrow> admits a k"
proof (induction bs arbitrary: a)
  case (Cons b bs)
  have "valid a" "valid b" "list_all valid bs" using Cons.prems by auto
  with Cons.IH[of "diff a b"] Cons.prems(3) show ?case by (auto simp: diff_valid intro: diff_within)
qed simp

lemma diffs_cover:
  "valid a \<Longrightarrow> list_all valid bs \<Longrightarrow> admits a k \<Longrightarrow> \<not> list_ex (\<lambda>b. admits b k) bs \<Longrightarrow>
     admits (fold (\<lambda>b a. diff a b) bs a) k"
  by (induction bs arbitrary: a) (auto simp: diff_covers diff_valid)

lemma refill:
  assumes "valid a" "valid b" "admits a k"
  shows "(m |` {k. admits b k} ++ m |` {k. admits (diff a b) k}) k = m k"
  using diff_covers[OF assms(1,2,3)] by (auto simp: restrict_map_def map_add_def split: option.splits)

end

interpretation state_filter: filter_difference wf_filter passes approx_difference
proof
  fix a b and k :: StateKey
  assume w: "wf_filter a" "wf_filter b"
  show "passes a k \<Longrightarrow> \<not> passes b k \<Longrightarrow> passes (approx_difference a b) k"
    and "passes (approx_difference a b) k \<Longrightarrow> passes a k"
    using passes_difference[OF w, of "fst k" "snd k"] by simp_all
  show "wf_filter (approx_difference a b)" by (simp add: approx_difference_def recompose_passes)
qed

section \<open>The meaning of the SQL clause\<close>

text \<open>
  The fragment of SQL the clauses are written in, read from the text: a disjunction of conditions
  on the two columns, each placeholder taking the next argument.
\<close>

fun strip_prefix :: "string \<Rightarrow> string \<Rightarrow> string option" where
  "strip_prefix [] s = Some s"
| "strip_prefix (c # p) (d # s) = (if c = d then strip_prefix p s else None)"
| "strip_prefix (c # p) [] = None"

lemma strip_prefix_append [simp]: "strip_prefix p (p @ s) = Some s"
  by (induction p) auto

lemma strip_prefix_length: "strip_prefix p s = Some r \<Longrightarrow> length s = length p + length r"
  by (induction p s rule: strip_prefix.induct) (auto split: if_splits)

text \<open>\<open>?,?,?)\<close> with the arguments it takes.\<close>

fun placeholders :: "string \<Rightarrow> string list \<Rightarrow> (string list \<times> string \<times> string list) option" where
  "placeholders s [] = None"
| "placeholders s (a # as) = Option.bind (strip_prefix ''?'' s) (\<lambda>s.
     case strip_prefix '','' s of
       Some s \<Rightarrow> map_option (\<lambda>(xs, r). (a # xs, r)) (placeholders s as)
     | None \<Rightarrow> map_option (\<lambda>s. ([a], s, as)) (strip_prefix '')'' s))"

definition sql_condition :: "string \<Rightarrow> string list \<Rightarrow> StateKey \<Rightarrow> (bool \<times> string \<times> string list) option" where
  "sql_condition s args = (\<lambda>(t, k).
     case strip_prefix ''(type = ? AND state_key = ?)'' s of
       Some s \<Rightarrow> (case args of a # b # args \<Rightarrow> Some (t = a \<and> k = b, s, args) | _ \<Rightarrow> None)
     | None \<Rightarrow>
    (case strip_prefix ''(type = ?)'' s of
       Some s \<Rightarrow> (case args of a # args \<Rightarrow> Some (t = a, s, args) | _ \<Rightarrow> None)
     | None \<Rightarrow>
    (case strip_prefix ''type NOT IN ('' s of
       Some s \<Rightarrow> map_option (\<lambda>(xs, s, args). (t \<notin> set xs, s, args)) (placeholders s args)
     | None \<Rightarrow> map_option (\<lambda>s. (False, s, args)) (strip_prefix ''1 = 2'' s))))"

text \<open>The disjunction; \<open>n\<close> bounds the number of its conditions.\<close>

fun sql_or :: "nat \<Rightarrow> string \<Rightarrow> string list \<Rightarrow> StateKey \<Rightarrow> bool option" where
  "sql_or 0 s args row = None"
| "sql_or (Suc n) s args row = Option.bind (sql_condition s args row) (\<lambda>(b, s, args).
     if s = [] then (if args = [] then Some b else None)
     else Option.bind (strip_prefix '' OR '' s) (\<lambda>s. map_option ((\<or>) b) (sql_or n s args row)))"

text \<open>A query without a condition returns every row.\<close>

definition sql_where :: "string \<times> string list \<Rightarrow> StateKey \<Rightarrow> bool option" where
  "sql_where = (\<lambda>(s, args) row. if s = [] then (if args = [] then Some True else None) else sql_or (length s) s args row)"

lemma placeholders_ok:
  "xs \<noteq> [] \<Longrightarrow> placeholders (join_with CHR '','' (replicate (length xs) ''?'') @ '')'' @ s) (xs @ args) = Some (xs, s, args)"
proof (induction xs)
  case (Cons x xs)
  then show ?case by (cases xs) auto
qed simp

lemma sql_condition_key:
  "sql_condition (''(type = ? AND state_key = ?)'' @ s) (a # b # args) (t, k) = Some (t = a \<and> k = b, s, args)"
  unfolding sql_condition_def prod.case strip_prefix_append by simp

lemma sql_condition_type: "sql_condition (''(type = ?)'' @ s) (a # args) (t, k) = Some (t = a, s, args)"
  unfolding sql_condition_def prod.case strip_prefix_append by simp

lemma sql_condition_not_in:
  "xs \<noteq> [] \<Longrightarrow> sql_condition (''type NOT IN ('' @ join_with CHR '','' (replicate (length xs) ''?'') @ '')'' @ s) (xs @ args) (t, k)
     = Some (t \<notin> set xs, s, args)"
  using placeholders_ok[of xs s args] unfolding sql_condition_def prod.case strip_prefix_append by simp

text \<open>A clause with its arguments reads as a condition that holds of the row or does not.\<close>

definition reads :: "StateKey \<Rightarrow> string \<times> string list \<Rightarrow> bool \<Rightarrow> bool" where
  "reads row c b \<longleftrightarrow> fst c \<noteq> [] \<and> (\<forall>s args. sql_condition (fst c @ s) (snd c @ args) row = Some (b, s, args))"

lemma sql_or_join:
  "cs \<noteq> [] \<Longrightarrow> \<forall>c \<in> set cs. reads row c (val c) \<Longrightarrow> length cs \<le> n \<Longrightarrow>
     sql_or n (join_str '' OR '' (map fst cs)) (concat (map snd cs)) row = Some (\<exists>c \<in> set cs. val c)"
proof (induction cs arbitrary: n)
  case (Cons c cs)
  obtain m where n: "n = Suc m" "length cs \<le> m" using Cons.prems(3) by (cases n) auto
  have c: "sql_condition (fst c @ s) (snd c @ args) row = Some (val c, s, args)" for s args
    using Cons.prems(2) by (simp add: reads_def)
  show ?case
  proof (cases cs)
    case Nil
    then show ?thesis using c[of "[]" "[]"] by (simp add: n)
  next
    case (Cons d ds)
    with Cons.IH[of m] Cons.prems(2) n(2) c show ?thesis by (simp add: n(1))
  qed
qed simp

lemma length_join_str: "\<forall>w \<in> set ws. w \<noteq> [] \<Longrightarrow> length ws \<le> length (join_str sep ws)"
proof (induction sep ws rule: join_str.induct)
  case (2 sep w)
  then show ?case by (cases w) auto
next
  case (3 sep w v ws)
  then show ?case by (cases w) auto
qed simp

lemma join_str_snoc: "join_str sep (ws @ [w]) = (if ws = [] then w else join_str sep ws @ sep @ w)"
  by (induction sep ws rule: join_str.induct) auto

lemma reads_unique: "reads row c b \<Longrightarrow> reads row c b' \<Longrightarrow> b = b'"
  unfolding reads_def by (metis option.inject prod.inject)

lemma sql_where_join:
  assumes "cs \<noteq> []" "\<forall>c \<in> set cs. \<exists>b. reads row c b"
  shows "sql_where (join_str '' OR '' (map fst cs), concat (map snd cs)) row = Some (\<exists>c \<in> set cs. reads row c True)"
proof -
  let ?s = "join_str '' OR '' (map fst cs)"
  have val: "\<forall>c \<in> set cs. reads row c (reads row c True)"
  proof
    fix c assume "c \<in> set cs"
    with assms(2) obtain b where b: "reads row c b" by blast
    then have "reads row c True \<longleftrightarrow> b" using reads_unique[OF b, of True] by (cases b) auto
    with b show "reads row c (reads row c True)" by simp
  qed
  have le: "length cs \<le> length ?s"
    using length_join_str[of "map fst cs" "'' OR ''"] assms(2) by (auto simp: reads_def)
  with assms(1) have "?s \<noteq> []" by (cases cs) auto
  with sql_or_join[OF assms(1) val le] show ?thesis by (simp add: sql_where_def)
qed

lemma entry_clauses_read:
  assumes "c \<in> set (entry_clauses (etype, ks))"
  shows "reads (t, k) c (t = etype \<and> (ks = None \<or> snd c = [etype, k]))"
proof (cases ks)
  case None
  with assms have "c = (''(type = ?)'', [etype])" by (simp add: entry_clauses_def)
  with None show ?thesis using sql_condition_type[of _ etype _ t k] by (simp add: reads_def)
next
  case (Some ks')
  with assms obtain j where "c = (''(type = ? AND state_key = ?)'', [etype, j])" by (auto simp: entry_clauses_def)
  with Some show ?thesis using sql_condition_key[of _ etype j _ t k] by (auto simp: reads_def)
qed

lemma clauses_pass:
  "(\<exists>c \<in> set (concat (map entry_clauses types)). reads (t, k) c True) \<longleftrightarrow>
     (\<exists>ks. (t, ks) \<in> set types \<and> (ks = None \<or> k \<in> set (the ks)))"
proof
  assume "\<exists>c \<in> set (concat (map entry_clauses types)). reads (t, k) c True"
  then obtain e ks c where c: "(e, ks) \<in> set types" "c \<in> set (entry_clauses (e, ks))" "reads (t, k) c True"
    unfolding Bex_def in_concat_map by blast
  from reads_unique[OF c(3) entry_clauses_read[OF c(2)]] have "t = e \<and> (ks = None \<or> snd c = [e, k])" by simp
  with c(1,2) show "\<exists>ks. (t, ks) \<in> set types \<and> (ks = None \<or> k \<in> set (the ks))"
    by (cases ks) (auto simp: entry_clauses_def)
next
  assume "\<exists>ks. (t, ks) \<in> set types \<and> (ks = None \<or> k \<in> set (the ks))"
  then obtain ks where ks: "(t, ks) \<in> set types" "ks = None \<or> k \<in> set (the ks)" by blast
  obtain c where c: "c \<in> set (entry_clauses (t, ks))" "ks = None \<or> snd c = [t, k]"
    using ks(2) by (cases ks) (force simp: entry_clauses_def)+
  with entry_clauses_read[OF c(1), of t k] have "reads (t, k) c True" by simp
  with ks(1) c(1) show "\<exists>c \<in> set (concat (map entry_clauses types)). reads (t, k) c True"
    unfolding Bex_def in_concat_map by blast
qed

lemma clauses_read: "c \<in> set (concat (map entry_clauses types)) \<Longrightarrow> \<exists>b. reads (t, k) c b"
  unfolding in_concat_map using entry_clauses_read by blast

lemma dict_entry_pass:
  "wf_dict types \<Longrightarrow> (\<exists>ks. (t, ks) \<in> set types \<and> (ks = None \<or> k \<in> set (the ks))) \<longleftrightarrow> dhas types t \<and> selects types False (t, k)"
  unfolding in_dict_iff by (auto simp: selects_def dhas_def split: option.splits)

lemma join_clauses_ne:
  assumes "cs \<noteq> []" "\<forall>c \<in> set cs. \<exists>b. reads row c b"
  shows "join_str sep (map fst cs) \<noteq> []"
  using length_join_str[of "map fst cs" sep] assms by (cases cs) (auto simp: reads_def)

text \<open>One more clause after the others, joined as the code does it.\<close>

lemma sql_where_disjoin:
  assumes cs: "\<forall>c \<in> set cs. \<exists>b. reads row c b" and last: "reads row (w, ks) b"
    and s: "s = join_str '' OR '' (map fst cs)"
  shows "sql_where ((if s \<noteq> [] then s @ '' OR '' else s) @ w, concat (map snd cs) @ ks) row
    = Some ((\<exists>c \<in> set cs. reads row c True) \<or> b)"
proof -
  let ?cs = "cs @ [(w, ks)]"
  have "(if s \<noteq> [] then s @ '' OR '' else s) @ w = join_str '' OR '' (map fst ?cs)"
    using join_clauses_ne[OF _ cs, of "'' OR ''"] unfolding s map_append
    by (cases "cs = []") (simp_all add: join_str_snoc)
  moreover have "concat (map snd cs) @ ks = concat (map snd ?cs)" by simp
  moreover have "\<forall>c \<in> set ?cs. \<exists>b. reads row c b" using cs last by auto
  moreover have "reads row (w, ks) True \<longleftrightarrow> b" using last reads_unique[OF last, of True] by (cases b) auto
  ultimately show ?thesis using sql_where_join[of ?cs row] by auto
qed

lemma sql_clause_types:
  assumes "wf_filter f" "\<not> include_others f" "sf_types f \<noteq> []"
  shows "sql_where (make_sql_filter_clause f) (t, k) = Some (passes f (t, k))"
proof -
  let ?C = "concat (map entry_clauses (sf_types f))"
  have w: "wf_dict (sf_types f)" using assms(1) by (simp add: wf_filter_def)
  have ne: "?C \<noteq> []" using assms by (cases "sf_types f") (auto simp: wf_filter_def entry_clauses_def split: option.splits)
  have "make_sql_filter_clause f = (join_str '' OR '' (map fst ?C), concat (map snd ?C))"
    using assms(2,3) by (simp add: make_sql_filter_clause_def is_full_def Let_def)
  moreover have "\<forall>c \<in> set ?C. \<exists>b. reads (t, k) c b" using clauses_read by blast
  moreover have "passes f (t, k) \<longleftrightarrow> dhas (sf_types f) t \<and> selects (sf_types f) False (t, k)"
    using assms(2) by (auto simp: passes_selects selects_def dhas_def split: option.splits)
  ultimately show ?thesis using sql_where_join[OF ne] by (simp only: clauses_pass dict_entry_pass[OF w])
qed

lemma sql_clause_others:
  assumes "wf_filter f" "include_others f" "sf_types f \<noteq> []"
  shows "sql_where (make_sql_filter_clause f) (t, k) = Some (passes f (t, k))"
proof -
  let ?C = "concat (map entry_clauses (sf_types f))" and ?ks = "dkeys (sf_types f)"
  let ?w = "''type NOT IN ('' @ join_with CHR '','' (replicate (length (sf_types f)) ''?'') @ '')''"
  have w: "wf_dict (sf_types f)" using assms(1) by (simp add: wf_filter_def)
  have last: "reads (t, k) (?w, ?ks) (t \<notin> set ?ks)"
    using sql_condition_not_in[of ?ks _ _ t k] assms(3) by (simp add: reads_def)
  have cs: "\<forall>c \<in> set ?C. \<exists>b. reads (t, k) c b" using clauses_read by blast
  let ?s = "join_str '' OR '' (map fst ?C)"
  have "make_sql_filter_clause f = ((if ?s \<noteq> [] then ?s @ '' OR '' else ?s) @ ?w, concat (map snd ?C) @ ?ks)"
    using assms(2,3) by (simp only: make_sql_filter_clause_def is_full_def Let_def if_True if_False simp_thms)
  moreover have "passes f (t, k) \<longleftrightarrow> dhas (sf_types f) t \<and> selects (sf_types f) False (t, k) \<or> t \<notin> set ?ks"
    unfolding dhas_iff[symmetric] using assms(2) by (auto simp: passes_selects selects_def dhas_def split: option.splits)
  ultimately show ?thesis using sql_where_disjoin[OF cs last refl] by (simp only: clauses_pass dict_entry_pass[OF w])
qed

end
