(* ===== verification/State_Filter_Theorems.thy ===== *)
theory State_Filter_Theorems
  imports State_Filter_Props
begin

text \<open>The properties of the state filters.\<close>

section \<open>Filtering\<close>

lemma filter_state_list:
  fixes st :: "(StateKey, 'v) dict"
  assumes "wf_filter f" "wf_dict st"
  shows "filter_state f st = filter (\<lambda>(k, v). passes f k) st"
proof (cases "is_full f")
  case True
  then have "passes f k" for k by (cases k) (simp add: is_full_def passes_def)
  with True show ?thesis by (simp add: filter_state_def)
next
  case False
  have "(filter_entry f :: _ \<times> 'v \<Rightarrow> _) = (\<lambda>(k, v) acc. if passes f k then dset k v acc else acc)"
    by (auto simp: filter_entry_def passes_def fun_eq_iff split: option.splits)
  with False fold_dset_filter[of "[]" st "passes f"] assms(2) show ?thesis by (simp add: filter_state_def)
qed

lemma dget_filter_state:
  "wf_filter f \<Longrightarrow> wf_dict st \<Longrightarrow> dget (filter_state f st) k = (if passes f k then dget st k else None)"
  by (simp add: filter_state_list dget_filter split: option.splits)

lemma distinct_concrete_types:
  assumes "wf_dict (sf_types f)"
  shows "distinct (concrete_types f)"
proof -
  let ?F = "\<lambda>(t, ks). case ks of None \<Rightarrow> [] | Some ks \<Rightarrow> map (Pair t) (remdups ks)"
  have "distinct (concat (map ?F d))" if "wf_dict d" for d :: filter_types
    using that
  proof (induction d)
    case (Cons p d)
    obtain t ks where p: "p = (t, ks)" by (cases p)
    have t: "t \<notin> fst ` set d" and d: "wf_dict d" using Cons.prems by (auto simp: p wf_dict_def)
    have "(t, k) \<notin> set (concat (map ?F d))" for k
      unfolding in_concat_map prod.case in_type_entry using t by force
    moreover have "distinct (?F (t, ks))" "\<And>x. x \<in> set (?F (t, ks)) \<Longrightarrow> fst x = t"
      by (auto simp: distinct_map inj_on_def split: option.splits)
    ultimately have "distinct (?F (t, ks) @ concat (map ?F d))"
      using Cons.IH[OF d] unfolding distinct_append by (metis disjoint_iff prod.collapse)
    then show ?case by (simp add: p)
  qed simp
  with assms show ?thesis unfolding concrete_types_def by blast
qed

lemma passes_concrete:
  assumes "wf_filter f" "\<not> has_wildcards f"
  shows "passes f k \<longleftrightarrow> k \<in> set (concrete_types f)"
proof -
  have w: "wf_dict (sf_types f)" using assms(1) by (simp add: wf_filter_def)
  obtain t s where k: "k = (t, s)" by (cases k)
  have "dget (sf_types f) t \<noteq> Some None" "\<not> include_others f"
    using assms(2) by (force simp: has_wildcards_def list_ex_iff dest: dget_in)+
  then show ?thesis unfolding k set_concrete_types[OF w] by (auto simp: passes_def split: option.splits)
qed

section \<open>Properties\<close>

definition sample_filter :: StateFilter where
  "sample_filter = from_types [(''m.room.member'', Some ''@a:h''), (''m.room.name'', None)]"

lemma sample_filter_wf: "wf_filter sample_filter"
  by code_simp

text \<open>
  Every filter the code builds is in canonical form: no type occurs twice, a filter that includes
  the other types has no wildcard entry, and one that does not has no empty entry.
\<close>

theorem filters_canonical:
  "wf_filter (from_types ts) \<and> wf_filter (from_lazy_load_member_list ms) \<and> wf_filter (approx_difference f g)
    \<and> (wf_filter f \<longrightarrow> wf_filter (return_expanded f)
         \<and> wf_filter (fst (get_member_split f)) \<and> wf_filter (snd (get_member_split f)))"
  by (auto simp: from_types_def from_lazy_load_member_list_def approx_difference_def recompose_passes wf_add_types
      return_expanded_def get_member_split_def Let_def wf_filter_def[of f] wf_dict_def[of "[_]"] split: option.splits)

theorem filters_canonical_witness:
  "wf_filter (return_expanded sample_filter) \<and> wf_filter (snd (get_member_split sample_filter))"
  using filters_canonical[of "[]" "[]" sample_filter sample_filter] sample_filter_wf by blast

text \<open>
  C8. The difference of two filters selects exactly the state that the first selects and the
  second does not, except that for a type the first selects as a whole and the second only in part
  it selects the whole type; in particular it never misses state, nor selects more than the first.
\<close>

theorem difference_exact:
  assumes "wf_filter self" and "wf_filter other"
  shows "passes (approx_difference self other) (t, k) \<longleftrightarrow> passes self (t, k) \<and>
    (\<not> passes other (t, k) \<or> (\<forall>k'. passes self (t, k')) \<and> (\<exists>k'. \<not> passes other (t, k')))"
  using passes_difference[OF assms] .

theorem difference_exact_witness:
  "passes (approx_difference ALL_STATE_FILTER sample_filter) (''m.room.topic'', [])
    \<longleftrightarrow> passes ALL_STATE_FILTER (''m.room.topic'', []) \<and>
      (\<not> passes sample_filter (''m.room.topic'', []) \<or> (\<forall>k'. passes ALL_STATE_FILTER (''m.room.topic'', k'))
         \<and> (\<exists>k'. \<not> passes sample_filter (''m.room.topic'', k')))"
  by (rule difference_exact[OF wf_constants(1) sample_filter_wf])

text \<open>
  C34. A cache that holds the state selected by one filter answers any other filter correctly after
  fetching the state selected by the difference.
\<close>

theorem difference_refills:
  assumes "wf_filter self" and "wf_filter other" and "wf_dict st"
  shows "dget (filter_state self (dupdate (filter_state other st) (filter_state (approx_difference self other) st))) k
    = dget (filter_state self st) k"
proof -
  note w = state_filter.diff_valid[OF assms(1,2)]
  have "dget (dupdate (filter_state other st) (filter_state (approx_difference self other) st)) k = dget st k"
    if "passes self k"
    using state_filter.refill[OF assms(1,2) that, of "dget st"] wf_filter_dict[OF assms(3)]
    by (simp add: dget_dupdate filter_state_list[OF _ assms(3)] w assms restrict_map_def map_add_def dget_filter
        split: option.splits if_splits)
  then show ?thesis using assms wf_filter_dict[OF assms(3)]
    by (simp add: dget_filter_state filter_state_list[OF assms(2,3)])
qed

theorem difference_refills_witness:
  "\<exists>st :: (StateKey, nat) dict. st \<noteq> [] \<and> (\<exists>k. passes sample_filter k \<and>
     dget (filter_state ALL_STATE_FILTER (dupdate (filter_state sample_filter st)
       (filter_state (approx_difference ALL_STATE_FILTER sample_filter) st))) k
     = dget (filter_state ALL_STATE_FILTER st) k)"
proof (intro exI conjI)
  let ?st = "[((''m.room.name'', []), 1), ((''m.room.topic'', []), 2 :: nat)]"
  show "?st \<noteq> []" by simp
  show "passes sample_filter (''m.room.name'', [])" by code_simp
  show "dget (filter_state ALL_STATE_FILTER (dupdate (filter_state sample_filter ?st)
       (filter_state (approx_difference ALL_STATE_FILTER sample_filter) ?st))) (''m.room.name'', [])
     = dget (filter_state ALL_STATE_FILTER ?st) (''m.room.name'', [])"
    by (rule difference_refills[OF wf_constants(1) sample_filter_wf]) (simp add: wf_dict_def)
qed

text \<open>
  The two halves of the member split are exact: the first decides for membership events, the
  second for all others.
\<close>

theorem member_split_exact:
  assumes "wf_filter f"
  shows "passes (fst (get_member_split f)) (EventTypes_Member, k) = passes f (EventTypes_Member, k)
    \<and> (t \<noteq> EventTypes_Member \<longrightarrow> passes (snd (get_member_split f)) (t, k) = passes f (t, k))"
proof -
  have w: "wf_dict (sf_types f)" using assms by (simp add: wf_filter_def)
  have m: "wf_dict [(EventTypes_Member, x :: string list option)]" for x by (simp add: wf_dict_def)
  have "wf_dict (filter (\<lambda>(k, v). k \<noteq> EventTypes_Member) (sf_types f))" using w by simp
  with m show ?thesis
    by (auto simp: get_member_split_def selects_def passes_def[of f] dget_filter[OF w] split: option.splits)
qed

theorem member_split_exact_witness:
  "passes (fst (get_member_split sample_filter)) (EventTypes_Member, ''@a:h'')
    \<and> (\<exists>t. t \<noteq> EventTypes_Member \<and> passes (snd (get_member_split sample_filter)) (t, ''x''))"
proof -
  have a: "passes sample_filter (EventTypes_Member, ''@a:h'')" by code_simp
  have b: "passes sample_filter (''m.room.name'', ''x'')" by code_simp
  have c: "''m.room.name'' \<noteq> EventTypes_Member" by code_simp
  have "passes (fst (get_member_split sample_filter)) (EventTypes_Member, ''@a:h'')"
    using member_split_exact[OF sample_filter_wf, THEN conjunct1] a by simp
  moreover have "passes (snd (get_member_split sample_filter)) (''m.room.name'', ''x'')"
    using member_split_exact[OF sample_filter_wf, THEN conjunct2, rule_format, OF c] b by simp
  ultimately show ?thesis using c by (intro conjI exI[of _ "''m.room.name''"])
qed


definition non_member_wildcard :: "StateFilter \<Rightarrow> bool" where
  "non_member_wildcard f \<longleftrightarrow> include_others f \<or> list_ex (\<lambda>(t, ks). t \<noteq> EventTypes_Member \<and> ks = None) (sf_types f)"

lemma expanded_same: "is_full f \<or> \<not> non_member_wildcard f \<Longrightarrow> return_expanded f = f"
  by (auto simp: return_expanded_def Let_def non_member_wildcard_def)

lemma expanded_more:
  assumes "\<not> is_full f" "non_member_wildcard f"
  shows "passes (return_expanded f) (t, s) \<longleftrightarrow> t \<noteq> EventTypes_Member \<or> passes f (EventTypes_Member, s)"
proof -
  have "has_wildcards f" using assms(2) by (force simp: has_wildcards_def non_member_wildcard_def list_ex_iff)
  with assms have e: "return_expanded f = (if case dget (sf_types f) EventTypes_Member of
      Some ks \<Rightarrow> ks = None | None \<Rightarrow> include_others f then ALL_STATE_FILTER
    else case dget (sf_types f) EventTypes_Member of
      Some ks \<Rightarrow> new_StateFilter [(EventTypes_Member, ks)] True | None \<Rightarrow> ALL_NON_MEMBER_STATE_FILTER)"
    by (simp add: return_expanded_def Let_def non_member_wildcard_def)
  have w: "wf_dict [(EventTypes_Member, x :: string list option)]" for x by (simp add: wf_dict_def)
  show ?thesis
  proof (cases "dget (sf_types f) EventTypes_Member")
    case None
    then show ?thesis by (simp add: e passes_def[of f])
  next
    case (Some ks)
    then show ?thesis using w by (cases ks) (auto simp: e passes_def[of f] selects_def)
  qed
qed

text \<open>
  The expanded filter selects everything the filter does and the same memberships; either
  nothing changes and the filter has no wildcard outside the memberships, or everything else is
  selected.
\<close>

theorem expanded_superset:
  assumes "wf_filter f"
  shows "(passes f k \<longrightarrow> passes (return_expanded f) k)
    \<and> (passes (return_expanded f) (EventTypes_Member, u) = passes f (EventTypes_Member, u))
    \<and> ((\<forall>t s. t \<noteq> EventTypes_Member \<longrightarrow> passes (return_expanded f) (t, s))
       \<or> return_expanded f = f \<and> \<not> include_others f
          \<and> (\<forall>t. t \<noteq> EventTypes_Member \<longrightarrow> dget (sf_types f) t \<noteq> Some None))"
proof (cases "\<not> is_full f \<and> non_member_wildcard f")
  case True
  note more = expanded_more[OF conjunct1[OF True] conjunct2[OF True]]
  have "passes f k \<longrightarrow> passes (return_expanded f) k" using more[of "fst k" "snd k"] by (metis prod.collapse)
  with more show ?thesis by simp
next
  case False
  then have e: "return_expanded f = f" using expanded_same by blast
  have "dget (sf_types f) t = Some None \<Longrightarrow> t \<noteq> EventTypes_Member \<Longrightarrow> non_member_wildcard f" for t
    using dget_in[of "sf_types f" t None] by (force simp: list_ex_iff non_member_wildcard_def)
  with False show ?thesis unfolding e by (auto simp: is_full_def passes_def non_member_wildcard_def)
qed

theorem expanded_superset_witness:
  "passes (return_expanded sample_filter) (''m.room.name'', [])
    \<and> passes (return_expanded sample_filter) (EventTypes_Member, ''@a:h'')
      = passes sample_filter (EventTypes_Member, ''@a:h'')"
proof -
  have "passes sample_filter (''m.room.name'', [])" by code_simp
  with expanded_superset[OF sample_filter_wf, of "(''m.room.name'', [])" "''@a:h''"] show ?thesis by simp
qed

text \<open>
  \<open>from_types\<close> and \<open>to_types\<close> are inverse to each other, and so are the decomposition into four
  parts and the recomposition: the filter that comes back selects the same state.
\<close>

theorem types_roundtrip:
  assumes "wf_filter f"
  shows "(\<not> include_others f \<longrightarrow> passes (from_types (to_types f)) (t, k) = passes f (t, k))
    \<and> passes (recompose_from_four_parts (decompose_into_four_parts f)) (t, k) = passes f (t, k)"
proof -
  have w: "wf_dict (sf_types f)" using assms by (simp add: wf_filter_def)
  have "passes (from_types (to_types f)) (t, k) = passes f (t, k)" if "\<not> include_others f"
    using that by (auto simp: passes_from_types set_to_types[OF w] passes_def[of f] split: option.splits)
  then show ?thesis by (simp add: recompose_passes decompose_passes[OF assms])
qed

theorem types_roundtrip_witness:
  "passes (from_types (to_types sample_filter)) (''m.room.name'', []) = passes sample_filter (''m.room.name'', [])"
proof -
  have "\<not> include_others sample_filter" by code_simp
  with types_roundtrip[OF sample_filter_wf, of "''m.room.name''" "[]"] show ?thesis by simp
qed

text \<open>
  C24. The SQL clause is well formed and selects the same rows as the filter: read with its arguments
  in place of the placeholders, it holds of a row exactly when the filter selects its key.
\<close>

theorem sql_clause_matches:
  assumes "wf_filter f"
  shows "sql_where (make_sql_filter_clause f) (t, k) = Some (passes f (t, k))"
proof (cases "sf_types f = []")
  case True
  then show ?thesis
    by (simp add: make_sql_filter_clause_def is_full_def passes_def sql_where_def sql_condition_def)
next
  case False
  then show ?thesis using sql_clause_types[OF assms] sql_clause_others[OF assms] by blast
qed

theorem sql_clause_matches_witness:
  "sql_where (make_sql_filter_clause sample_filter) (''m.room.name'', []) = Some True"
proof -
  have "passes sample_filter (''m.room.name'', [])" by code_simp
  with sql_clause_matches[OF sample_filter_wf] show ?thesis by simp
qed

text \<open>
  When the filter announces a maximal number of entries, that is the number of keys it selects,
  and no state it filters has more entries.
\<close>

theorem max_entries_bound:
  fixes st :: "(StateKey, 'v) dict"
  assumes "wf_filter f" and "max_entries_returned f = Some n" and "wf_dict st"
  shows "card {k. passes f k} = n \<and> length (filter_state f st) \<le> n"
proof -
  have nw: "\<not> has_wildcards f" and n: "n = length (concrete_types f)"
    using assms(2) by (auto simp: max_entries_returned_def split: if_splits)
  have "wf_dict (sf_types f)" using assms(1) by (simp add: wf_filter_def)
  then have card: "card (set (concrete_types f)) = n" using distinct_concrete_types n by (simp add: distinct_card)
  let ?ks = "dkeys (filter_state f st)"
  have "distinct ?ks" using wf_filter_dict[OF assms(3)] by (simp add: filter_state_list[OF assms(1,3)] wf_dict_def)
  then have "length (filter_state f st) = card (set ?ks)" by (metis distinct_card length_map)
  also have "set ?ks \<subseteq> set (concrete_types f)"
    by (auto simp: filter_state_list[OF assms(1,3)] passes_concrete[OF assms(1) nw])
  then have "card (set ?ks) \<le> n" using card by (metis List.finite_set card_mono)
  finally show ?thesis using card passes_concrete[OF assms(1) nw] by simp
qed

theorem max_entries_bound_witness:
  "\<exists>f. card {k. passes f k} = 1 \<and> length (filter_state f [((''m.room.create'', []), ''$c'')]) \<le> 1"
proof -
  let ?f = "from_types [(''m.room.create'', Some [])]"
  have "wf_filter ?f" by code_simp
  moreover have "max_entries_returned ?f = Some 1" by code_simp
  moreover have "wf_dict [((''m.room.create'', [] :: string), ''$c'')]" by code_simp
  ultimately show ?thesis using max_entries_bound by blast
qed

lemma fresh_string: "\<exists>s :: string. s \<notin> set xs"
  using infinite_UNIV_listI ex_new_if_finite[of "set xs"] by blast

lemma full_exact:
  assumes "wf_filter f"
  shows "is_full f \<longleftrightarrow> (\<forall>k. passes f k)"
proof
  assume all: "\<forall>k. passes f k"
  obtain t where t: "t \<notin> set (dkeys (sf_types f))" using fresh_string by blast
  then have "dget (sf_types f) t = None" using dhas_iff[of "sf_types f" t] by (simp add: dhas_def)
  with all[rule_format, of "(t, [])"] have others: "include_others f" by (simp add: passes_def)
  have "sf_types f = []"
  proof (rule ccontr)
    assume "sf_types f \<noteq> []"
    then obtain t v where tv: "(t, v) \<in> set (sf_types f)" by (cases "sf_types f") auto
    obtain ks where v: "v = Some ks" using tv assms others by (auto simp: wf_filter_def list_all_iff)
    have "dget (sf_types f) t = Some v" using tv assms in_dict_iff[of "sf_types f" t v] by (simp add: wf_filter_def)
    moreover obtain k where "k \<notin> set ks" using fresh_string by blast
    ultimately have "\<not> passes f (t, k)" by (simp add: passes_def v)
    with all show False by blast
  qed
  with others show "is_full f" by (simp add: is_full_def)
qed (auto simp: is_full_def passes_def)

lemma empty_exact:
  assumes "wf_filter f"
  shows "filter_bool f \<longleftrightarrow> (\<exists>k. passes f k)"
proof
  assume b: "filter_bool f"
  show "\<exists>k. passes f k"
  proof (cases "include_others f")
    case True
    obtain t where "t \<notin> set (dkeys (sf_types f))" using fresh_string by blast
    then have "dget (sf_types f) t = None" using dhas_iff[of "sf_types f" t] by (simp add: dhas_def)
    with True have "passes f (t, [])" by (simp add: passes_def)
    then show ?thesis ..
  next
    case False
    with b obtain t v where tv: "(t, v) \<in> set (sf_types f)" by (cases "sf_types f") (auto simp: filter_bool_def)
    have "v \<noteq> Some []" using tv assms False by (auto simp: wf_filter_def list_all_iff)
    moreover have "dget (sf_types f) t = Some v" using tv assms in_dict_iff[of "sf_types f" t v] by (simp add: wf_filter_def)
    ultimately have "passes f (t, hd (the v))" by (cases v) (auto simp: passes_def)
    then show ?thesis ..
  qed
qed (auto simp: filter_bool_def passes_def)

lemma must_await_exact:
  "\<not> is_mine remote \<Longrightarrow> must_await_full_state is_mine f \<longleftrightarrow> (\<exists>u. passes f (EventTypes_Member, u) \<and> \<not> is_mine u)"
  by (cases "dget (sf_types f) EventTypes_Member"; cases "the (dget (sf_types f) EventTypes_Member)")
    (auto simp: must_await_full_state_def passes_def list_ex_iff)

text \<open>
  Partial state is enough exactly when the filter selects the membership of local users only;
  full and empty filters are recognised exactly.
\<close>

theorem awaits_full_state_exact:
  assumes "wf_filter f" and "\<not> is_mine remote"
  shows "(must_await_full_state is_mine f \<longleftrightarrow> (\<exists>u. passes f (EventTypes_Member, u) \<and> \<not> is_mine u))
    \<and> (is_full f \<longleftrightarrow> (\<forall>k. passes f k)) \<and> (filter_bool f \<longleftrightarrow> (\<exists>k. passes f k))"
  using must_await_exact[of is_mine remote f] assms(2) full_exact[OF assms(1)] empty_exact[OF assms(1)] by blast

theorem awaits_full_state_exact_witness:
  "(must_await_full_state (\<lambda>u. u = ''@a:h'') sample_filter
      \<longleftrightarrow> (\<exists>u. passes sample_filter (EventTypes_Member, u) \<and> u \<noteq> ''@a:h''))
    \<and> (is_full sample_filter \<longleftrightarrow> (\<forall>k. passes sample_filter k))"
  using awaits_full_state_exact[OF sample_filter_wf, of "\<lambda>u. u = ''@a:h''" "''@b:x''"] by simp

end
