(* ===== verification/Stream_Tokens.thy ===== *)
theory Stream_Tokens
  imports Prelude
begin

text \<open>
  Stream tokens (\<open>types/__init__.py\<close>): vector clocks of the writers of a stream, the tokens built
  from them, and their textual form. The store that maps writers to numeric identifiers is a
  parameter.
\<close>

section \<open>Tokens of several writers\<close>

record AbstractMultiWriterStreamToken =
  stream :: int
  instance_map :: "(string, int) dict"

type_synonym MultiWriterStreamToken = AbstractMultiWriterStreamToken

record RoomStreamToken = AbstractMultiWriterStreamToken +
  topological :: "int option"

text \<open>The validators that run when a token is created.\<close>

definition post_init ::
    "'a AbstractMultiWriterStreamToken_scheme \<Rightarrow> 'a AbstractMultiWriterStreamToken_scheme res" where
  "post_init self = rbind (riter (\<lambda>(i, v). raise_if (v \<le> stream self) ValueError) (instance_map self)) (\<lambda>_. Inr self)"

text \<open>\<open>bool(self.topological)\<close>: a topological part of 0 counts as none.\<close>

definition has_topological :: "RoomStreamToken \<Rightarrow> bool" where
  "has_topological self \<longleftrightarrow> topological self \<notin> {None, Some 0}"

definition room_post_init :: "RoomStreamToken \<Rightarrow> RoomStreamToken res" where
  "room_post_init self =
     rbind (raise_if (instance_map self \<noteq> [] \<and> has_topological self) ValueError) (\<lambda>_. post_init self)"

definition position :: "'a AbstractMultiWriterStreamToken_scheme \<Rightarrow> string \<Rightarrow> int" where
  "position self instance = dget_or (instance_map self) instance (stream self)"

definition advance_fields ::
    "'a AbstractMultiWriterStreamToken_scheme \<Rightarrow> 'a AbstractMultiWriterStreamToken_scheme
       \<Rightarrow> 'a AbstractMultiWriterStreamToken_scheme" where
  "advance_fields self other =
     (let max_stream = max (stream self) (stream other);
          instance_map' = map (\<lambda>i. (i, max (position self i) (position other i)))
            (remdups (dkeys (instance_map self) @ dkeys (instance_map other))) in
      self\<lparr>stream := max_stream, instance_map := filter (\<lambda>(i, s). s > max_stream) instance_map'\<rparr>)"

definition copy_and_advance :: "MultiWriterStreamToken \<Rightarrow> MultiWriterStreamToken \<Rightarrow> MultiWriterStreamToken res" where
  "copy_and_advance self other = post_init (advance_fields self other)"

definition get_max_stream_pos :: "'a AbstractMultiWriterStreamToken_scheme \<Rightarrow> int" where
  "get_max_stream_pos self = (case dvalues (instance_map self) of [] \<Rightarrow> stream self | v # vs \<Rightarrow> fold max vs v)"

definition is_before_or_eq ::
    "'a AbstractMultiWriterStreamToken_scheme \<Rightarrow> 'a AbstractMultiWriterStreamToken_scheme \<Rightarrow> bool" where
  "is_before_or_eq self other \<longleftrightarrow> stream self \<le> stream other
     \<and> list_all (\<lambda>i. position self i \<le> position other i) (dkeys (instance_map self) @ dkeys (instance_map other))"

definition bound_fields :: "'a AbstractMultiWriterStreamToken_scheme \<Rightarrow> int \<Rightarrow> int \<times> (string, int) dict" where
  "bound_fields self max_stream =
     (let min_pos = min (stream self) max_stream in
      (min_pos, map (\<lambda>(k, s). (k, min s max_stream)) (filter (\<lambda>(k, s). min s max_stream > min_pos) (instance_map self))))"

definition bound_stream_token :: "MultiWriterStreamToken \<Rightarrow> int \<Rightarrow> MultiWriterStreamToken res" where
  "bound_stream_token self max_stream =
     (let (s, m) = bound_fields self max_stream in post_init \<lparr>stream = s, instance_map = m\<rparr>)"

text \<open>The current token and the positions of the generator are arguments.\<close>

definition from_generator :: "int \<Rightarrow> (string, int) dict \<Rightarrow> MultiWriterStreamToken res" where
  "from_generator min_pos positions =
     post_init \<lparr>stream = min_pos, instance_map = filter (\<lambda>(i, p). p > min_pos) positions\<rparr>"

section \<open>Room stream tokens\<close>

definition live_token :: "int \<Rightarrow> (string, int) dict \<Rightarrow> RoomStreamToken" where
  "live_token s m = \<lparr>stream = s, instance_map = m, topological = None\<rparr>"

definition room_copy_and_advance :: "RoomStreamToken \<Rightarrow> RoomStreamToken \<Rightarrow> RoomStreamToken res" where
  "room_copy_and_advance self other =
     rbind (raise_if (has_topological self \<or> has_topological other) (OtherException ''Can't advance topological tokens''))
       (\<lambda>_. room_post_init (advance_fields self other))"

definition as_historical_tuple :: "RoomStreamToken \<Rightarrow> (int \<times> int) res" where
  "as_historical_tuple self = (case topological self of
     None \<Rightarrow> Inl (OtherException ''Cannot call as_historical_tuple on live token'')
   | Some t \<Rightarrow> Inr (t, stream self))"

definition room_get_stream_pos_for_instance :: "RoomStreamToken \<Rightarrow> string \<Rightarrow> int res" where
  "room_get_stream_pos_for_instance self instance =
     rbind (raise_if (topological self \<noteq> None) AssertionError) (\<lambda>_. Inr (position self instance))"

definition room_bound_stream_token :: "RoomStreamToken \<Rightarrow> int \<Rightarrow> RoomStreamToken res" where
  "room_bound_stream_token self max_stream =
     rbind (raise_if (topological self \<noteq> None) AssertionError)
       (\<lambda>_. let (s, m) = bound_fields self max_stream in room_post_init (live_token s m))"

definition room_from_generator :: "int \<Rightarrow> (string, int) dict \<Rightarrow> RoomStreamToken res" where
  "room_from_generator min_pos positions = room_post_init (live_token min_pos (filter (\<lambda>(i, p). p > min_pos) positions))"

section \<open>Text\<close>

record InstanceStore =
  get_name_from_instance_id :: "int \<Rightarrow> string res"
  get_id_for_instance :: "string \<Rightarrow> int"

text \<open>\<open>try: r except Exception: raise e\<close>.\<close>

definition except_all :: "py_error \<Rightarrow> 'a res \<Rightarrow> 'a res" where
  "except_all e r = (case r of Inl _ \<Rightarrow> Inl e | Inr x \<Rightarrow> Inr x)"

definition parse_position :: "InstanceStore \<Rightarrow> string \<Rightarrow> (string, int) dict \<Rightarrow> (string, int) dict res" where
  "parse_position store part positions =
     (if part = [] then Inr positions
      else (case split_on CHR ''.'' part of
              [key, value] \<Rightarrow>
                rbind (py_int_str key) (\<lambda>instance_id.
                rbind (py_int_str value) (\<lambda>pos.
                rbind (get_name_from_instance_id store instance_id) (\<lambda>instance_name.
                Inr (dset instance_name pos positions))))
            | _ \<Rightarrow> Inl ValueError))"

text \<open>The text after the \<open>m\<close>: the minimal position and the positions of the writers ahead of it.\<close>

definition parse_vector :: "InstanceStore \<Rightarrow> string \<Rightarrow> (int \<times> (string, int) dict) res" where
  "parse_vector store s = (case split_on CHR ''~'' s of
     [] \<Rightarrow> Inl IndexError
   | p # parts \<Rightarrow>
       rbind (py_int_str p) (\<lambda>st.
       rbind (rfold (parse_position store) parts []) (\<lambda>m. Inr (st, m))))"

definition room_parse :: "InstanceStore \<Rightarrow> string \<Rightarrow> RoomStreamToken res" where
  "room_parse store string = (case string of
     [] \<Rightarrow> Inl ValueError
   | c # s \<Rightarrow>
       if c \<notin> {CHR ''s'', CHR ''t'', CHR ''m''} then Inl ValueError
       else except_all (SynapseError 400 ''Invalid room stream token'')
         (if c = CHR ''s'' then rbind (py_int_str s) (\<lambda>n. room_post_init (live_token n []))
          else if c = CHR ''t'' then
            (case split_once CHR ''-'' s of
               [a, b] \<Rightarrow> rbind (py_int_str a) (\<lambda>t. rbind (py_int_str b) (\<lambda>n.
                 room_post_init \<lparr>stream = n, instance_map = [], topological = Some t\<rparr>))
             | _ \<Rightarrow> Inl IndexError)
          else rbind (parse_vector store s) (\<lambda>(n, m). room_post_init (live_token n m))))"

definition parse_stream_token :: "string \<Rightarrow> RoomStreamToken res" where
  "parse_stream_token string = except_all (SynapseError 400 ''Invalid room stream token'')
     (case string of
        [] \<Rightarrow> Inl IndexError
      | c # s \<Rightarrow> if c = CHR ''s'' then rbind (py_int_str s) (\<lambda>n. room_post_init (live_token n [])) else Inl ValueError)"

definition vector_entries :: "InstanceStore \<Rightarrow> 'a AbstractMultiWriterStreamToken_scheme \<Rightarrow> string list" where
  "vector_entries store self =
     map (\<lambda>(name, pos). string_of_int (get_id_for_instance store name) @ ''.'' @ string_of_int pos)
       (filter (\<lambda>(name, pos). \<not> pos \<le> stream self) (instance_map self))"

definition room_to_string :: "InstanceStore \<Rightarrow> RoomStreamToken \<Rightarrow> string" where
  "room_to_string store self =
     (case topological self of
        Some t \<Rightarrow> ''t'' @ string_of_int t @ ''-'' @ string_of_int (stream self)
      | None \<Rightarrow>
          if instance_map self \<noteq> [] then
            (let entries = vector_entries store self in
             if entries \<noteq> [] then ''m'' @ string_of_int (stream self) @ ''~'' @ join_with CHR ''~'' entries
             else ''s'' @ string_of_int (stream self))
          else ''s'' @ string_of_int (stream self))"

text \<open>\<open>str.isdigit\<close>, among the code points below 256: the superscripts count as digits.\<close>

definition is_py_digit :: "char \<Rightarrow> bool" where
  "is_py_digit c \<longleftrightarrow> is_digit c \<or> (of_char c :: nat) \<in> {178, 179, 185}"

definition writer_parse :: "InstanceStore \<Rightarrow> string \<Rightarrow> MultiWriterStreamToken res" where
  "writer_parse store string = except_all (SynapseError 400 ''Invalid stream token'')
     (case string of
        [] \<Rightarrow> Inl IndexError
      | c # s \<Rightarrow>
          if is_py_digit c then rbind (py_int_str string) (\<lambda>n. post_init \<lparr>stream = n, instance_map = []\<rparr>)
          else if c = CHR ''m'' then
            rbind (parse_vector store s) (\<lambda>(n, m). post_init \<lparr>stream = n, instance_map = m\<rparr>)
          else Inl ValueError)"

definition writer_to_string :: "InstanceStore \<Rightarrow> MultiWriterStreamToken \<Rightarrow> string" where
  "writer_to_string store self =
     (if instance_map self \<noteq> [] then
        (let entries = vector_entries store self in
         if entries \<noteq> [] then ''m'' @ string_of_int (stream self) @ ''~'' @ join_with CHR ''~'' entries
         else string_of_int (stream self))
      else string_of_int (stream self))"

definition is_stream_position_in_range ::
    "'a AbstractMultiWriterStreamToken_scheme option \<Rightarrow> 'b AbstractMultiWriterStreamToken_scheme option
       \<Rightarrow> string option \<Rightarrow> int \<Rightarrow> bool" where
  "is_stream_position_in_range low high instance_name pos =
     ((case low of None \<Rightarrow> True | Some l \<Rightarrow>
         \<not> pos \<le> (if instance_name \<in> {None, Some []} then stream l else position l (the instance_name)))
      \<and> (case high of None \<Rightarrow> True | Some h \<Rightarrow>
         \<not> (if instance_name \<in> {None, Some []} then stream h else position h (the instance_name)) < pos))"

section \<open>The token of all streams\<close>

record StreamToken =
  room_key :: RoomStreamToken
  presence_key :: int
  typing_key :: int
  receipt_key :: MultiWriterStreamToken
  account_data_key :: int
  push_rules_key :: int
  to_device_key :: int
  device_list_key :: MultiWriterStreamToken
  groups_key :: int
  un_partial_stated_rooms_key :: int
  thread_subscriptions_key :: int
  sticky_events_key :: int

definition START :: StreamToken where
  "START = \<lparr>room_key = live_token 0 [], presence_key = 0, typing_key = 0,
     receipt_key = \<lparr>stream = 0, instance_map = []\<rparr>, account_data_key = 0, push_rules_key = 0, to_device_key = 0,
     device_list_key = \<lparr>stream = 0, instance_map = []\<rparr>, groups_key = 0, un_partial_stated_rooms_key = 0,
     thread_subscriptions_key = 0, sticky_events_key = 0\<rparr>"

text \<open>The streams, grouped by the type of their positions.\<close>

datatype int_key = PRESENCE | TYPING | ACCOUNT_DATA | PUSH_RULES | TO_DEVICE | UN_PARTIAL_STATED_ROOMS
  | THREAD_SUBSCRIPTIONS | STICKY_EVENTS

datatype writer_key = RECEIPT | DEVICE_LIST

datatype StreamKeyType = ROOM | WRITER_KEY writer_key | INT_KEY int_key

fun get_int_field :: "int_key \<Rightarrow> StreamToken \<Rightarrow> int" where
  "get_int_field PRESENCE = presence_key"
| "get_int_field TYPING = typing_key"
| "get_int_field ACCOUNT_DATA = account_data_key"
| "get_int_field PUSH_RULES = push_rules_key"
| "get_int_field TO_DEVICE = to_device_key"
| "get_int_field UN_PARTIAL_STATED_ROOMS = un_partial_stated_rooms_key"
| "get_int_field THREAD_SUBSCRIPTIONS = thread_subscriptions_key"
| "get_int_field STICKY_EVENTS = sticky_events_key"

fun get_writer_field :: "writer_key \<Rightarrow> StreamToken \<Rightarrow> MultiWriterStreamToken" where
  "get_writer_field RECEIPT = receipt_key"
| "get_writer_field DEVICE_LIST = device_list_key"

text \<open>A key with a new value of its type.\<close>

datatype new_position = RoomPos RoomStreamToken | WriterPos writer_key MultiWriterStreamToken | IntPos int_key int

fun copy_and_replace :: "StreamToken \<Rightarrow> new_position \<Rightarrow> StreamToken" where
  "copy_and_replace self (RoomPos v) = self\<lparr>room_key := v\<rparr>"
| "copy_and_replace self (WriterPos RECEIPT v) = self\<lparr>receipt_key := v\<rparr>"
| "copy_and_replace self (WriterPos DEVICE_LIST v) = self\<lparr>device_list_key := v\<rparr>"
| "copy_and_replace self (IntPos PRESENCE v) = self\<lparr>presence_key := v\<rparr>"
| "copy_and_replace self (IntPos TYPING v) = self\<lparr>typing_key := v\<rparr>"
| "copy_and_replace self (IntPos ACCOUNT_DATA v) = self\<lparr>account_data_key := v\<rparr>"
| "copy_and_replace self (IntPos PUSH_RULES v) = self\<lparr>push_rules_key := v\<rparr>"
| "copy_and_replace self (IntPos TO_DEVICE v) = self\<lparr>to_device_key := v\<rparr>"
| "copy_and_replace self (IntPos UN_PARTIAL_STATED_ROOMS v) = self\<lparr>un_partial_stated_rooms_key := v\<rparr>"
| "copy_and_replace self (IntPos THREAD_SUBSCRIPTIONS v) = self\<lparr>thread_subscriptions_key := v\<rparr>"
| "copy_and_replace self (IntPos STICKY_EVENTS v) = self\<lparr>sticky_events_key := v\<rparr>"

fun st_copy_and_advance :: "StreamToken \<Rightarrow> new_position \<Rightarrow> StreamToken res" where
  "st_copy_and_advance self (RoomPos v) =
     rbind (room_copy_and_advance (room_key self) v) (\<lambda>t. Inr (copy_and_replace self (RoomPos t)))"
| "st_copy_and_advance self (WriterPos k v) =
     rbind (copy_and_advance (get_writer_field k self) v) (\<lambda>t. Inr (copy_and_replace self (WriterPos k t)))"
| "st_copy_and_advance self (IntPos k v) =
     (let new_token = copy_and_replace self (IntPos k v) in
      Inr (if get_int_field k self < get_int_field k new_token then new_token else self))"

text \<open>The members of the enumeration in their order; the typing stream may be reset and is skipped.\<close>

definition stream_keys :: "StreamKeyType list" where
  "stream_keys = [ROOM, INT_KEY PRESENCE, INT_KEY TYPING, WRITER_KEY RECEIPT, INT_KEY ACCOUNT_DATA, INT_KEY PUSH_RULES,
     INT_KEY TO_DEVICE, WRITER_KEY DEVICE_LIST, INT_KEY UN_PARTIAL_STATED_ROOMS, INT_KEY THREAD_SUBSCRIPTIONS,
     INT_KEY STICKY_EVENTS]"

fun key_before_or_eq :: "StreamToken \<Rightarrow> StreamToken \<Rightarrow> StreamKeyType \<Rightarrow> bool" where
  "key_before_or_eq self other ROOM = is_before_or_eq (room_key self) (room_key other)"
| "key_before_or_eq self other (WRITER_KEY k) = is_before_or_eq (get_writer_field k self) (get_writer_field k other)"
| "key_before_or_eq self other (INT_KEY k) = (k = TYPING \<or> get_int_field k self \<le> get_int_field k other)"

definition st_is_before_or_eq :: "StreamToken \<Rightarrow> StreamToken \<Rightarrow> bool" where
  "st_is_before_or_eq self other = list_all (key_before_or_eq self other) stream_keys"

definition st_to_string :: "InstanceStore \<Rightarrow> StreamToken \<Rightarrow> string" where
  "st_to_string store self = join_with CHR ''_''
     [room_to_string store (room_key self), string_of_int (presence_key self), string_of_int (typing_key self),
      writer_to_string store (receipt_key self), string_of_int (account_data_key self),
      string_of_int (push_rules_key self), string_of_int (to_device_key self),
      writer_to_string store (device_list_key self), string_of_int (groups_key self),
      string_of_int (un_partial_stated_rooms_key self), string_of_int (thread_subscriptions_key self),
      string_of_int (sticky_events_key self)]"

definition st_from_keys :: "InstanceStore \<Rightarrow> string list \<Rightarrow> StreamToken res" where
  "st_from_keys store keys = (case keys of
     [room, presence, typing, receipt, account_data, push_rules, to_device, device_list, groups,
      un_partial_stated_rooms, thread_subscriptions, sticky_events] \<Rightarrow>
       rbind (room_parse store room) (\<lambda>room.
       rbind (py_int_str presence) (\<lambda>presence.
       rbind (py_int_str typing) (\<lambda>typing.
       rbind (writer_parse store receipt) (\<lambda>receipt.
       rbind (py_int_str account_data) (\<lambda>account_data.
       rbind (py_int_str push_rules) (\<lambda>push_rules.
       rbind (py_int_str to_device) (\<lambda>to_device.
       rbind (writer_parse store device_list) (\<lambda>device_list.
       rbind (py_int_str groups) (\<lambda>groups.
       rbind (py_int_str un_partial_stated_rooms) (\<lambda>un_partial_stated_rooms.
       rbind (py_int_str thread_subscriptions) (\<lambda>thread_subscriptions.
       rbind (py_int_str sticky_events) (\<lambda>sticky_events.
       Inr \<lparr>room_key = room, presence_key = presence, typing_key = typing, receipt_key = receipt,
            account_data_key = account_data, push_rules_key = push_rules, to_device_key = to_device,
            device_list_key = device_list, groups_key = groups,
            un_partial_stated_rooms_key = un_partial_stated_rooms,
            thread_subscriptions_key = thread_subscriptions, sticky_events_key = sticky_events\<rparr>))))))))))))
   | _ \<Rightarrow> Inl ValueError)"

text \<open>Tokens from before a key was added are filled up with zeros.\<close>

definition st_from_string :: "InstanceStore \<Rightarrow> string \<Rightarrow> StreamToken res" where
  "st_from_string store string = except_all (SynapseError 400 ''Invalid stream token'')
     (let keys = split_on CHR ''_'' string in
      st_from_keys store (keys @ replicate (12 - length keys) ''0''))"

record SlidingSyncStreamToken =
  stream_token :: StreamToken
  connection_position :: int

definition ss_from_string :: "InstanceStore \<Rightarrow> string \<Rightarrow> SlidingSyncStreamToken res" where
  "ss_from_string store string = except_all (SynapseError 400 ''Invalid stream token'')
     (case split_once CHR ''/'' string of
        [c, t] \<Rightarrow> rbind (py_int_str c) (\<lambda>c. rbind (st_from_string store t) (\<lambda>t.
          Inr \<lparr>stream_token = t, connection_position = c\<rparr>))
      | _ \<Rightarrow> Inl ValueError)"

definition ss_to_string :: "InstanceStore \<Rightarrow> SlidingSyncStreamToken \<Rightarrow> string" where
  "ss_to_string store self = string_of_int (connection_position self) @ ''/'' @ st_to_string store (stream_token self)"

record ThreadSubscriptionsToken =
  stream_id :: int

definition ts_from_string :: "string \<Rightarrow> ThreadSubscriptionsToken res" where
  "ts_from_string s =
     rbind (raise_if (\<not> starts_with ''ts'' s) ValueError) (\<lambda>_.
     rbind (py_int_str (drop 2 s)) (\<lambda>i. Inr \<lparr>stream_id = i\<rparr>))"

definition ts_to_string :: "ThreadSubscriptionsToken \<Rightarrow> string" where
  "ts_to_string self = ''ts'' @ string_of_int (stream_id self)"

section \<open>Persisted positions\<close>

record PersistedPosition =
  instance_name :: string
  pp_stream :: int

definition persisted_after :: "PersistedPosition \<Rightarrow> MultiWriterStreamToken \<Rightarrow> bool" where
  "persisted_after self token \<longleftrightarrow> position token (instance_name self) < pp_stream self"

text \<open>The same for room tokens, which must be live.\<close>

definition room_persisted_after :: "PersistedPosition \<Rightarrow> RoomStreamToken \<Rightarrow> bool res" where
  "room_persisted_after self token =
     rbind (room_get_stream_pos_for_instance token (instance_name self)) (\<lambda>p. Inr (p < pp_stream self))"

definition to_room_stream_token :: "PersistedPosition \<Rightarrow> RoomStreamToken res" where
  "to_room_stream_token self = room_post_init (live_token (pp_stream self) [])"

end
