(* ===== verification/Stream_Token_Props.thy ===== *)
theory Stream_Token_Props
  imports Stream_Tokens
begin

text \<open>
  Stream tokens as vector clocks: advancing is the least upper bound, comparison is pointwise, and
  the textual forms can be read back.
\<close>

section \<open>Valid tokens\<close>

definition wf_token :: "'a AbstractMultiWriterStreamToken_scheme \<Rightarrow> bool" where
  "wf_token t \<longleftrightarrow> wf_dict (instance_map t) \<and> list_all (\<lambda>(i, v). stream t < v) (instance_map t)"

definition live :: "RoomStreamToken \<Rightarrow> bool" where
  "live t \<longleftrightarrow> wf_token t \<and> topological t = None"

text \<open>What the validators let pass, with distinct keys: the topological part excludes a vector clock.\<close>

definition wf_room :: "RoomStreamToken \<Rightarrow> bool" where
  "wf_room t \<longleftrightarrow> wf_token t \<and> (instance_map t = [] \<or> \<not> has_topological t)"

lemma post_init_ok: "post_init t = Inr t' \<longleftrightarrow> t' = t \<and> list_all (\<lambda>(i, v). stream t < v) (instance_map t)"
  by (auto simp: post_init_def riter_ok list_all_iff split_beta)

lemma post_init_error: "post_init t = Inl e \<Longrightarrow> e = ValueError"
  by (auto simp: post_init_def rbind_eq_Inl raise_if_def dest!: riter_error split: if_splits)

lemma room_post_init_ok:
  "room_post_init t = Inr t' \<longleftrightarrow> t' = t \<and> (instance_map t = [] \<or> \<not> has_topological t)
     \<and> list_all (\<lambda>(i, v). stream t < v) (instance_map t)"
  by (auto simp: room_post_init_def post_init_ok)

lemma position_ge: "wf_token t \<Longrightarrow> stream t \<le> position t i"
  by (auto simp: wf_token_def position_def dget_or_def list_all_iff split: option.splits dest!: dget_in)

lemma position_absent: "i \<notin> set (dkeys (instance_map t)) \<Longrightarrow> position t i = stream t"
  using dhas_iff[of "instance_map t" i] by (simp add: position_def)

lemma fresh_writer: "\<exists>i :: string. i \<notin> set xs"
  using infinite_UNIV_listI ex_new_if_finite[of "set xs"] by blast

section \<open>Operations, pointwise\<close>

lemma wf_map_keys: "distinct is \<Longrightarrow> wf_dict (map (\<lambda>i. (i, f i)) is)"
  by (simp add: wf_dict_def comp_def)

lemma dget_map_keys: "dget (map (\<lambda>i. (i, f i)) is) i = (if i \<in> set is then Some (f i) else None)"
  by (induction "is") auto

lemma dget_filter_map_keys:
  "dget (filter (\<lambda>(i, s). P s) (map (\<lambda>i. (i, f i)) is)) i = (if i \<in> set is \<and> P (f i) then Some (f i) else None)"
  by (induction "is") auto

lemma wf_advance_fields: "wf_token (advance_fields a b)"
proof -
  have "wf_dict (map (\<lambda>i. (i, max (position a i) (position b i))) (remdups (dkeys (instance_map a) @ dkeys (instance_map b))))"
    by (rule wf_map_keys) simp
  then show ?thesis by (auto simp: wf_token_def advance_fields_def Let_def list_all_iff)
qed

lemma advance_fields_sel:
  "stream (advance_fields a b) = max (stream a) (stream b)"
  "instance_map (advance_fields a b) = filter (\<lambda>(i, s). max (stream a) (stream b) < s)
     (map (\<lambda>i. (i, max (position a i) (position b i))) (remdups (dkeys (instance_map a) @ dkeys (instance_map b))))"
  by (simp_all add: advance_fields_def Let_def del: max_less_iff_conj)

lemma position_advance:
  assumes "wf_token a" "wf_token b"
  shows "position (advance_fields a b) i = max (position a i) (position b i)"
proof -
  let ?is = "remdups (dkeys (instance_map a) @ dkeys (instance_map b))"
  have "max (stream a) (stream b) \<le> max (position a i) (position b i)"
    using position_ge[OF assms(1), of i] position_ge[OF assms(2), of i] by linarith
  moreover have "position a i = stream a \<and> position b i = stream b" if "i \<notin> set ?is"
    using that position_absent[of i a] position_absent[of i b] by simp
  moreover have "position (advance_fields a b) i = (if i \<in> set ?is \<and> max (stream a) (stream b) < max (position a i) (position b i)
      then max (position a i) (position b i) else max (stream a) (stream b))"
    unfolding position_def[of "advance_fields a b"] dget_or_def advance_fields_sel dget_filter_map_keys by auto
  ultimately show ?thesis by auto
qed

lemma before_iff:
  "is_before_or_eq a b \<longleftrightarrow> (\<forall>i. position a i \<le> position b i)"
proof
  let ?is = "dkeys (instance_map a) @ dkeys (instance_map b)"
  assume h: "is_before_or_eq a b"
  show "\<forall>i. position a i \<le> position b i"
  proof
    fix i show "position a i \<le> position b i"
      using h position_absent[of i a] position_absent[of i b]
      unfolding is_before_or_eq_def list_all_iff set_append by (cases "i \<in> set ?is") auto
  qed
next
  assume h: "\<forall>i. position a i \<le> position b i"
  obtain i where "i \<notin> set (dkeys (instance_map a) @ dkeys (instance_map b))" using fresh_writer by blast
  then have "stream a \<le> stream b" using h position_absent[of i a] position_absent[of i b] by (metis Un_iff set_append)
  with h show "is_before_or_eq a b" by (simp add: is_before_or_eq_def list_all_iff)
qed

lemma dget_bound:
  "wf_dict m \<Longrightarrow> dget (map (\<lambda>(k, s). (k, f s)) (filter (\<lambda>(k, s). P s) m)) i
     = (case dget m i of None \<Rightarrow> None | Some s \<Rightarrow> if P s then Some (f s) else None)"
proof (induction m)
  case (Cons p m)
  obtain j s where p: "p = (j, s)" by (cases p)
  have "dget m j = None" using Cons.prems by (auto simp: p wf_dict_def map_of_eq_None_iff)
  with Cons show ?case by (auto simp: p wf_dict_def split: option.splits)
qed simp

lemma bound_fields_wf:
  assumes "wf_token t" "bound_fields t n = (s, m)"
  shows "wf_dict m \<and> list_all (\<lambda>(i, v). s < v) m"
    and "dget_or m i s = min (position t i) n"
proof -
  have s: "s = min (stream t) n" and m: "m = map (\<lambda>(k, v). (k, min v n)) (filter (\<lambda>(k, v). min v n > s) (instance_map t))"
    using assms(2) by (auto simp: bound_fields_def Let_def)
  have w: "wf_dict (instance_map t)" using assms(1) by (simp add: wf_token_def)
  have "dkeys m = dkeys (filter (\<lambda>(k, v). min v n > s) (instance_map t))" unfolding m by (simp add: split_beta comp_def)
  with wf_filter_dict[OF w] have "wf_dict m" by (simp add: wf_dict_def)
  then show "wf_dict m \<and> list_all (\<lambda>(i, v). s < v) m" by (auto simp: m list_all_iff)
  have "dget m i = (case dget (instance_map t) i of None \<Rightarrow> None | Some v \<Rightarrow> if min v n > s then Some (min v n) else None)"
    unfolding m by (rule dget_bound[OF w])
  then show "dget_or m i s = min (position t i) n"
    using position_ge[OF assms(1), of i] by (auto simp: dget_or_def position_def s split: option.splits)
qed

section \<open>Vector clocks\<close>

text \<open>
  The contract of the tokens of several writers. Everything a client derives from it, the room
  streams and the other streams share.
\<close>

locale vector_clock =
  fixes valid :: "'t \<Rightarrow> bool" and pos :: "'t \<Rightarrow> string \<Rightarrow> int"
    and advance :: "'t \<Rightarrow> 't \<Rightarrow> 't res" and before :: "'t \<Rightarrow> 't \<Rightarrow> bool" and bound :: "'t \<Rightarrow> int \<Rightarrow> 't res"
  assumes advance_ok: "valid a \<Longrightarrow> valid b \<Longrightarrow> \<exists>c. advance a b = Inr c \<and> valid c \<and> pos c = (\<lambda>i. max (pos a i) (pos b i))"
    and before_pos: "before a b \<longleftrightarrow> (\<forall>i. pos a i \<le> pos b i)"
    and bound_ok: "valid a \<Longrightarrow> \<exists>c. bound a n = Inr c \<and> valid c \<and> pos c = (\<lambda>i. min (pos a i) n)"
begin

lemma advance_upper:
  assumes "valid a" "valid b" "advance a b = Inr c"
  shows "before a c" "before b c" and "before a d \<Longrightarrow> before b d \<Longrightarrow> before c d"
  using advance_ok[OF assms(1,2)] assms(3) by (auto simp: before_pos)

lemma advance_after:
  assumes "valid a" "valid b" "advance a b = Inr c"
  shows "pos c i < n \<longleftrightarrow> pos a i < n \<and> pos b i < n"
  using advance_ok[OF assms(1,2)] assms(3) by auto

lemma bound_below:
  assumes "valid a" "bound a n = Inr c"
  shows "before c a" "pos c i \<le> n" and "before d a \<Longrightarrow> (\<And>i. pos d i \<le> n) \<Longrightarrow> before d c"
  using bound_ok[OF assms(1), of n] assms(2) by (auto simp: before_pos)

end

lemma live_advance:
  assumes "live a" "live b"
  shows "room_copy_and_advance a b = Inr (advance_fields a b)" "live (advance_fields a b)"
proof -
  have t: "topological (advance_fields a b) = None"
    using assms by (simp add: live_def advance_fields_def Let_def)
  with wf_advance_fields[of a b] show "live (advance_fields a b)" by (simp add: live_def)
  then show "room_copy_and_advance a b = Inr (advance_fields a b)"
    using assms t by (simp add: room_copy_and_advance_def room_post_init_ok live_def has_topological_def wf_token_def)
qed

interpretation writer_clock: vector_clock wf_token position copy_and_advance is_before_or_eq bound_stream_token
proof
  fix a b :: MultiWriterStreamToken and n
  show "is_before_or_eq a b \<longleftrightarrow> (\<forall>i. position a i \<le> position b i)" by (rule before_iff)
  assume a: "wf_token a"
  obtain s m where b: "bound_fields a n = (s, m)" by fastforce
  from bound_fields_wf[OF a b] have "bound_stream_token a n = Inr \<lparr>stream = s, instance_map = m\<rparr>"
    "wf_token \<lparr>stream = s, instance_map = m\<rparr>" "position \<lparr>stream = s, instance_map = m\<rparr> = (\<lambda>i. min (position a i) n)"
    by (simp_all add: bound_stream_token_def b post_init_ok wf_token_def position_def fun_eq_iff)
  then show "\<exists>c. bound_stream_token a n = Inr c \<and> wf_token c \<and> position c = (\<lambda>i. min (position a i) n)" by blast
  assume "wf_token b"
  then show "\<exists>c. copy_and_advance a b = Inr c \<and> wf_token c \<and> position c = (\<lambda>i. max (position a i) (position b i))"
    using wf_advance_fields[of a b] position_advance[OF a, of b]
    by (auto simp: copy_and_advance_def post_init_ok wf_token_def[of "advance_fields a b"])
qed

interpretation room_clock: vector_clock live position room_copy_and_advance is_before_or_eq room_bound_stream_token
proof
  fix a b :: RoomStreamToken and n
  show "is_before_or_eq a b \<longleftrightarrow> (\<forall>i. position a i \<le> position b i)" by (rule before_iff)
  assume a: "live a"
  obtain s m where b: "bound_fields a n = (s, m)" by fastforce
  have "wf_token a" using a by (simp add: live_def)
  from bound_fields_wf[OF this b] a have "room_bound_stream_token a n = Inr (live_token s m)"
    "live (live_token s m)" "position (live_token s m) = (\<lambda>i. min (position a i) n)"
    by (simp_all add: room_bound_stream_token_def b room_post_init_ok live_token_def live_def wf_token_def
        has_topological_def position_def fun_eq_iff)
  then show "\<exists>c. room_bound_stream_token a n = Inr c \<and> live c \<and> position c = (\<lambda>i. min (position a i) n)" by blast
  assume b: "live b"
  with live_advance[OF a b] position_advance[of a b] a
  show "\<exists>c. room_copy_and_advance a b = Inr c \<and> live c \<and> position c = (\<lambda>i. max (position a i) (position b i))"
    by (auto simp: live_def)
qed

end
