(* ===== verification/Stream_Token_Text.thy ===== *)
theory Stream_Token_Text
  imports Stream_Token_Props
begin

text \<open>Printing and parsing of stream tokens.\<close>

section \<open>Characters\<close>

lemma separators_not_digits [simp]:
  "\<not> is_digit CHR ''~''" "\<not> is_digit CHR ''.''" "\<not> is_digit CHR ''_''" "\<not> is_digit CHR ''/''"
  "\<not> is_digit CHR ''m''" "\<not> is_digit CHR ''s''" "\<not> is_digit CHR ''t''" "\<not> is_digit CHR ''-''"
  by (simp_all add: is_digit_def)

lemma string_of_int_no_separator [simp]:
  "CHR ''~'' \<notin> set (string_of_int i)" "CHR ''.'' \<notin> set (string_of_int i)"
  "CHR ''_'' \<notin> set (string_of_int i)" "CHR ''/'' \<notin> set (string_of_int i)"
  by (rule string_of_int_free; simp)+

section \<open>Vector clocks as text\<close>

text \<open>The store gives back the name of each writer of the token from the identifier it gave out.\<close>

definition resolves :: "InstanceStore \<Rightarrow> 'a AbstractMultiWriterStreamToken_scheme \<Rightarrow> bool" where
  "resolves store t \<longleftrightarrow>
     list_all (\<lambda>n. get_name_from_instance_id store (get_id_for_instance store n) = Inr n) (dkeys (instance_map t))"

abbreviation entry_text :: "InstanceStore \<Rightarrow> string \<times> int \<Rightarrow> string" where
  "entry_text store \<equiv> \<lambda>(name, pos). string_of_int (get_id_for_instance store name) @ ''.'' @ string_of_int pos"

lemma parse_entry:
  "get_name_from_instance_id store (get_id_for_instance store n) = Inr n \<Longrightarrow>
     parse_position store (entry_text store (n, p)) m = Inr (dset n p m)"
  by (simp add: parse_position_def)

lemma parse_entries:
  "wf_dict (acc @ m) \<Longrightarrow>
     list_all (\<lambda>n. get_name_from_instance_id store (get_id_for_instance store n) = Inr n) (dkeys m) \<Longrightarrow>
     rfold (parse_position store) (map (entry_text store) m) acc = Inr (acc @ m)"
proof (induction m arbitrary: acc)
  case (Cons e m)
  obtain n p where e: "e = (n, p)" by (cases e)
  have "\<not> dhas acc n" using Cons.prems(1) by (auto simp: wf_dict_def e dhas_iff)
  from dset_fresh[OF this] have "parse_position store (entry_text store e) acc = Inr (acc @ [e])"
    using parse_entry[of store n p acc] Cons.prems(2) by (simp add: e)
  with Cons.IH[of "acc @ [e]"] Cons.prems show ?case by (simp del: prod.case)
qed simp

lemma entry_text_no_separator:
  "CHR ''~'' \<notin> set (entry_text store e)" "CHR ''_'' \<notin> set (entry_text store e)" "CHR ''/'' \<notin> set (entry_text store e)"
  by (cases e; simp)+

lemma vector_entries_wf: "wf_token t \<Longrightarrow> vector_entries store t = map (entry_text store) (instance_map t)"
proof -
  assume "wf_token t"
  then have "filter (\<lambda>(name, pos). \<not> pos \<le> stream t) (instance_map t) = instance_map t"
    by (auto simp: wf_token_def list_all_iff filter_id_conv)
  then show ?thesis by (simp add: vector_entries_def)
qed

lemma join_cons: "ws \<noteq> [] \<Longrightarrow> join_with c (w # ws) = w @ c # join_with c ws"
  by (cases ws) auto

lemma parse_vector_text:
  assumes "wf_token t" "resolves store t" "instance_map t \<noteq> []"
  shows "parse_vector store (string_of_int (stream t) @ ''~'' @ join_with CHR ''~'' (vector_entries store t))
    = Inr (stream t, instance_map t)"
proof -
  let ?es = "map (entry_text store) (instance_map t)"
  have "split_on CHR ''~'' (join_with CHR ''~'' (string_of_int (stream t) # ?es)) = string_of_int (stream t) # ?es"
    by (rule split_on_join) (use entry_text_no_separator(1)[of store] in auto)
  then have "split_on CHR ''~'' (string_of_int (stream t) @ ''~'' @ join_with CHR ''~'' ?es) = string_of_int (stream t) # ?es"
    using assms(3) by (simp add: join_cons)
  moreover have "rfold (parse_position store) ?es [] = Inr (instance_map t)"
    using parse_entries[of "[]" "instance_map t" store] assms(1,2) by (simp add: resolves_def wf_token_def)
  ultimately show ?thesis unfolding vector_entries_wf[OF assms(1)] parse_vector_def by simp
qed

section \<open>Room tokens\<close>

definition printable_room :: "RoomStreamToken \<Rightarrow> bool" where
  "printable_room t \<longleftrightarrow> wf_token t \<and> (case topological t of None \<Rightarrow> True | Some n \<Rightarrow> 0 \<le> n \<and> instance_map t = [])"

lemma except_all_Inr [simp]: "except_all e (Inr x) = Inr x" "except_all e (Inl e') = Inl e"
  by (simp_all add: except_all_def)

lemma room_roundtrip:
  assumes "printable_room t" "resolves store t"
  shows "room_parse store (room_to_string store t) = Inr t"
proof -
  have w: "wf_token t" using assms(1) by (simp add: printable_room_def)
  show ?thesis
  proof (cases "topological t")
    case (Some n)
    then have n: "0 \<le> n" "instance_map t = []" using assms(1) by (auto simp: printable_room_def)
    then have "t = \<lparr>stream = stream t, instance_map = [], topological = Some n\<rparr>" using Some by (cases t) simp
    moreover have "room_post_init \<lparr>stream = stream t, instance_map = [], topological = Some n\<rparr>
        = Inr \<lparr>stream = stream t, instance_map = [], topological = Some n\<rparr>" by (simp add: room_post_init_ok)
    ultimately show ?thesis
      using Some n string_of_int_unsigned[OF n(1)] by (simp add: room_to_string_def room_parse_def)
  next
    case None
    have t: "room_post_init (live_token (stream t) (instance_map t)) = Inr t"
      using None w by (cases t) (simp add: room_post_init_ok live_token_def wf_token_def has_topological_def)
    show ?thesis
    proof (cases "instance_map t = []")
      case True
      then show ?thesis using None t by (simp add: room_to_string_def room_parse_def)
    next
      case False
      then have "vector_entries store t \<noteq> []" by (simp add: vector_entries_wf[OF w])
      with False None t parse_vector_text[OF w assms(2) False] show ?thesis
        by (simp add: room_to_string_def room_parse_def)
    qed
  qed
qed

section \<open>Tokens of other streams\<close>

definition printable_writer :: "MultiWriterStreamToken \<Rightarrow> bool" where
  "printable_writer t \<longleftrightarrow> wf_token t \<and> (instance_map t = [] \<longrightarrow> 0 \<le> stream t)"

lemma writer_roundtrip:
  assumes "printable_writer t" "resolves store t"
  shows "writer_parse store (writer_to_string store t) = Inr t"
proof (cases "instance_map t = []")
  case True
  then have t: "post_init \<lparr>stream = stream t, instance_map = []\<rparr> = Inr t" by (cases t) (simp add: post_init_ok)
  obtain c s where cs: "string_of_int (stream t) = c # s" by (cases "string_of_int (stream t)") auto
  have "0 \<le> stream t" using True assms(1) by (simp add: printable_writer_def)
  then have "is_py_digit c"
    using set_string_of_int[of c "stream t"] string_of_int_unsigned[of "stream t"] cs by (auto simp: is_py_digit_def)
  moreover have "py_int_str (c # s) = Inr (stream t)" using py_int_string_of_int[of "stream t"] cs by simp
  ultimately show ?thesis using True t cs by (simp add: writer_to_string_def writer_parse_def)
next
  case False
  have w: "wf_token t" using assms(1) by (simp add: printable_writer_def)
  have t: "post_init \<lparr>stream = stream t, instance_map = instance_map t\<rparr> = Inr t"
    using w by (cases t) (simp add: post_init_ok wf_token_def)
  have "vector_entries store t \<noteq> []" using False by (simp add: vector_entries_wf[OF w])
  moreover have "\<not> is_py_digit CHR ''m''" by (simp add: is_py_digit_def is_digit_def)
  ultimately show ?thesis using False t parse_vector_text[OF w assms(2) False]
    by (simp add: writer_to_string_def writer_parse_def)
qed

section \<open>The token of all streams\<close>

lemma entries_text_free:
  "c \<in> {CHR ''_'', CHR ''/''} \<Longrightarrow> c \<notin> set (join_with CHR ''~'' (vector_entries store t))"
proof
  assume c: "c \<in> {CHR ''_'', CHR ''/''}" and "c \<in> set (join_with CHR ''~'' (vector_entries store t))"
  with set_join_with[of "CHR ''~''" "vector_entries store t"] obtain w where "w \<in> set (vector_entries store t)" "c \<in> set w"
    by auto
  then obtain e where "c \<in> set (entry_text store e)" by (auto simp: vector_entries_def)
  with c entry_text_no_separator(2,3)[of store e] show False by auto
qed

lemma room_text_free: "c \<in> {CHR ''_'', CHR ''/''} \<Longrightarrow> c \<notin> set (room_to_string store t)"
  using entries_text_free[of c store t] by (auto simp: room_to_string_def Let_def split: option.splits)

lemma writer_text_free: "c \<in> {CHR ''_'', CHR ''/''} \<Longrightarrow> c \<notin> set (writer_to_string store t)"
  using entries_text_free[of c store t] by (auto simp: writer_to_string_def Let_def)

definition printable :: "InstanceStore \<Rightarrow> StreamToken \<Rightarrow> bool" where
  "printable store t \<longleftrightarrow> printable_room (room_key t) \<and> resolves store (room_key t)
     \<and> printable_writer (receipt_key t) \<and> resolves store (receipt_key t)
     \<and> printable_writer (device_list_key t) \<and> resolves store (device_list_key t)"

lemma st_roundtrip:
  assumes "printable store t"
  shows "st_from_string store (st_to_string store t) = Inr t"
proof -
  have p: "room_parse store (room_to_string store (room_key t)) = Inr (room_key t)"
    "writer_parse store (writer_to_string store (receipt_key t)) = Inr (receipt_key t)"
    "writer_parse store (writer_to_string store (device_list_key t)) = Inr (device_list_key t)"
    using assms room_roundtrip writer_roundtrip by (auto simp: printable_def)
  let ?ws = "[room_to_string store (room_key t), string_of_int (presence_key t), string_of_int (typing_key t),
      writer_to_string store (receipt_key t), string_of_int (account_data_key t),
      string_of_int (push_rules_key t), string_of_int (to_device_key t),
      writer_to_string store (device_list_key t), string_of_int (groups_key t),
      string_of_int (un_partial_stated_rooms_key t), string_of_int (thread_subscriptions_key t),
      string_of_int (sticky_events_key t)]"
  have "split_on CHR ''_'' (st_to_string store t) = ?ws"
    unfolding st_to_string_def by (rule split_on_join) (simp_all add: room_text_free writer_text_free)
  moreover have "st_from_keys store ?ws = Inr t"
    unfolding st_from_keys_def list.case by (simp only: p py_int_string_of_int rbind.simps) simp
  ultimately show ?thesis unfolding st_from_string_def Let_def by simp
qed

lemma ss_roundtrip:
  "printable store (stream_token t) \<Longrightarrow> ss_from_string store (ss_to_string store t) = Inr t"
  by (simp add: ss_from_string_def ss_to_string_def st_roundtrip)

lemma ts_roundtrip: "ts_from_string (ts_to_string t) = Inr t"
  by (simp add: ts_from_string_def ts_to_string_def starts_with_def)

section \<open>What parsing returns\<close>

lemma parse_positions_wf: "rfold (parse_position store) parts acc = Inr m \<Longrightarrow> wf_dict acc \<Longrightarrow> wf_dict m"
  by (rule rfold_invariant[of "parse_position store" parts acc m wf_dict])
    (auto simp: parse_position_def split: list.splits if_splits)

lemma parse_vector_wf: "parse_vector store s = Inr (n, m) \<Longrightarrow> wf_dict m"
  by (auto simp: parse_vector_def dest!: parse_positions_wf split: list.splits)

lemma except_all_eq_Inr: "except_all e r = Inr x \<longleftrightarrow> r = Inr x"
  by (cases r) auto

lemma except_all_eq_Inl: "except_all e r = Inl e' \<Longrightarrow> e' = e"
  by (cases r) auto

lemma room_parse_wf: "room_parse store s = Inr t \<Longrightarrow> wf_room t \<and> (has_topological t \<longrightarrow> instance_map t = [])"
  by (auto simp: room_parse_def except_all_eq_Inr room_post_init_ok wf_room_def wf_token_def live_token_def
      has_topological_def dest: parse_vector_wf split: list.splits if_splits)

lemma writer_parse_wf: "writer_parse store s = Inr t \<Longrightarrow> wf_token t"
  by (auto simp: writer_parse_def except_all_eq_Inr post_init_ok wf_token_def dest: parse_vector_wf split: list.splits if_splits)

lemma st_from_keys_wf:
  "st_from_keys store keys = Inr t \<Longrightarrow> wf_room (room_key t) \<and> wf_token (receipt_key t) \<and> wf_token (device_list_key t)"
  unfolding st_from_keys_def
  by (auto split: list.splits dest: room_parse_wf writer_parse_wf)

end
