(* ===== verification/Stream_Token_Theorems.thy ===== *)
theory Stream_Token_Theorems
  imports Stream_Token_Text
begin

text \<open>The properties of stream tokens.\<close>

section \<open>Samples\<close>

definition sample_store :: InstanceStore where
  "sample_store = \<lparr>get_name_from_instance_id = (\<lambda>i. if i = 1 then Inr ''w1'' else if i = 2 then Inr ''w2'' else Inl KeyError),
     get_id_for_instance = (\<lambda>n. if n = ''w1'' then 1 else 2)\<rparr>"

definition sample_clock :: MultiWriterStreamToken where
  "sample_clock = \<lparr>stream = 5, instance_map = [(''w1'', 7)]\<rparr>"

definition sample_token :: StreamToken where
  "sample_token = START\<lparr>room_key := live_token 56 [(''w1'', 58), (''w2'', 59)], receipt_key := sample_clock\<rparr>"

lemma sample_clock_wf: "wf_token sample_clock"
  by code_simp

lemma sample_room_live: "live (room_key sample_token)"
  by code_simp

lemma sample_printable: "printable sample_store sample_token"
  by code_simp

section \<open>Advancing\<close>

text \<open>
  A row is after the advanced token exactly when it is after both tokens, for the streams with
  several writers and for the live room stream; on valid tokens advancing does not fail.
\<close>

theorem advanced_token_exact:
  assumes "wf_token a" and "wf_token b" and "live r" and "live s"
  shows "(\<exists>c. copy_and_advance a b = Inr c \<and> wf_token c
      \<and> (persisted_after p c \<longleftrightarrow> persisted_after p a \<and> persisted_after p b))
    \<and> (\<exists>t. room_copy_and_advance r s = Inr t \<and> live t
      \<and> room_persisted_after p t = Inr (room_persisted_after p r = Inr True \<and> room_persisted_after p s = Inr True))"
proof -
  obtain c where c: "copy_and_advance a b = Inr c" "wf_token c" using writer_clock.advance_ok[OF assms(1,2)] by blast
  obtain t where t: "room_copy_and_advance r s = Inr t" "live t" using room_clock.advance_ok[OF assms(3,4)] by blast
  have "persisted_after p c \<longleftrightarrow> persisted_after p a \<and> persisted_after p b"
    using writer_clock.advance_after[OF assms(1,2) c(1)] by (simp add: persisted_after_def)
  moreover have "room_persisted_after p u = Inr (position u (instance_name p) < pp_stream p)" if "live u" for u
    using that by (simp add: room_persisted_after_def room_get_stream_pos_for_instance_def live_def)
  ultimately show ?thesis
    using c t room_clock.advance_after[OF assms(3,4) t(1)] assms(3,4) by auto
qed

theorem advanced_token_exact_witness:
  "\<exists>c. copy_and_advance sample_clock \<lparr>stream = 6, instance_map = []\<rparr> = Inr c \<and> wf_token c"
proof -
  have "wf_token \<lparr>stream = 6, instance_map = []\<rparr>" by code_simp
  from advanced_token_exact[OF sample_clock_wf this sample_room_live sample_room_live] show ?thesis by blast
qed

definition valid_token :: "StreamToken \<Rightarrow> bool" where
  "valid_token t \<longleftrightarrow> live (room_key t) \<and> wf_token (receipt_key t) \<and> wf_token (device_list_key t)"

fun valid_position :: "new_position \<Rightarrow> bool" where
  "valid_position (RoomPos v) = live v"
| "valid_position (WriterPos k v) = wf_token v"
| "valid_position (IntPos k v) = True"

lemma before_refl [simp]: "is_before_or_eq a a"
  by (simp add: before_iff)

lemma st_before_iff: "st_is_before_or_eq a b \<longleftrightarrow> is_before_or_eq (room_key a) (room_key b)
    \<and> (\<forall>k. is_before_or_eq (get_writer_field k a) (get_writer_field k b))
    \<and> (\<forall>k. k \<noteq> TYPING \<longrightarrow> get_int_field k a \<le> get_int_field k b)"
proof -
  have "(\<forall>k. P k) \<longleftrightarrow> P RECEIPT \<and> P DEVICE_LIST" for P by (metis writer_key.exhaust)
  moreover have "(\<forall>k. P k) \<longleftrightarrow> P PRESENCE \<and> P TYPING \<and> P ACCOUNT_DATA \<and> P PUSH_RULES \<and> P TO_DEVICE
      \<and> P UN_PARTIAL_STATED_ROOMS \<and> P THREAD_SUBSCRIPTIONS \<and> P STICKY_EVENTS" for P by (metis int_key.exhaust)
  ultimately show ?thesis by (auto simp: st_is_before_or_eq_def stream_keys_def)
qed

lemma get_replaced [simp]:
  "room_key (copy_and_replace t (RoomPos v)) = v"
  "room_key (copy_and_replace t (WriterPos k w)) = room_key t" "room_key (copy_and_replace t (IntPos j n)) = room_key t"
  "get_writer_field k' (copy_and_replace t (RoomPos v)) = get_writer_field k' t"
  "get_writer_field k' (copy_and_replace t (WriterPos k w)) = (if k' = k then w else get_writer_field k' t)"
  "get_writer_field k' (copy_and_replace t (IntPos j n)) = get_writer_field k' t"
  "get_int_field j' (copy_and_replace t (RoomPos v)) = get_int_field j' t"
  "get_int_field j' (copy_and_replace t (WriterPos k w)) = get_int_field j' t"
  "get_int_field j' (copy_and_replace t (IntPos j n)) = (if j' = j then n else get_int_field j' t)"
  by (cases k; cases k'; cases j; cases j'; simp)+

declare copy_and_replace.simps [simp del]

lemma valid_token_iff: "valid_token t \<longleftrightarrow> live (room_key t) \<and> (\<forall>k. wf_token (get_writer_field k t))"
proof -
  have "(\<forall>k. P k) \<longleftrightarrow> P RECEIPT \<and> P DEVICE_LIST" for P by (metis writer_key.exhaust)
  then show ?thesis by (auto simp: valid_token_def)
qed

text \<open>
  C9. Advancing one stream of a token never fails on valid tokens and gives the earliest token
  that is neither before the old one nor before the old one moved to the new position.
\<close>

theorem stream_token_advances:
  assumes "valid_token t" and "valid_position u"
  shows "\<exists>t'. st_copy_and_advance t u = Inr t' \<and> valid_token t'
    \<and> st_is_before_or_eq t t' \<and> st_is_before_or_eq (copy_and_replace t u) t'
    \<and> (\<forall>w. st_is_before_or_eq t w \<longrightarrow> st_is_before_or_eq (copy_and_replace t u) w \<longrightarrow> st_is_before_or_eq t' w)"
proof (cases u)
  case (RoomPos v)
  have lv: "live (room_key t)" "live v" using assms by (auto simp: valid_token_def RoomPos)
  then obtain c where c: "room_copy_and_advance (room_key t) v = Inr c" "live c" using room_clock.advance_ok by blast
  note up = room_clock.advance_upper[OF lv c(1)]
  show ?thesis using assms(1) c up
    by (intro exI[of _ "copy_and_replace t (RoomPos c)"]) (simp add: RoomPos st_before_iff valid_token_iff)
next
  case (WriterPos k v)
  have lv: "wf_token (get_writer_field k t)" "wf_token v" using assms by (auto simp: valid_token_iff WriterPos)
  then obtain c where c: "copy_and_advance (get_writer_field k t) v = Inr c" "wf_token c" using writer_clock.advance_ok by blast
  note up = writer_clock.advance_upper[OF lv c(1)]
  show ?thesis using assms(1) c up
    by (intro exI[of _ "copy_and_replace t (WriterPos k c)"]) (auto simp: WriterPos st_before_iff valid_token_iff)
next
  case (IntPos k n)
  show ?thesis using assms(1)
    by (intro exI[of _ "if get_int_field k t < n then copy_and_replace t (IntPos k n) else t"])
      (auto simp: IntPos Let_def st_before_iff valid_token_iff)
qed

theorem stream_token_advances_witness:
  "\<exists>t'. st_copy_and_advance sample_token (IntPos PRESENCE 3) = Inr t' \<and> valid_token t' \<and> st_is_before_or_eq sample_token t'"
proof -
  have "valid_token sample_token" by code_simp
  from stream_token_advances[OF this, of "IntPos PRESENCE 3"] show ?thesis by auto
qed

text \<open>
  Bounding a token by a position gives the latest token that is before the given one and
  within the bound.
\<close>

theorem bounded_token_exact:
  assumes "wf_token a" and "live r"
  shows "(\<exists>c. bound_stream_token a n = Inr c \<and> wf_token c \<and> (\<forall>d. is_before_or_eq d c \<longleftrightarrow>
      is_before_or_eq d a \<and> (\<forall>i. position d i \<le> n)))
    \<and> (\<exists>t. room_bound_stream_token r n = Inr t \<and> live t \<and> (\<forall>d. is_before_or_eq d t \<longleftrightarrow>
      is_before_or_eq d r \<and> (\<forall>i. position d i \<le> n)))"
proof -
  obtain c where "bound_stream_token a n = Inr c" "wf_token c" "position c = (\<lambda>i. min (position a i) n)"
    using writer_clock.bound_ok[OF assms(1)] by blast
  moreover obtain t where "room_bound_stream_token r n = Inr t" "live t" "position t = (\<lambda>i. min (position r i) n)"
    using room_clock.bound_ok[OF assms(2)] by blast
  ultimately show ?thesis by (auto simp: before_iff)
qed

theorem bounded_token_exact_witness:
  "\<exists>c. bound_stream_token sample_clock 6 = Inr c \<and> wf_token c \<and> (\<forall>d. is_before_or_eq d c \<longleftrightarrow>
      is_before_or_eq d sample_clock \<and> (\<forall>i. position d i \<le> 6))"
  using bounded_token_exact[OF sample_clock_wf sample_room_live, of 6] by blast

section \<open>Text\<close>

text \<open>
  C27. Tokens survive printing and parsing: the token of all streams, the sliding-sync token and the
  thread-subscriptions token are read back as they were.
\<close>

theorem token_roundtrip:
  assumes "printable store t"
  shows "st_from_string store (st_to_string store t) = Inr t
    \<and> ss_from_string store (ss_to_string store \<lparr>stream_token = t, connection_position = n\<rparr>)
        = Inr \<lparr>stream_token = t, connection_position = n\<rparr>
    \<and> ts_from_string (ts_to_string \<lparr>stream_id = m\<rparr>) = Inr \<lparr>stream_id = m\<rparr>"
  using st_roundtrip[OF assms] ss_roundtrip[of store "\<lparr>stream_token = t, connection_position = n\<rparr>"] assms
  by (simp add: ts_roundtrip)

theorem token_roundtrip_witness:
  "st_from_string sample_store (st_to_string sample_store sample_token) = Inr sample_token"
  using token_roundtrip[OF sample_printable] by blast

text \<open>
  Whatever text a client sends, reading a token of all streams gives a valid token or the 400
  error, nothing else.
\<close>

theorem token_parse_total:
  "case st_from_string store s of
     Inr t \<Rightarrow> wf_room (room_key t) \<and> wf_token (receipt_key t) \<and> wf_token (device_list_key t)
   | Inl e \<Rightarrow> e = SynapseError 400 ''Invalid stream token''"
  using st_from_keys_wf[of store]
  by (auto simp: st_from_string_def Let_def except_all_def split: sum.splits)

text \<open>
  Reading a room token fails with the 400 error, except for a text without the prefix of a token,
  where building the message of that error fails and the parser raises \<open>ValueError\<close> instead.
\<close>

theorem room_parse_errors:
  "room_parse store s = Inl e \<Longrightarrow>
     e = (if s = [] \<or> hd s \<notin> set ''stm'' then ValueError else SynapseError 400 ''Invalid room stream token'')"
  by (cases s) (auto simp: room_parse_def dest: except_all_eq_Inl split: if_splits)

theorem room_parse_errors_witness:
  "\<exists>e. room_parse sample_store ''x1'' = Inl e \<and> e = ValueError"
proof -
  have r: "room_parse sample_store ''x1'' = Inl ValueError" by code_simp
  have "hd ''x1'' \<notin> set ''stm''" by simp
  with room_parse_errors[OF r] r show ?thesis by simp
qed

end
