(* ===== verification/Identifier_Text.thy ===== *)
theory Identifier_Text
  imports Identifiers "HOL-Library.While_Combinator"
begin

text \<open>
  The mapping of user names of other systems to localparts of user identifiers, base 62 numbers,
  and the small string validators. Byte strings are strings.
\<close>

section \<open>User names as localparts\<close>

abbreviation code :: "char \<Rightarrow> nat" where "code c \<equiv> of_char c"

definition is_lower :: "char \<Rightarrow> bool" where
  "is_lower c \<longleftrightarrow> 97 \<le> code c \<and> code c \<le> 122"

definition is_upper :: "char \<Rightarrow> bool" where
  "is_upper c \<longleftrightarrow> 65 \<le> code c \<and> code c \<le> 90"

text \<open>\<open>bytes.lower\<close>, which changes ASCII letters only.\<close>

definition lower_char :: "char \<Rightarrow> char" where
  "lower_char c = (if is_upper c then char_of (code c + 32) else c)"

definition mxid_char :: "char \<Rightarrow> bool" where
  "mxid_char c \<longleftrightarrow> c \<in> set ''_-./=+'' \<or> is_lower c \<or> is_digit c"

definition contains_invalid_mxid_characters :: "string \<Rightarrow> bool" where
  "contains_invalid_mxid_characters s = list_ex (\<lambda>c. \<not> mxid_char c) s"

definition escape_upper :: "char \<Rightarrow> string" where
  "escape_upper c = (if is_upper c \<or> c = CHR ''_'' then [CHR ''_'', lower_char c] else [c])"

definition hex_digit :: "nat \<Rightarrow> char" where
  "hex_digit d = char_of (if d < 10 then 48 + d else 87 + d)"

definition escape_byte :: "char \<Rightarrow> string" where
  "escape_byte c = (if mxid_char c \<and> c \<noteq> CHR ''='' then [c]
     else [CHR ''='', hex_digit (code c div 16), hex_digit (code c mod 16)])"

definition escape_underscore :: "string \<Rightarrow> string" where
  "escape_underscore s = (case s of [] \<Rightarrow> [] | c # cs \<Rightarrow> if c = CHR ''_'' then ''=5f'' @ cs else s)"

text \<open>\<open>str.encode("utf-8")\<close> for the code points below 256.\<close>

definition utf8_char :: "char \<Rightarrow> string" where
  "utf8_char c = (if code c < 128 then [c] else [char_of (192 + code c div 64), char_of (128 + code c mod 64)])"

definition utf8_encode :: "string \<Rightarrow> string" where
  "utf8_encode s = concat (map utf8_char s)"

datatype username = Str string | Bytes string

fun username_bytes :: "username \<Rightarrow> string" where
  "username_bytes (Str s) = utf8_encode s"
| "username_bytes (Bytes s) = s"

definition map_username_to_mxid_localpart :: "username \<Rightarrow> bool \<Rightarrow> string" where
  "map_username_to_mxid_localpart name case_sensitive =
     (let bytes = username_bytes name;
          lowered = (if case_sensitive then concat (map escape_upper bytes) else map lower_char bytes) in
      escape_underscore (concat (map escape_byte lowered)))"

section \<open>Base 62\<close>

definition BASE62 :: string where
  "BASE62 = ''0123456789ABCDEFGHIJKLMNOPQRSTUVWXYZabcdefghijklmnopqrstuvwxyz''"

definition base62_step :: "int \<times> string \<Rightarrow> int \<times> string" where
  "base62_step = (\<lambda>(num, res). (num div 62, (BASE62 ! nat (num mod 62)) # res))"

text \<open>The loop may not end; then the value is \<^const>\<open>None\<close>.\<close>

definition base62_encode :: "int \<Rightarrow> int \<Rightarrow> string option" where
  "base62_encode num minwidth =
     map_option (\<lambda>(_, res). replicate (nat (minwidth - int (length res))) CHR ''0'' @ res)
       (while_option (\<lambda>(num, _). num \<noteq> 0) base62_step (num, []))"

section \<open>Other strings\<close>

definition is_ascii :: "string \<Rightarrow> bool" where
  "is_ascii s = list_all (\<lambda>c. code c < 128) s"

text \<open>
  Python's \<open>$\<close> also matches before a newline at the end, so the text that is matched may lack the
  final newline.
\<close>

definition dollar_texts :: "string \<Rightarrow> string list" where
  "dollar_texts s = s # (if s \<noteq> [] \<and> last s = CHR 0x0A then [butlast s] else [])"

definition is_namedspaced_grammar :: "string \<Rightarrow> bool" where
  "is_namedspaced_grammar s = list_ex (\<lambda>t. t \<noteq> [] \<and> is_lower (hd t) \<and> length (tl t) \<le> 254
     \<and> list_all (\<lambda>c. is_lower c \<or> is_digit c \<or> c \<in> set ''_.-'') (tl t)) (dollar_texts s)"

definition assert_valid_client_secret :: "string \<Rightarrow> unit res" where
  "assert_valid_client_secret s =
     raise_if (length s \<le> 0 \<or> length s > 255
       \<or> \<not> list_ex (\<lambda>t. t \<noteq> [] \<and> list_all (\<lambda>c. is_digit c \<or> is_lower c \<or> is_upper c \<or> c \<in> set ''.=_-'') t) (dollar_texts s))
       (SynapseError 400 ''Invalid client_secret parameter'')"

text \<open>No other code point below 256 is lowered to one of the letters that are compared here.\<close>

definition strtobool :: "string \<Rightarrow> bool res" where
  "strtobool v =
     (let v = map lower_char v in
      if v \<in> set [''y'', ''yes'', ''t'', ''true'', ''on'', ''1''] then Inr True
      else if v \<in> set [''n'', ''no'', ''f'', ''false'', ''off'', ''0''] then Inr False
      else Inl ValueError)"

record ThirdPartyInstanceID =
  appservice_id :: "string option"
  network_id :: "string option"

definition tpi_from_string :: "string \<Rightarrow> ThirdPartyInstanceID res" where
  "tpi_from_string s = (case split_on CHR ''|'' s of
     [a, n] \<Rightarrow> Inr \<lparr>appservice_id = Some a, network_id = Some n\<rparr>
   | _ \<Rightarrow> Inl (SynapseError 400 ''Invalid ID''))"

text \<open>\<open>"%s" % x\<close> prints a missing value as \<open>None\<close>.\<close>

definition show_opt :: "string option \<Rightarrow> string" where
  "show_opt x = (case x of None \<Rightarrow> ''None'' | Some s \<Rightarrow> s)"

definition tpi_to_string :: "ThirdPartyInstanceID \<Rightarrow> string" where
  "tpi_to_string t = show_opt (appservice_id t) @ CHR ''|'' # show_opt (network_id t)"

section \<open>Evaluation\<close>

lemma is_lower_code [code]: "is_lower c \<longleftrightarrow> (let n = (of_char c :: int) in 97 \<le> n \<and> n \<le> 122)"
  unfolding is_lower_def Let_def char_code_int by linarith

lemma is_upper_code [code]: "is_upper c \<longleftrightarrow> (let n = (of_char c :: int) in 65 \<le> n \<and> n \<le> 90)"
  unfolding is_upper_def Let_def char_code_int by linarith

lemma lower_char_code_eq [code]: "lower_char c = (if is_upper c then char_of (of_char c + (32 :: int)) else c)"
  unfolding lower_char_def char_code_int by (subst char_of_int) (simp_all add: nat_add_distrib)

lemma utf8_char_code [code]:
  "utf8_char c = (let n = (of_char c :: int) in
     if n < 128 then [c] else [char_of (192 + n div 64), char_of (128 + n mod 64)])"
  unfolding utf8_char_def Let_def char_code_int
  by (subst (1 2) char_of_int) (simp_all add: nat_add_distrib nat_div_distrib nat_mod_distrib)

section \<open>The mapping is one to one\<close>

lemma code_inj: "code c = code d \<longleftrightarrow> c = d"
  by simp

lemma lower_char_code: "is_upper c \<Longrightarrow> code (lower_char c) = code c + 32"
  by (simp add: lower_char_def is_upper_def of_char_of take_bit_eq_mod)

lemma hex_digit_inj: "a < 16 \<Longrightarrow> b < 16 \<Longrightarrow> hex_digit a = hex_digit b \<longleftrightarrow> a = b"
proof -
  assume a: "a < 16" "b < 16"
  have "code (hex_digit d) = (if d < 10 then 48 + d else 87 + d)" if "d < 16" for d
    using that by (simp add: hex_digit_def of_char_of take_bit_eq_mod)
  from this[OF a(1)] this[OF a(2)] a show ?thesis
    unfolding code_inj[symmetric] by (simp split: if_splits)
qed

text \<open>A code in which no word starts another one can be read back.\<close>

definition prefix_code :: "('a \<Rightarrow> 'b list) \<Rightarrow> bool" where
  "prefix_code f \<longleftrightarrow> (\<forall>x y r s. f x @ r = f y @ s \<longrightarrow> x = y) \<and> (\<forall>x. f x \<noteq> [])"

lemma concat_map_inj:
  assumes "prefix_code f"
  shows "concat (map f xs) = concat (map f ys) \<longleftrightarrow> xs = ys"
proof
  show "concat (map f xs) = concat (map f ys) \<Longrightarrow> xs = ys"
  proof (induction xs arbitrary: ys)
    case Nil
    then show ?case using assms by (cases ys) (auto simp: prefix_code_def)
  next
    case (Cons x xs)
    then obtain y ys' where ys: "ys = y # ys'" using assms by (cases ys) (auto simp: prefix_code_def)
    with Cons.prems have e: "f x @ concat (map f xs) = f y @ concat (map f ys')" by simp
    with assms have "x = y" unfolding prefix_code_def by blast
    with e Cons.IH show ?case by (simp add: ys)
  qed
qed simp

lemma lower_char_inj:
  assumes "is_upper x \<or> x = CHR ''_''" "is_upper y \<or> y = CHR ''_''" "lower_char x = lower_char y"
  shows "x = y"
proof -
  have "lower_char CHR ''_'' = CHR ''_''" "\<not> is_upper CHR ''_''" by (simp_all add: lower_char_def is_upper_def)
  moreover have "code (lower_char c) = code c + 32" "code c + 32 \<noteq> code CHR ''_''" if "is_upper c" for c
    using that lower_char_code by (auto simp: is_upper_def)
  ultimately have "code x = code y" using assms by (metis add_right_cancel)
  then show ?thesis by simp
qed

lemma escape_upper_prefix: "escape_upper x @ r = escape_upper y @ s \<Longrightarrow> x = y"
  by (cases "is_upper x \<or> x = CHR ''_''"; cases "is_upper y \<or> y = CHR ''_''")
    (auto simp: escape_upper_def intro: lower_char_inj)

lemma escape_byte_prefix: "escape_byte x @ r = escape_byte y @ s \<Longrightarrow> x = y"
proof -
  assume e: "escape_byte x @ r = escape_byte y @ s"
  have lt: "code c div 16 < 16" "code c mod 16 < 16" for c
    using nat_of_char_less_256[of c] by (simp_all add: div_less_iff_less_mult)
  show ?thesis
  proof (cases "mxid_char x \<and> x \<noteq> CHR ''=''"; cases "mxid_char y \<and> y \<noteq> CHR ''=''")
    assume "\<not> (mxid_char x \<and> x \<noteq> CHR ''='')" "\<not> (mxid_char y \<and> y \<noteq> CHR ''='')"
    with e have "hex_digit (code x div 16) = hex_digit (code y div 16)" "hex_digit (code x mod 16) = hex_digit (code y mod 16)"
      by (auto simp: escape_byte_def)
    then have "code x div 16 = code y div 16" "code x mod 16 = code y mod 16" using hex_digit_inj lt by blast+
    then have "code x = code y" by (metis div_mult_mod_eq)
    then show ?thesis by simp
  qed (use e in \<open>auto simp: escape_byte_def\<close>)
qed

lemma hex_digit_char: "d < 16 \<Longrightarrow> mxid_char (hex_digit d)"
  by (auto simp: mxid_char_def is_lower_def is_digit_def hex_digit_def of_char_of take_bit_eq_mod)

lemma code_halves: "code c div 16 < 16" "code c mod 16 < 16"
  using nat_of_char_less_256[of c] by (simp_all add: div_less_iff_less_mult)

lemma escape_byte_chars: "c \<in> set (escape_byte x) \<Longrightarrow> mxid_char c"
  using hex_digit_char code_halves[of x]
  by (auto simp: escape_byte_def mxid_char_def[of "CHR ''=''"] split: if_splits)

lemma no_escaped_underscore: "concat (map escape_byte v) \<noteq> ''=5f'' @ cs"
proof
  assume e: "concat (map escape_byte v) = ''=5f'' @ cs"
  then obtain c v' where v: "v = c # v'" by (cases v) auto
  have "\<not> (mxid_char c \<and> c \<noteq> CHR ''='')" using e by (auto simp: v escape_byte_def split: if_splits)
  moreover from this have "hex_digit (code c div 16) = CHR ''5''" "hex_digit (code c mod 16) = CHR ''f''"
    using e by (auto simp: v escape_byte_def)
  moreover have "hex_digit 5 = CHR ''5''" "hex_digit 15 = CHR ''f''" by code_simp+
  ultimately have "code c div 16 = 5" "code c mod 16 = 15"
    using hex_digit_inj[of "code c div 16" 5] hex_digit_inj[of "code c mod 16" 15] code_halves[of c] by auto
  then have "code c = code CHR ''_''" using div_mult_mod_eq[of "code c" 16] by simp
  then have "c = CHR ''_''" by (simp only: code_inj)
  with \<open>\<not> (mxid_char c \<and> c \<noteq> CHR ''='')\<close> show False by (simp add: mxid_char_def)
qed

lemma escape_underscore_inj:
  "(\<And>cs. p \<noteq> ''=5f'' @ cs) \<Longrightarrow> (\<And>cs. q \<noteq> ''=5f'' @ cs) \<Longrightarrow> escape_underscore p = escape_underscore q \<Longrightarrow> p = q"
  by (cases p; cases q) (auto simp: escape_underscore_def split: if_splits)

lemma escape_underscore_chars: "c \<in> set (escape_underscore p) \<Longrightarrow> c \<in> set p \<or> c \<in> set ''=5f''"
  by (cases p) (auto simp: escape_underscore_def split: if_splits)

lemma escape_codes: "prefix_code escape_byte" "prefix_code escape_upper"
proof -
  have "escape_byte x \<noteq> []" "escape_upper x \<noteq> []" for x by (simp_all add: escape_byte_def escape_upper_def)
  then show "prefix_code escape_byte" "prefix_code escape_upper"
    unfolding prefix_code_def using escape_byte_prefix escape_upper_prefix by blast+
qed

lemmas escape_inj = concat_map_inj[OF escape_codes(1)] concat_map_inj[OF escape_codes(2)]

text \<open>
  C31. User names of other systems map to valid localparts, and different names to different ones:
  with case sensitivity the mapping is one to one, without it exactly the names that differ in case
  only are merged.
\<close>

theorem mxid_mapping_faithful:
  "\<not> contains_invalid_mxid_characters (map_username_to_mxid_localpart a cs)
    \<and> (map_username_to_mxid_localpart a True = map_username_to_mxid_localpart b True
        \<longleftrightarrow> username_bytes a = username_bytes b)
    \<and> (map_username_to_mxid_localpart a False = map_username_to_mxid_localpart b False
        \<longleftrightarrow> map lower_char (username_bytes a) = map lower_char (username_bytes b))"
proof -
  have "mxid_char c" if "c \<in> set (escape_underscore (concat (map escape_byte u)))" for c u
  proof -
    have "list_all mxid_char ''=5f''" by code_simp
    with escape_underscore_chars[OF that] have "c \<in> set (concat (map escape_byte u)) \<or> mxid_char c"
      by (auto simp: list_all_iff)
    then show ?thesis using escape_byte_chars by auto
  qed
  then have "\<not> contains_invalid_mxid_characters (map_username_to_mxid_localpart a cs)"
    unfolding contains_invalid_mxid_characters_def map_username_to_mxid_localpart_def Let_def list_ex_iff by blast
  moreover have "escape_underscore (concat (map escape_byte u)) = escape_underscore (concat (map escape_byte v)) \<longleftrightarrow> u = v" for u v
    using escape_underscore_inj[OF no_escaped_underscore no_escaped_underscore, of u v] escape_inj(1)[of u v] by blast
  ultimately show ?thesis unfolding map_username_to_mxid_localpart_def Let_def if_True if_False
    by (simp only: escape_inj(2) simp_thms)
qed

section \<open>Base 62 numbers\<close>

text \<open>The value of a base 62 number.\<close>

fun index_of :: "char \<Rightarrow> string \<Rightarrow> nat" where
  "index_of c [] = 0"
| "index_of c (x # xs) = (if x = c then 0 else Suc (index_of c xs))"

definition base62_value :: "string \<Rightarrow> int" where
  "base62_value s = foldl (\<lambda>a c. 62 * a + int (index_of c BASE62)) 0 s"

lemma index_of_nth: "distinct xs \<Longrightarrow> i < length xs \<Longrightarrow> index_of (xs ! i) xs = i"
proof (induction xs arbitrary: i)
  case (Cons x xs)
  then show ?case by (cases i) auto
qed simp

lemma BASE62_laws: "distinct BASE62" "length BASE62 = 62"
  by code_simp+

lemma base62_digit: "0 \<le> r \<Longrightarrow> r < 62 \<Longrightarrow> int (index_of (BASE62 ! nat r) BASE62) = r"
  using index_of_nth[OF BASE62_laws(1), of "nat r"] BASE62_laws(2) by simp

lemma foldl_base62: "foldl (\<lambda>a c. 62 * a + int (index_of c BASE62)) n s = n * 62 ^ length s + base62_value s"
proof (induction s arbitrary: n)
  case (Cons c s)
  show ?case
    using Cons[of "62 * n + int (index_of c BASE62)"] Cons[of "int (index_of c BASE62)"]
    by (simp add: base62_value_def[of "c # s"] algebra_simps)
qed (simp add: base62_value_def)

lemma base62_value_Cons: "base62_value (c # s) = int (index_of c BASE62) * 62 ^ length s + base62_value s"
  using foldl_base62[of "int (index_of c BASE62)" s] by (simp add: base62_value_def)

definition base62_inv :: "int \<Rightarrow> int \<times> string \<Rightarrow> bool" where
  "base62_inv n = (\<lambda>(num, res). 0 \<le> num \<and> num * 62 ^ length res + base62_value res = n)"

lemma base62_step_inv:
  assumes "base62_inv n s" "fst s \<noteq> 0"
  shows "base62_inv n (base62_step s) \<and> nat (fst (base62_step s)) < nat (fst s)"
proof -
  obtain num res where s: "s = (num, res)" by (cases s)
  have num: "0 < num" "num * 62 ^ length res + base62_value res = n" using assms by (auto simp: s base62_inv_def)
  have "base62_value ((BASE62 ! nat (num mod 62)) # res) = num mod 62 * 62 ^ length res + base62_value res"
    by (simp add: base62_value_Cons base62_digit)
  moreover have "num div 62 * 62 ^ Suc (length res) + num mod 62 * 62 ^ length res = num * 62 ^ length res"
    using div_mult_mod_eq[of num 62] by (metis (no_types) distrib_right mult.assoc power_Suc)
  ultimately have "base62_inv n (base62_step s)" using num by (simp add: s base62_inv_def base62_step_def)
  moreover have "num div 62 < num" using num(1) by (simp add: int_div_less_self)
  ultimately show ?thesis using num(1) by (simp add: s base62_step_def)
qed

lemma base62_loop:
  assumes "base62_inv n s"
  shows "\<exists>res. while_option (\<lambda>(num, _). num \<noteq> 0) base62_step s = Some (0, res) \<and> base62_value res = n"
proof -
  have "\<exists>t. while_option (\<lambda>(num, _). num \<noteq> 0) base62_step s = Some t"
    by (rule measure_while_option_Some[where P = "base62_inv n" and f = "\<lambda>s. nat (fst s)"])
      (use assms base62_step_inv in \<open>auto simp: split_beta\<close>)
  then obtain t where t: "while_option (\<lambda>(num, _). num \<noteq> 0) base62_step s = Some t" ..
  have "base62_inv n t"
    by (rule while_option_rule[OF _ t, where P = "base62_inv n"]) (use assms base62_step_inv in \<open>auto simp: split_beta\<close>)
  with while_option_stop[OF t] show ?thesis unfolding t by (cases t) (auto simp: base62_inv_def)
qed

lemma base62_value_pad: "base62_value (replicate k CHR ''0'' @ s) = base62_value s"
  by (induction k) (simp_all add: base62_value_Cons BASE62_def)

lemma base62_stuck: "n < 0 \<Longrightarrow> while_option (\<lambda>(num, _). num \<noteq> 0) base62_step (n, r) = None"
proof (rule ccontr)
  assume n: "n < 0" and "while_option (\<lambda>(num, _). num \<noteq> 0) base62_step (n, r) \<noteq> None"
  then obtain t where t: "while_option (\<lambda>(num, _). num \<noteq> 0) base62_step (n, r) = Some t" by auto
  have "fst t < 0"
    by (rule while_option_rule[OF _ t, where P = "\<lambda>s. fst s < 0"]) (use n in \<open>auto simp: base62_step_def\<close>)
  with while_option_stop[OF t] show False by (simp add: split_beta)
qed

text \<open>
  Base 62 encoding ends exactly for the numbers that are not negative, and then the text has
  the value of the number and at least the asked width.
\<close>

theorem base62_exact:
  "(num \<ge> 0 \<longleftrightarrow> base62_encode num w \<noteq> None)
    \<and> (\<forall>s. base62_encode num w = Some s \<longrightarrow> base62_value s = num \<and> w \<le> int (length s))"
proof (cases "0 \<le> num")
  case True
  then have "base62_inv num (num, [])" by (simp add: base62_inv_def base62_value_def)
  from base62_loop[OF this] show ?thesis
    using True by (auto simp: base62_encode_def base62_value_pad)
next
  case False
  then show ?thesis using base62_stuck[of num "[]"] by (simp add: base62_encode_def)
qed

theorem base62_exact_witness:
  "\<exists>s. base62_encode 125 4 = Some s \<and> base62_value s = 125 \<and> 4 \<le> length s"
  using base62_exact[of 125 4] by auto

section \<open>Identifiers\<close>

lemma join_split: "join_with c (split_on c s) = s"
proof (induction s)
  case (Cons x s)
  obtain w ws where ws: "split_on c s = w # ws" using split_on_ne[of c s] by (cases "split_on c s") auto
  with Cons show ?case by (cases ws) auto
qed simp

lemma tpi_ok:
  assumes "tpi_from_string s = Inr t"
  shows "tpi_to_string t = s"
proof -
  obtain a n where an: "split_on CHR ''|'' s = [a, n]" "t = \<lparr>appservice_id = Some a, network_id = Some n\<rparr>"
    using assms by (auto simp: tpi_from_string_def split: list.splits)
  then show ?thesis using join_split[of "CHR ''|''" s] by (simp add: tpi_to_string_def show_opt_def)
qed

text \<open>
  Identifiers that can be parsed print as they were written, the parser accepts exactly the
  texts that printing produces, and the shortcuts for domain and localpart agree with it.
\<close>

theorem identifiers_roundtrip:
  assumes "sigil \<noteq> CHR '':''"
  shows "(dss_from_string sigil s = Inr d \<longleftrightarrow> s = dss_to_string sigil d \<and> CHR '':'' \<notin> set (localpart d))
    \<and> (dss_from_string sigil s = Inr d \<longrightarrow>
        get_domain_from_id s = Inr (domain d) \<and> get_localpart_from_id s = Inr (localpart d))
    \<and> (RoomID_from_string s = Inr r \<longrightarrow> RoomID_to_string r = s)
    \<and> (tpi_from_string s = Inr t \<longrightarrow> tpi_to_string t = s)"
  using get_domain_of_dss[OF _ assms] get_localpart_of_dss[OF _ assms] tpi_ok
  by (auto simp: dss_from_string_ok RoomID_from_string_def RoomID_to_string_def split: if_splits)

theorem identifiers_roundtrip_witness:
  "\<exists>d. dss_from_string CHR ''@'' ''@alice:example.org'' = Inr d \<and> dss_to_string CHR ''@'' d = ''@alice:example.org''
    \<and> get_domain_from_id ''@alice:example.org'' = Inr ''example.org''"
proof -
  let ?d = "\<lparr>localpart = ''alice'', domain = ''example.org''\<rparr>"
  have p: "dss_from_string CHR ''@'' ''@alice:example.org'' = Inr ?d" by code_simp
  have s: "CHR ''@'' \<noteq> CHR '':''" by simp
  from identifiers_roundtrip[OF s, of "''@alice:example.org''" ?d] p
  have "''@alice:example.org'' = dss_to_string CHR ''@'' ?d" "get_domain_from_id ''@alice:example.org'' = Inr (domain ?d)"
    by blast+
  with p show ?thesis by (intro exI[of _ ?d]) simp
qed

end
