(* ===== verification/Wheel_Timer.thy ===== *)
theory Wheel_Timer
  imports Prelude
begin

text \<open>
  The timer of \<open>util/wheel_timer.py\<close>: objects are put into buckets by the time after which they are
  due, and \<open>fetch\<close> empties the buckets that are over. Times are integers in milliseconds. The
  quotient \<open>int(t / bucket)\<close> is taken exactly, rounded towards zero; the set of a bucket is a list
  without repetitions, and the order in which a set yields its elements is the order of insertion.
  The warning that \<open>insert\<close> logs changes nothing and is left out.
\<close>

section \<open>The timer\<close>

record 'a wheel_entry =
  end_key :: int
  elements :: "'a list"

record 'a wheel_timer =
  bucket_size :: int
  entries :: "'a wheel_entry list"

definition wheel_new :: "int \<Rightarrow> 'a wheel_timer" where
  "wheel_new b = \<lparr>bucket_size = b, entries = []\<rparr>"

definition trunc_div :: "int \<Rightarrow> int \<Rightarrow> int" where
  "trunc_div a b = (if 0 \<le> a then a div b else - ((- a) div b))"

definition add_to :: "nat \<Rightarrow> 'a \<Rightarrow> 'a wheel_entry list \<Rightarrow> 'a wheel_entry list" where
  "add_to i obj es = es[i := (es ! i)\<lparr>elements := set_add obj (elements (es ! i))\<rparr>]"

definition wheel_insert :: "int \<Rightarrow> 'a \<Rightarrow> int \<Rightarrow> 'a wheel_timer \<Rightarrow> 'a wheel_timer" where
  "wheel_insert now obj due t =
     (let es = entries t;
          then_key = trunc_div due (bucket_size t) + 1;
          now_key = trunc_div now (bucket_size t) in
      if es \<noteq> [] \<and> then_key \<le> end_key (last es) then
        (let min_key = end_key (hd es) in
         t\<lparr>entries := add_to (nat (max min_key then_key - min_key)) obj es\<rparr>)
      else
        (let last_key = (if es \<noteq> [] then end_key (last es) + 1 else now_key + 1);
             es' = es @ map (\<lambda>k. \<lparr>end_key = k, elements = []\<rparr>) [last_key .. max last_key then_key] in
         t\<lparr>entries := add_to (length es' - 1) obj es'\<rparr>))"

fun pop_due :: "int \<Rightarrow> 'a wheel_entry list \<Rightarrow> 'a list \<times> 'a wheel_entry list" where
  "pop_due now_key [] = ([], [])"
| "pop_due now_key (e # es) =
     (if end_key e \<le> now_key
      then (let (ret, rest) = pop_due now_key es in (elements e @ ret, rest))
      else ([], e # es))"

definition wheel_fetch :: "int \<Rightarrow> 'a wheel_timer \<Rightarrow> 'a list \<times> 'a wheel_timer" where
  "wheel_fetch now t =
     (let (ret, rest) = pop_due (trunc_div now (bucket_size t)) (entries t)
      in (ret, t\<lparr>entries := rest\<rparr>))"

definition wheel_len :: "'a wheel_timer \<Rightarrow> nat" where
  "wheel_len t = sum_list (map (length \<circ> elements) (entries t))"

section \<open>Runs\<close>

text \<open>
  What happened to a timer: the calls in order, with the objects each \<open>fetch\<close> returned. The clock
  that the callers read does not go back.
\<close>

datatype 'a timer_event =
    Inserted (event_time: int) (event_object: 'a) (event_due: int)
  | Fetched (event_time: int) (event_result: "'a list")

definition run_time :: "'a timer_event list \<Rightarrow> int" where
  "run_time es = (if es = [] then 0 else event_time (last es))"

inductive wheel_run :: "int \<Rightarrow> 'a timer_event list \<Rightarrow> 'a wheel_timer \<Rightarrow> bool" for b where
  run_new: "wheel_run b [] (wheel_new b)"
| run_insert: "wheel_run b evs t \<Longrightarrow> run_time evs \<le> now
    \<Longrightarrow> wheel_run b (evs @ [Inserted now obj due]) (wheel_insert now obj due t)"
| run_fetch: "wheel_run b evs t \<Longrightarrow> run_time evs \<le> now \<Longrightarrow> wheel_fetch now t = (objs, t')
    \<Longrightarrow> wheel_run b (evs @ [Fetched now objs]) t'"

text \<open>An insertion is outstanding while no later call has returned its object.\<close>

definition outstanding :: "'a timer_event list \<Rightarrow> int \<Rightarrow> 'a \<Rightarrow> int \<Rightarrow> bool" where
  "outstanding evs n x due \<longleftrightarrow> (\<exists>xs ys. evs = xs @ Inserted n x due # ys \<and>
     (\<forall>now objs. Fetched now objs \<in> set ys \<longrightarrow> x \<notin> set objs))"

section \<open>Buckets\<close>

lemma trunc_div_mono: "0 < b \<Longrightarrow> a \<le> c \<Longrightarrow> trunc_div a b \<le> trunc_div c b"
  by (auto simp: trunc_div_def zdiv_mono1 pos_imp_zdiv_nonneg_iff intro: order_trans[of _ 0])

lemma trunc_div_less: "0 < b \<Longrightarrow> trunc_div a b < trunc_div c b \<Longrightarrow> a < c"
  by (meson leD leI trunc_div_mono)

lemma trunc_div_add: "0 < b \<Longrightarrow> 0 \<le> a \<Longrightarrow> trunc_div (a + b) b = trunc_div a b + 1"
  by (simp add: trunc_div_def)

text \<open>The end keys of the buckets are consecutive.\<close>

definition consecutive :: "'a wheel_entry list \<Rightarrow> bool" where
  "consecutive es \<longleftrightarrow> es = [] \<or> map end_key es = [end_key (hd es) .. end_key (last es)]"

lemma end_key_add_to [simp]: "map end_key (add_to i x es) = map end_key es"
  by (cases "i < length es") (auto simp: add_to_def nth_list_update intro!: nth_equalityI)

lemma add_to_Nil_iff [simp]: "add_to i x es = [] \<longleftrightarrow> es = []"
  by (simp add: add_to_def)

lemma end_key_hd_last_add_to [simp]:
  "es \<noteq> [] \<Longrightarrow> end_key (hd (add_to i x es)) = end_key (hd es)"
  "es \<noteq> [] \<Longrightarrow> end_key (last (add_to i x es)) = end_key (last es)"
  using end_key_add_to[of i x es] by (metis add_to_Nil_iff hd_map, metis add_to_Nil_iff last_map)

lemma consecutive_add_to [simp]: "consecutive (add_to i x es) \<longleftrightarrow> consecutive es"
  unfolding consecutive_def by (cases "es = []") simp_all

lemma consecutive_keys:
  assumes "consecutive es" and "es \<noteq> []"
  shows "end_key (hd es) \<le> end_key (last es)"
    and "int (length es) = end_key (last es) - end_key (hd es) + 1"
    and "i < length es \<Longrightarrow> end_key (es ! i) = end_key (hd es) + int i"
proof -
  have m: "map end_key es = [end_key (hd es) .. end_key (last es)]"
    using assms by (simp add: consecutive_def)
  then show h: "end_key (hd es) \<le> end_key (last es)" using assms(2)
    by (metis Nil_is_map_conv not_le upto_empty)
  have "length es = nat (end_key (last es) - end_key (hd es) + 1)"
    using arg_cong[OF m, of length] by simp
  with h show l: "int (length es) = end_key (last es) - end_key (hd es) + 1" by simp
  assume "i < length es"
  then show "end_key (es ! i) = end_key (hd es) + int i"
    using arg_cong[OF m, of "\<lambda>xs. xs ! i"] l by (simp add: nth_upto)
qed

lemma consecutive_tl:
  assumes "consecutive (e # es)"
  shows "consecutive es"
proof (cases es)
  case (Cons d ds)
  have k: "end_key e \<le> end_key (last es)" using consecutive_keys(1)[OF assms] Cons by simp
  have "end_key e # map end_key es = [end_key e .. end_key (last es)]"
    using assms Cons by (simp add: consecutive_def)
  then have m: "map end_key es = [end_key e + 1 .. end_key (last es)]"
    unfolding upto_rec1[OF k] by simp
  moreover have "end_key e + 1 \<le> end_key (last es)" using m Cons by (metis upto_empty not_le list.map_disc_iff list.distinct(1))
  ultimately have "end_key (hd es) = end_key e + 1" using Cons by (simp add: upto_rec1)
  with m show ?thesis by (simp add: consecutive_def)
qed (simp add: consecutive_def)

lemma consecutive_hd_tl: "consecutive (e # es) \<Longrightarrow> es \<noteq> [] \<Longrightarrow> end_key (hd es) = end_key e + 1"
  using consecutive_keys(3)[of "e # es" 1] by (cases es) auto

lemma consecutive_extend:
  assumes "es \<noteq> [] \<Longrightarrow> k = end_key (last es) + 1" and "consecutive es" and "k \<le> m"
  shows "consecutive (es @ map (\<lambda>k. \<lparr>end_key = k, elements = []\<rparr>) [k .. m])" (is "consecutive ?es")
proof -
  have l: "end_key (last ?es) = m" using assms(3) by (simp add: last_map upto_rec2)
  show ?thesis
  proof (cases "es = []")
    case True
    have "hd [k .. m] = k" using assms(3) by (simp add: upto.simps)
    with True l assms(3) show ?thesis by (simp add: consecutive_def hd_map comp_def)
  next
    case False
    note f = consecutive_keys(1)[OF assms(2) False]
    have "map end_key ?es = [end_key (hd es) .. end_key (last es)] @ [end_key (last es) + 1 .. m]"
      using assms False by (simp add: consecutive_def comp_def)
    also have "\<dots> = [end_key (hd es) .. m]"
      using assms False f by (subst (3) upto_split2[of _ "end_key (last es)"]) auto
    finally show ?thesis using False l by (simp add: consecutive_def)
  qed
qed

text \<open>What the buckets hold, with the end key of the bucket.\<close>

definition holds :: "'a wheel_entry list \<Rightarrow> 'a \<Rightarrow> int \<Rightarrow> bool" where
  "holds es x k \<longleftrightarrow> (\<exists>e \<in> set es. end_key e = k \<and> x \<in> set (elements e))"

lemma holds_simps [simp]:
  "\<not> holds [] x k"
  "holds (e # es) x k \<longleftrightarrow> end_key e = k \<and> x \<in> set (elements e) \<or> holds es x k"
  "holds (es @ es') x k \<longleftrightarrow> holds es x k \<or> holds es' x k"
  "\<not> holds (map (\<lambda>k. \<lparr>end_key = k, elements = []\<rparr>) ks) x k"
  by (auto simp: holds_def)

lemma holds_add_to:
  assumes "i < length es"
  shows "holds (add_to i obj es) x k \<longleftrightarrow> holds es x k \<or> x = obj \<and> k = end_key (es ! i)"
proof -
  have "es = take i es @ es ! i # drop (Suc i) es" using assms by (rule id_take_nth_drop)
  moreover have "add_to i obj es
      = take i es @ (es ! i)\<lparr>elements := set_add obj (elements (es ! i))\<rparr> # drop (Suc i) es"
    using assms by (simp add: add_to_def upd_conv_take_nth_drop)
  moreover have "holds (take i es @ (es ! i)\<lparr>elements := set_add obj (elements (es ! i))\<rparr> # drop (Suc i) es) x k
      \<longleftrightarrow> holds (take i es @ es ! i # drop (Suc i) es) x k \<or> x = obj \<and> k = end_key (es ! i)"
    by auto
  ultimately show ?thesis by metis
qed

text \<open>The bucket that an insertion goes to; the index the code computes is in range.\<close>

definition insert_key :: "int \<Rightarrow> int \<Rightarrow> 'a wheel_timer \<Rightarrow> int" where
  "insert_key now due t =
     max (if entries t = [] then trunc_div now (bucket_size t) + 1 else end_key (hd (entries t)))
         (trunc_div due (bucket_size t) + 1)"

lemma wheel_insert_entries:
  assumes c: "consecutive (entries t)"
  shows "\<exists>es i. entries (wheel_insert now obj due t) = add_to i obj es \<and> i < length es
    \<and> consecutive es \<and> end_key (es ! i) = insert_key now due t
    \<and> end_key (hd es) = (if entries t = [] then trunc_div now (bucket_size t) + 1 else end_key (hd (entries t)))
    \<and> (\<forall>x k. holds es x k = holds (entries t) x k)"
proof -
  let ?es = "entries t" and ?tk = "trunc_div due (bucket_size t) + 1"
  show ?thesis
  proof (cases "?es \<noteq> [] \<and> ?tk \<le> end_key (last ?es)")
    case True
    let ?i = "nat (max (end_key (hd ?es)) ?tk - end_key (hd ?es))"
    note k = consecutive_keys[OF c conjunct1[OF True]]
    have i: "?i < length ?es" using True k(1,2) by linarith
    with True c k(3)[OF i] show ?thesis
      by (intro exI[of _ ?es] exI[of _ ?i]) (simp add: wheel_insert_def insert_key_def Let_def)
  next
    case False
    let ?lk = "if ?es \<noteq> [] then end_key (last ?es) + 1 else trunc_div now (bucket_size t) + 1"
    let ?new = "?es @ map (\<lambda>k. \<lparr>end_key = k, elements = []\<rparr>) [?lk .. max ?lk ?tk]"
    have c': "consecutive ?new" by (rule consecutive_extend) (auto simp: c)
    have ne: "?new \<noteq> []" and l: "end_key (last ?new) = max ?lk ?tk"
      by (simp_all add: last_map upto_rec2)
    have "?es \<noteq> [] \<Longrightarrow> end_key (hd ?es) \<le> end_key (last ?es)" by (rule consecutive_keys(1)[OF c])
    then have "end_key (?new ! (length ?new - 1)) = insert_key now due t"
      using False l unfolding last_conv_nth[OF ne, symmetric] by (auto simp: insert_key_def)
    moreover have "end_key (hd ?new) = (if ?es = [] then trunc_div now (bucket_size t) + 1 else end_key (hd ?es))"
      by (simp add: hd_map upto_rec1)
    moreover have "entries (wheel_insert now obj due t) = add_to (length ?new - 1) obj ?new"
      unfolding wheel_insert_def Let_def if_not_P[OF False] by simp
    moreover have "\<forall>x k. holds ?new x k = holds ?es x k" by simp
    moreover have "length ?new - 1 < length ?new" using ne by (metis diff_less length_greater_0_conv zero_less_one)
    ultimately show ?thesis using c' by blast
  qed
qed

lemma wheel_insert_holds:
  assumes "consecutive (entries t)"
  shows "holds (entries (wheel_insert now obj due t)) x k
    \<longleftrightarrow> holds (entries t) x k \<or> x = obj \<and> k = insert_key now due t"
  using wheel_insert_entries[OF assms, of now obj due] by (auto simp: holds_add_to)

lemma wheel_insert_keeps:
  assumes "consecutive (entries t)"
  shows "consecutive (entries (wheel_insert now obj due t))"
    and "entries (wheel_insert now obj due t) \<noteq> []"
    and "end_key (hd (entries (wheel_insert now obj due t)))
      = (if entries t = [] then trunc_div now (bucket_size t) + 1 else end_key (hd (entries t)))"
    and "bucket_size (wheel_insert now obj due t) = bucket_size t"
proof -
  obtain es i where *: "entries (wheel_insert now obj due t) = add_to i obj es" "i < length es"
      "consecutive es"
      "end_key (hd es) = (if entries t = [] then trunc_div now (bucket_size t) + 1 else end_key (hd (entries t)))"
    using wheel_insert_entries[OF assms, of now obj due] by auto
  from *(2) have "es \<noteq> []" by auto
  with * show "consecutive (entries (wheel_insert now obj due t))"
    "entries (wheel_insert now obj due t) \<noteq> []"
    "end_key (hd (entries (wheel_insert now obj due t)))
      = (if entries t = [] then trunc_div now (bucket_size t) + 1 else end_key (hd (entries t)))"
    by auto
qed (simp add: wheel_insert_def Let_def)

lemma consecutive_later:
  assumes "consecutive (e # es)" and "holds es x j"
  shows "end_key e < j"
proof -
  obtain d where "d \<in> set es" and d: "end_key d = j" using assms(2) unfolding holds_def by blast
  then obtain i where "i < length es" "es ! i = d" by (auto simp: in_set_conv_nth)
  with consecutive_keys(3)[OF assms(1), of "Suc i"] d show ?thesis by simp
qed

lemma pop_due_result:
  "pop_due k es = (ret, rest) \<Longrightarrow> consecutive es \<Longrightarrow> x \<in> set ret \<longleftrightarrow> (\<exists>j \<le> k. holds es x j)"
proof (induction es arbitrary: ret)
  case (Cons e es)
  then show ?case using consecutive_tl[of e es] consecutive_later[of e es x]
    by (fastforce split: if_splits prod.splits)
qed simp

lemma pop_due_rest:
  "pop_due k es = (ret, rest) \<Longrightarrow> consecutive es \<Longrightarrow> holds rest x j \<longleftrightarrow> k < j \<and> holds es x j"
proof (induction es arbitrary: ret)
  case (Cons e es)
  then show ?case using consecutive_tl[of e es] consecutive_later[of e es x]
    by (fastforce split: if_splits prod.splits)
qed simp

lemma pop_due_consecutive: "pop_due k es = (ret, rest) \<Longrightarrow> consecutive es \<Longrightarrow> consecutive rest"
  by (induction es arbitrary: ret) (auto split: if_splits prod.splits dest: consecutive_tl)

lemma pop_due_hd:
  "pop_due k es = (ret, rest) \<Longrightarrow> consecutive es \<Longrightarrow> rest \<noteq> []
     \<Longrightarrow> end_key (hd rest) \<le> max (end_key (hd es)) (k + 1)"
proof (induction es arbitrary: ret)
  case (Cons e es)
  show ?case
  proof (cases "end_key e \<le> k")
    case True
    then obtain r where r: "pop_due k es = (r, rest)" using Cons.prems(1) by (auto split: prod.splits)
    have "es \<noteq> []" using r Cons.prems(3) by auto
    then have "end_key (hd es) = end_key e + 1" by (rule consecutive_hd_tl[OF Cons.prems(2)])
    then show ?thesis using Cons.IH[OF r consecutive_tl[OF Cons.prems(2)] Cons.prems(3)] True by simp
  qed (use Cons.prems in auto)
qed simp

section \<open>The invariant of a run\<close>

lemma run_time_simps [simp]: "run_time [] = 0" "run_time (evs @ [e]) = event_time e"
  by (simp_all add: run_time_def)

lemma append_snoc_cases:
  "evs @ [e] = xs @ a # ys \<longleftrightarrow> evs = xs \<and> e = a \<and> ys = [] \<or> (\<exists>zs. ys = zs @ [e] \<and> evs = xs @ a # zs)"
  by (cases ys rule: rev_cases) auto

lemma outstanding_last:
  "outstanding (evs @ [e]) n x due \<longleftrightarrow>
     e = Inserted n x due \<or> outstanding evs n x due \<and> (\<forall>now objs. e = Fetched now objs \<longrightarrow> x \<notin> set objs)"
  (is "?l \<longleftrightarrow> ?r")
proof
  assume ?l
  then obtain xs ys where eq: "evs @ [e] = xs @ Inserted n x due # ys"
    and ys: "\<forall>now objs. Fetched now objs \<in> set ys \<longrightarrow> x \<notin> set objs"
    unfolding outstanding_def by blast
  from eq consider "e = Inserted n x due" | zs where "ys = zs @ [e]" "evs = xs @ Inserted n x due # zs"
    unfolding append_snoc_cases by blast
  then show ?r
  proof cases
    case (2 zs)
    then have "outstanding evs n x due" unfolding outstanding_def
      using ys by (intro exI[of _ xs] exI[of _ zs]) simp
    with 2 ys show ?thesis by simp
  qed simp
next
  assume ?r
  then consider "e = Inserted n x due"
    | xs ys where "evs = xs @ Inserted n x due # ys"
        "\<forall>now objs. Fetched now objs \<in> set ys \<longrightarrow> x \<notin> set objs" "\<forall>now objs. e = Fetched now objs \<longrightarrow> x \<notin> set objs"
    unfolding outstanding_def by blast
  then show ?l
  proof cases
    case 1
    then show ?thesis unfolding outstanding_def by (intro exI[of _ evs] exI[of _ "[]"]) simp
  next
    case (2 xs ys)
    then show ?thesis unfolding outstanding_def by (intro exI[of _ xs] exI[of _ "ys @ [e]"]) auto
  qed
qed

lemma outstanding_snoc [simp]:
  "\<not> outstanding [] n x due"
  "outstanding (evs @ [Inserted n' x' due']) n x due
     \<longleftrightarrow> outstanding evs n x due \<or> n = n' \<and> x = x' \<and> due = due'"
  "outstanding (evs @ [Fetched now objs]) n x due \<longleftrightarrow> outstanding evs n x due \<and> x \<notin> set objs"
  unfolding outstanding_last by (auto simp: outstanding_def)

definition timer_inv :: "int \<Rightarrow> 'a timer_event list \<Rightarrow> 'a wheel_timer \<Rightarrow> bool" where
  "timer_inv b evs t \<longleftrightarrow> bucket_size t = b \<and> 0 \<le> run_time evs \<and> consecutive (entries t)
     \<and> (entries t \<noteq> [] \<longrightarrow> end_key (hd (entries t)) \<le> trunc_div (run_time evs) b + 1)
     \<and> (\<forall>x k. holds (entries t) x k \<longrightarrow> (\<exists>n due. Inserted n x due \<in> set evs \<and> trunc_div due b + 1 \<le> k))
     \<and> (\<forall>n x due. outstanding evs n x due \<longrightarrow>
          (\<exists>k \<le> max (trunc_div due b) (trunc_div n b) + 1. holds (entries t) x k))"

lemma timer_inv_insert:
  assumes "0 < b" and inv: "timer_inv b evs t" and now: "run_time evs \<le> now"
  shows "timer_inv b (evs @ [Inserted now obj due]) (wheel_insert now obj due t)"
proof -
  have c: "consecutive (entries t)" and b: "bucket_size t = b" using inv by (simp_all add: timer_inv_def)
  note keeps = wheel_insert_keeps[OF c, of now obj due]
  have hd: "end_key (hd (entries t)) \<le> trunc_div now b + 1" if "entries t \<noteq> []"
    using inv that trunc_div_mono[OF assms(1) now] by (fastforce simp: timer_inv_def)
  then have k: "trunc_div due b + 1 \<le> insert_key now due t"
      "insert_key now due t \<le> max (trunc_div due b) (trunc_div now b) + 1"
    by (auto simp: insert_key_def b)
  show ?thesis
    unfolding timer_inv_def wheel_insert_holds[OF c] outstanding_snoc
  proof (intro conjI allI impI)
    fix x k
    assume "holds (entries t) x k \<or> x = obj \<and> k = insert_key now due t"
    then show "\<exists>n due'. Inserted n x due' \<in> set (evs @ [Inserted now obj due]) \<and> trunc_div due' b + 1 \<le> k"
      using inv k(1) by (fastforce simp: timer_inv_def)
  next
    fix n x due'
    assume "outstanding evs n x due' \<or> n = now \<and> x = obj \<and> due' = due"
    then show "\<exists>k \<le> max (trunc_div due' b) (trunc_div n b) + 1.
        holds (entries t) x k \<or> x = obj \<and> k = insert_key now due t"
      using inv k(2) unfolding timer_inv_def by blast
  qed (use keeps hd inv now b in \<open>auto simp: timer_inv_def\<close>)
qed

lemma timer_inv_fetch:
  assumes "0 < b" and inv: "timer_inv b evs t" and now: "run_time evs \<le> now"
    and f: "wheel_fetch now t = (objs, t')"
  shows "timer_inv b (evs @ [Fetched now objs]) t'"
proof -
  have c: "consecutive (entries t)" and b: "bucket_size t = b" using inv by (simp_all add: timer_inv_def)
  obtain rest where p: "pop_due (trunc_div now b) (entries t) = (objs, rest)" and t': "t' = t\<lparr>entries := rest\<rparr>"
    using f by (auto simp: wheel_fetch_def b split: prod.splits)
  have mono: "trunc_div (run_time evs) b \<le> trunc_div now b" by (rule trunc_div_mono[OF assms(1) now])
  have hd: "end_key (hd rest) \<le> trunc_div now b + 1" if "rest \<noteq> []"
  proof -
    have "entries t \<noteq> []" using p that by auto
    then show ?thesis using pop_due_hd[OF p c that] inv mono by (fastforce simp: timer_inv_def)
  qed
  show ?thesis
    unfolding timer_inv_def outstanding_snoc t'
  proof (intro conjI allI impI)
    fix n x due
    assume o: "outstanding evs n x due \<and> x \<notin> set objs"
    then obtain k where k: "k \<le> max (trunc_div due b) (trunc_div n b) + 1" "holds (entries t) x k"
      using inv unfolding timer_inv_def by blast
    with o have "trunc_div now b < k" unfolding pop_due_result[OF p c, of x] by (meson not_le)
    with k show "\<exists>k \<le> max (trunc_div due b) (trunc_div n b) + 1. holds (entries (t\<lparr>entries := rest\<rparr>)) x k"
      using pop_due_rest[OF p c, of x k] by auto
  qed (use pop_due_rest[OF p c] pop_due_consecutive[OF p c] hd inv now b in \<open>auto simp: timer_inv_def\<close>)
qed

lemma timer_invariant: "wheel_run b evs t \<Longrightarrow> 0 < b \<Longrightarrow> timer_inv b evs t"
proof (induction rule: wheel_run.induct)
  case run_new
  then show ?case by (simp add: timer_inv_def wheel_new_def consecutive_def)
qed (auto intro: timer_inv_insert timer_inv_fetch)

lemma run_time_nonneg: "wheel_run b evs t \<Longrightarrow> 0 \<le> run_time evs"
  by (induction rule: wheel_run.induct) auto

lemma inserted_time_nonneg:
  "wheel_run b evs t \<Longrightarrow> Inserted n x due \<in> set evs \<Longrightarrow> 0 \<le> n \<and> n \<le> run_time evs"
  by (induction rule: wheel_run.induct) (auto dest: run_time_nonneg)

section \<open>Objects come back in time\<close>

text \<open>
  C25. In every run of the timer: an object that a call of \<open>fetch\<close> returns was inserted before, with
  a due time that is strictly in the past; and an object that was inserted has been returned, after
  its insertion, by the end of any \<open>fetch\<close> made one bucket or more after both its due time and the
  time of the insertion. So nothing fires early, nothing is lost and nothing is late by more than a
  bucket.
\<close>

theorem wheel_timer_exact:
  assumes run: "wheel_run b (evs @ [Fetched now objs]) t" and "0 < b"
  shows "(\<forall>x \<in> set objs. \<exists>n due. Inserted n x due \<in> set evs \<and> due < now) \<and>
    (\<forall>xs n x due ys. evs = xs @ Inserted n x due # ys \<longrightarrow> max n due + b \<le> now \<longrightarrow>
       (\<exists>now' objs'. Fetched now' objs' \<in> set (ys @ [Fetched now objs]) \<and> x \<in> set objs'))"
proof -
  from run obtain t0 where run0: "wheel_run b evs t0" and now: "run_time evs \<le> now"
      and f: "wheel_fetch now t0 = (objs, t)"
    by (cases rule: wheel_run.cases) auto
  have inv: "timer_inv b evs t0" by (rule timer_invariant[OF run0 \<open>0 < b\<close>])
  then have c: "consecutive (entries t0)" and b: "bucket_size t0 = b" by (simp_all add: timer_inv_def)
  obtain rest where p: "pop_due (trunc_div now b) (entries t0) = (objs, rest)"
    using f by (auto simp: wheel_fetch_def b split: prod.splits)
  note due = pop_due_result[OF p c]
  show ?thesis
  proof (intro conjI ballI allI impI)
    fix x assume "x \<in> set objs"
    then obtain k where "k \<le> trunc_div now b" "holds (entries t0) x k" unfolding due by blast
    then obtain n du where "Inserted n x du \<in> set evs" "trunc_div du b < trunc_div now b"
      using inv unfolding timer_inv_def by fastforce
    with trunc_div_less[OF \<open>0 < b\<close>] show "\<exists>n due. Inserted n x due \<in> set evs \<and> due < now" by blast
  next
    fix xs n x du ys
    assume e: "evs = xs @ Inserted n x du # ys" and late: "max n du + b \<le> now"
    show "\<exists>now' objs'. Fetched now' objs' \<in> set (ys @ [Fetched now objs]) \<and> x \<in> set objs'"
    proof (rule ccontr)
      assume no: "\<not> ?thesis"
      then have o: "outstanding evs n x du" unfolding outstanding_def using e
        by (intro exI[of _ xs] exI[of _ ys]) auto
      then obtain k where k: "k \<le> max (trunc_div du b) (trunc_div n b) + 1" "holds (entries t0) x k"
        using inv unfolding timer_inv_def by blast
      have "0 \<le> n" using run0 inserted_time_nonneg[OF run0, of n x du] e by simp
      then have "max (trunc_div du b) (trunc_div n b) \<le> trunc_div (max n du) b"
        using trunc_div_mono[OF \<open>0 < b\<close>] by (simp add: le_max_iff_disj)
      also have "trunc_div (max n du) b + 1 \<le> trunc_div now b"
        using trunc_div_mono[OF \<open>0 < b\<close> late] trunc_div_add[OF \<open>0 < b\<close>, of "max n du"] \<open>0 \<le> n\<close> by simp
      finally have "x \<in> set objs" using k unfolding due by (intro exI[of _ k]) linarith
      with no show False by auto
    qed
  qed
qed

theorem wheel_timer_exact_witness:
  "wheel_run 5000 ([Inserted 0 (1::nat) 7000] @ [Fetched 12000 [1]]) \<lparr>bucket_size = 5000, entries = []\<rparr> \<and>
   (\<exists>now' objs'. Fetched now' objs' \<in> set ([] @ [Fetched 12000 [1]]) \<and> (1::nat) \<in> set objs')"
proof -
  have "wheel_run 5000 ([] @ [Inserted 0 (1::nat) 7000]) (wheel_insert 0 1 7000 (wheel_new 5000))"
    by (intro run_insert run_new) simp
  then have run: "wheel_run 5000 ([Inserted 0 (1::nat) 7000] @ [Fetched 12000 [1]]) \<lparr>bucket_size = 5000, entries = []\<rparr>"
    by (intro run_fetch) (simp, simp add: run_time_def, code_simp)
  moreover have "max 0 7000 + 5000 \<le> (12000::int)" by simp
  ultimately show ?thesis
    using wheel_timer_exact[OF run, THEN conjunct2] by (metis append_Nil zero_less_numeral)
qed

end
