(* ===== verification/Effects.thy ===== *)
theory Effects
  imports Prelude
begin

text \<open>
  Methods of an object that change its fields and may raise an exception: a function from the state
  to a result and the new state. The changes made before an exception stay, as they do in Python,
  so an exception comes with a state too.
\<close>

type_synonym ('s, 'a) eff = "'s \<Rightarrow> 'a res \<times> 's"

definition eret :: "'a \<Rightarrow> ('s, 'a) eff" where
  "eret x = (\<lambda>s. (Inr x, s))"

definition elift :: "'a res \<Rightarrow> ('s, 'a) eff" where
  "elift r = (\<lambda>s. (r, s))"

definition ebind :: "('s, 'a) eff \<Rightarrow> ('a \<Rightarrow> ('s, 'b) eff) \<Rightarrow> ('s, 'b) eff" where
  "ebind m f = (\<lambda>s. case m s of (Inl e, t) \<Rightarrow> (Inl e, t) | (Inr x, t) \<Rightarrow> f x t)"

definition egets :: "('s \<Rightarrow> 'a) \<Rightarrow> ('s, 'a) eff" where
  "egets f = (\<lambda>s. (Inr (f s), s))"

definition emodify :: "('s \<Rightarrow> 's) \<Rightarrow> ('s, unit) eff" where
  "emodify f = (\<lambda>s. (Inr (), f s))"

text \<open>\<open>except\<close>: the handler runs in the state the exception left.\<close>

definition ecatch :: "('s, 'a) eff \<Rightarrow> (py_error \<Rightarrow> ('s, 'a) eff) \<Rightarrow> ('s, 'a) eff" where
  "ecatch m h = (\<lambda>s. case m s of (Inl e, t) \<Rightarrow> h e t | (Inr x, t) \<Rightarrow> (Inr x, t))"

text \<open>A method of an object that is a field of a larger object.\<close>

definition ezoom :: "('s \<Rightarrow> 't) \<Rightarrow> ('t \<Rightarrow> 's \<Rightarrow> 's) \<Rightarrow> ('t, 'a) eff \<Rightarrow> ('s, 'a) eff" where
  "ezoom get put m = (\<lambda>s. let (r, t) = m (get s) in (r, put t s))"

abbreviation eraise :: "py_error \<Rightarrow> ('s, 'a) eff" where
  "eraise e \<equiv> elift (Inl e)"

abbreviation eguard :: "bool \<Rightarrow> py_error \<Rightarrow> ('s, unit) eff" where
  "eguard b e \<equiv> elift (raise_if b e)"

named_theorems eff_simps
named_theorems eff_run

abbreviation yields :: "('s, 'a) eff \<Rightarrow> 's \<Rightarrow> 'a \<Rightarrow> 's \<Rightarrow> bool" where
  "yields m s x t \<equiv> m s = (Inr x, t)"

abbreviation fails :: "('s, 'a) eff \<Rightarrow> 's \<Rightarrow> py_error \<Rightarrow> 's \<Rightarrow> bool" where
  "fails m s e t \<equiv> m s = (Inl e, t)"

lemma yields_simps [eff_simps]:
  "yields (eret x) s y t \<longleftrightarrow> y = x \<and> t = s"
  "yields (elift r) s y t \<longleftrightarrow> r = Inr y \<and> t = s"
  "yields (egets f) s y t \<longleftrightarrow> y = f s \<and> t = s"
  "yields (emodify g) s u t \<longleftrightarrow> t = g s"
  by (auto simp: eret_def elift_def egets_def emodify_def)

lemma yields_ebind [eff_simps]:
  "yields (ebind m f) s y t \<longleftrightarrow> (\<exists>x u. yields m s x u \<and> yields (f x) u y t)"
  by (auto simp: ebind_def split: prod.splits sum.splits)

lemma yields_ecatch [eff_simps]:
  "yields (ecatch m h) s y t \<longleftrightarrow> yields m s y t \<or> (\<exists>e u. fails m s e u \<and> yields (h e) u y t)"
  by (auto simp: ecatch_def split: prod.splits sum.splits)

lemma yields_ezoom [eff_simps]:
  "yields (ezoom get put m) s y t \<longleftrightarrow> (\<exists>u. yields m (get s) y u \<and> t = put u s)"
  by (auto simp: ezoom_def split: prod.splits)

lemma fails_simps [eff_simps]:
  "\<not> fails (eret x) s e t"
  "fails (elift r) s e t \<longleftrightarrow> r = Inl e \<and> t = s"
  "\<not> fails (egets f) s e t"
  "\<not> fails (emodify g) s e t"
  by (auto simp: eret_def elift_def egets_def emodify_def)

lemma fails_ebind [eff_simps]:
  "fails (ebind m f) s e t \<longleftrightarrow> fails m s e t \<or> (\<exists>x u. yields m s x u \<and> fails (f x) u e t)"
  by (auto simp: ebind_def split: prod.splits sum.splits)

lemma fails_ecatch [eff_simps]:
  "fails (ecatch m h) s e t \<longleftrightarrow> (\<exists>e' u. fails m s e' u \<and> fails (h e') u e t)"
  by (auto simp: ecatch_def split: prod.splits sum.splits)

lemma fails_ezoom [eff_simps]:
  "fails (ezoom get put m) s e t \<longleftrightarrow> (\<exists>u. fails m (get s) e u \<and> t = put u s)"
  by (auto simp: ezoom_def split: prod.splits)

lemma ebind_apply:
  "yields m s x u \<Longrightarrow> ebind m f s = f x u"
  "fails m s e u \<Longrightarrow> ebind m f s = (Inl e, u)"
  by (simp_all add: ebind_def)

lemma ebind_assoc: "ebind (ebind m f) g = ebind m (\<lambda>x. ebind (f x) g)"
  by (rule ext) (simp add: ebind_def split: prod.split sum.split)

lemma ebind_run [eff_run]:
  "ebind (eret x) f s = f x s"
  "ebind (elift (Inr x)) f s = f x s"
  "ebind (elift (Inl e)) f s = (Inl e, s)"
  "ebind (egets g) f s = f (g s) s"
  "ebind (emodify h) g' s = g' () (h s)"
  by (simp_all add: ebind_def eret_def elift_def egets_def emodify_def)

lemma eff_apply:
  "eret x s = (Inr x, s)" "elift r s = (r, s)" "egets f s = (Inr (f s), s)" "emodify g s' = (Inr (), g s')"
  by (simp_all add: eret_def elift_def egets_def emodify_def)

text \<open>
  A relation between the states before and after that holds of every step holds of a sequence of
  steps, whether or not it ends in an exception.
\<close>

definition evolves :: "('s \<Rightarrow> 's \<Rightarrow> bool) \<Rightarrow> ('s, 'a) eff \<Rightarrow> bool" where
  "evolves R m \<longleftrightarrow> (\<forall>s. R s (snd (m s)))"

named_theorems evolves_intros

lemma evolvesD: "evolves R m \<Longrightarrow> m s = (r, t) \<Longrightarrow> R s t"
  by (metis evolves_def snd_conv)

lemma evolves_if [evolves_intros]:
  "(b \<Longrightarrow> evolves R m) \<Longrightarrow> (\<not> b \<Longrightarrow> evolves R m') \<Longrightarrow> evolves R (if b then m else m')"
  by simp

lemma evolves_case_option [evolves_intros]:
  "(v = None \<Longrightarrow> evolves R m) \<Longrightarrow> (\<And>x. v = Some x \<Longrightarrow> evolves R (f x)) \<Longrightarrow>
     evolves R (case v of None \<Rightarrow> m | Some x \<Rightarrow> f x)"
  by (cases v) auto

lemma evolves_case_prod [evolves_intros]:
  "(\<And>a b. p = (a, b) \<Longrightarrow> evolves R (f a b)) \<Longrightarrow> evolves R (case p of (a, b) \<Rightarrow> f a b)"
  by (cases p) auto

locale evolution =
  fixes R :: "'s \<Rightarrow> 's \<Rightarrow> bool"
  assumes evolution_refl: "R s s" and evolution_trans: "R s t \<Longrightarrow> R t u \<Longrightarrow> R s u"
begin

lemma evolves_basic [evolves_intros]:
  "evolves R (eret x)" "evolves R (elift r)" "evolves R (egets f)"
  by (simp_all add: evolves_def eret_def elift_def egets_def evolution_refl)

lemma evolves_emodify [evolves_intros]: "(\<And>s. R s (g s)) \<Longrightarrow> evolves R (emodify g)"
  by (simp add: evolves_def emodify_def)

lemma evolves_ebind [evolves_intros]:
  assumes "evolves R m" and "\<And>x. evolves R (f x)"
  shows "evolves R (ebind m f)"
  unfolding evolves_def
proof
  fix s
  obtain r t where m: "m s = (r, t)" by (cases "m s")
  then have "R s t" using assms(1) by (auto simp: evolves_def dest: spec[of _ s])
  moreover have "R t (snd (f x t))" for x using assms(2) by (simp add: evolves_def)
  ultimately show "R s (snd (ebind m f s))"
    using m by (cases r) (auto simp: ebind_def intro: evolution_trans)
qed

lemma evolves_elift_bind:
  "(\<And>x. r = Inr x \<Longrightarrow> evolves R (f x)) \<Longrightarrow> evolves R (ebind (elift r) f)"
  by (cases r) (simp_all add: evolves_def eff_run evolution_refl)

lemma evolves_ecatch [evolves_intros]:
  assumes "evolves R m" and "\<And>e. evolves R (h e)"
  shows "evolves R (ecatch m h)"
  unfolding evolves_def
proof
  fix s
  obtain r t where m: "m s = (r, t)" by (cases "m s")
  then have "R s t" using assms(1) by (auto simp: evolves_def dest: spec[of _ s])
  moreover have "R t (snd (h e t))" for e using assms(2) by (simp add: evolves_def)
  ultimately show "R s (snd (ecatch m h s))"
    using m by (cases r) (auto simp: ecatch_def intro: evolution_trans)
qed

end

end
