(* ===== verification/Ratelimiter.thy ===== *)
theory Ratelimiter
  imports Effects Wheel_Timer
begin

text \<open>
  The rate limiters of \<open>api/ratelimiting.py\<close>. Each key has a bucket that leaks at a fixed rate;
  the code keeps for it the number of actions, the time it was last empty and the rate. The floats of
  the code are rational numbers here, so the arithmetic is exact. The keys are the strings and
  tuples of strings the callers use. The table of per-user overrides and the module callbacks are
  arguments: \<open>get_ratelimit_for_user\<close> and \<open>module_override\<close>, whose value is \<open>None\<close> for a limiter
  made without callbacks and for a user that no callback answers for.
\<close>

section \<open>Requesters\<close>

datatype limit_key = StrKey string | TupleKey "string list"

record ApplicationService =
  as_rate_limited :: bool

record Requester =
  req_user :: string
  req_access_token_id :: "int option"
  req_is_guest :: bool
  req_scope :: "string list"
  req_shadow_banned :: bool
  req_device_id :: "string option"
  req_app_service :: "ApplicationService option"
  req_authenticated_entity :: string

record RatelimitOverride =
  messages_per_second :: rat
  override_burst_count :: int

record limiter_env =
  get_ratelimit_for_user :: "string \<Rightarrow> RatelimitOverride option"
  module_override :: "string \<Rightarrow> RatelimitOverride option"

section \<open>The limiter\<close>

record Ratelimiter =
  rate_hz :: rat
  burst_count :: int
  actions :: "(limit_key, int \<times> rat \<times> rat) dict"
  prune_timer :: "limit_key wheel_timer"

definition ratelimiter_new :: "rat \<Rightarrow> int \<Rightarrow> Ratelimiter" where
  "ratelimiter_new per_second burst =
     \<lparr>rate_hz = per_second, burst_count = burst, actions = [], prune_timer = wheel_new 5000\<rparr>"

text \<open>\<open>int(x)\<close> of a float.\<close>

definition trunc :: "rat \<Rightarrow> int" where
  "trunc x = (if x < 0 then \<lceil>x\<rceil> else \<lfloor>x\<rfloor>)"

definition get_key :: "Requester option \<Rightarrow> limit_key option \<Rightarrow> limit_key res" where
  "get_key requester key = (case key of
       Some k \<Rightarrow> Inr k
     | None \<Rightarrow> (case requester of
         None \<Rightarrow> Inl ValueError
       | Some r \<Rightarrow> Inr (StrKey (req_user r))))"

definition get_action_counts :: "limit_key \<Rightarrow> rat \<Rightarrow> Ratelimiter \<Rightarrow> int \<times> rat \<times> rat" where
  "get_action_counts key now l = dget_or (actions l) key (0, now, rate_hz l)"

definition record_action_inner ::
    "limit_key \<Rightarrow> int \<Rightarrow> rat \<Rightarrow> rat \<Rightarrow> rat \<Rightarrow> (Ratelimiter, unit) eff" where
  "record_action_inner key action_count time_start rate now =
     (if rate = 0 then eraise ZeroDivisionError
      else (let prune_time = time_start + of_int action_count / rate in
        if prune_time \<le> now then emodify (\<lambda>l. l\<lparr>actions := dpop key (actions l)\<rparr>)
        else emodify (\<lambda>l. l\<lparr>actions := dset key (action_count, time_start, rate) (actions l),
               prune_timer := wheel_insert (trunc (now * 1000)) key (trunc ((prune_time + 1 / 10) * 1000))
                                (prune_timer l)\<rparr>)))"

text \<open>The part of \<open>can_do_action\<close> after the overrides are known.\<close>

definition check_bucket ::
    "limit_key \<Rightarrow> rat \<Rightarrow> int \<Rightarrow> bool \<Rightarrow> int \<Rightarrow> rat \<Rightarrow> (Ratelimiter, bool \<times> rat) eff" where
  "check_bucket key rate burst update n_actions now =
     ebind (egets (get_action_counts key now)) (\<lambda>(count0, start0, _).
       let performed0 = of_int count0 - (now - start0) * rate;
           (performed, count, start) = (if performed0 < 0 then (0, 0, now) else (performed0, count0, start0));
           allowed = (\<not> performed > of_int (burst - n_actions));
           count' = (if allowed then count + n_actions else count) in
       ebind (if allowed \<and> update then record_action_inner key count' start rate now else eret ()) (\<lambda>_.
         let time_allowed = (if rate > 0
               then max now (start + of_int (count' - burst + 1) / rate) else - 1) in
         eret (allowed, time_allowed)))"

definition can_do_action ::
    "limiter_env \<Rightarrow> Requester option \<Rightarrow> limit_key option \<Rightarrow> rat option \<Rightarrow> int option \<Rightarrow> bool \<Rightarrow> int
     \<Rightarrow> rat \<Rightarrow> (Ratelimiter, bool \<times> rat) eff" where
  "can_do_action env requester key0 rate0 burst0 update n_actions now =
     ebind (elift (get_key requester key0)) (\<lambda>key.
       let exempt = (case requester of
             None \<Rightarrow> False
           | Some r \<Rightarrow>
               (case req_app_service r of Some a \<Rightarrow> \<not> as_rate_limited a | None \<Rightarrow> False)
               \<or> (case get_ratelimit_for_user env (req_authenticated_entity r) of
                    Some override \<Rightarrow> messages_per_second override = 0
                  | None \<Rightarrow> False));
           module = (case requester of None \<Rightarrow> None | Some r \<Rightarrow> module_override env (req_user r)) in
       if exempt then eret (True, - 1)
       else ebind (egets (\<lambda>l. l)) (\<lambda>l.
         let rate = (case module of Some m \<Rightarrow> messages_per_second m
                     | None \<Rightarrow> (case rate0 of Some x \<Rightarrow> x | None \<Rightarrow> rate_hz l));
             burst = (case module of Some m \<Rightarrow> override_burst_count m
                     | None \<Rightarrow> (case burst0 of Some x \<Rightarrow> x | None \<Rightarrow> burst_count l)) in
         check_bucket key rate burst update n_actions now))"

definition record_action ::
    "Requester option \<Rightarrow> limit_key option \<Rightarrow> int \<Rightarrow> rat \<Rightarrow> (Ratelimiter, unit) eff" where
  "record_action requester key0 n_actions now =
     ebind (elift (get_key requester key0)) (\<lambda>key.
     ebind (egets (get_action_counts key now)) (\<lambda>(action_count, time_start, rate).
       record_action_inner key (action_count + n_actions) time_start rate now))"

definition prune_key :: "rat \<Rightarrow> limit_key \<Rightarrow> (limit_key, int \<times> rat \<times> rat) dict \<Rightarrow>
    (limit_key, int \<times> rat \<times> rat) dict" where
  "prune_key now key acts = (case dget acts key of
       None \<Rightarrow> acts
     | Some (action_count, time_start, rate) \<Rightarrow>
         if of_int action_count - (now - time_start) * rate > 0 then acts else dpop key acts)"

definition prune_message_counts :: "rat \<Rightarrow> Ratelimiter \<Rightarrow> Ratelimiter" where
  "prune_message_counts now l =
     (let (to_prune, timer) = wheel_fetch (trunc (now * 1000)) (prune_timer l)
      in l\<lparr>actions := fold (prune_key now) to_prune (actions l), prune_timer := timer\<rparr>)"

definition ratelimit ::
    "limiter_env \<Rightarrow> Requester option \<Rightarrow> limit_key option \<Rightarrow> rat option \<Rightarrow> int option \<Rightarrow> bool \<Rightarrow> int
     \<Rightarrow> rat \<Rightarrow> (Ratelimiter, unit) eff" where
  "ratelimit env requester key rate burst update n_actions now =
     ebind (can_do_action env requester key rate burst update n_actions now) (\<lambda>(allowed, time_allowed).
       eguard (\<not> allowed) (LimitExceededError (trunc (1000 * (time_allowed - now)))))"

section \<open>The limiter of requests\<close>

record RequestRatelimiter =
  request_ratelimiter :: Ratelimiter
  rc_message_per_second :: rat
  rc_message_burst_count :: int
  admin_redaction_ratelimiter :: "Ratelimiter option"

definition request_ratelimiter_new ::
    "rat \<Rightarrow> int \<Rightarrow> (rat \<times> int) option \<Rightarrow> RequestRatelimiter" where
  "request_ratelimiter_new per_second burst rc_admin_redaction =
     \<lparr>request_ratelimiter = ratelimiter_new 0 0, rc_message_per_second = per_second,
      rc_message_burst_count = burst,
      admin_redaction_ratelimiter = map_option (\<lambda>(r, b). ratelimiter_new r b) rc_admin_redaction\<rparr>"

text \<open>\<open>is_app_service_user\<close> is whether the store knows an application service for the user.\<close>

definition request_ratelimit ::
    "(string \<Rightarrow> bool) \<Rightarrow> limiter_env \<Rightarrow> Requester \<Rightarrow> bool \<Rightarrow> bool \<Rightarrow> int \<Rightarrow> rat
     \<Rightarrow> (RequestRatelimiter, unit) eff" where
  "request_ratelimit is_app_service_user env requester update is_admin_redaction n_actions now =
     (if is_app_service_user (req_user requester) then eret ()
      else
        let override = get_ratelimit_for_user env (req_user requester) in
        if (case override of Some ov \<Rightarrow> messages_per_second ov = 0 | None \<Rightarrow> False) then eret ()
        else ebind (egets (\<lambda>s. s)) (\<lambda>s.
          let per_second = (case override of Some ov \<Rightarrow> messages_per_second ov
                            | None \<Rightarrow> rc_message_per_second s);
              burst = (case override of Some ov \<Rightarrow> override_burst_count ov
                       | None \<Rightarrow> rc_message_burst_count s) in
          case (if is_admin_redaction then admin_redaction_ratelimiter s else None) of
            Some l \<Rightarrow> ezoom (\<lambda>_. l) (\<lambda>l' s. s\<lparr>admin_redaction_ratelimiter := Some l'\<rparr>)
              (ratelimit env (Some requester) None None None update n_actions now)
          | None \<Rightarrow> ezoom request_ratelimiter (\<lambda>l' s. s\<lparr>request_ratelimiter := l'\<rparr>)
              (ratelimit env (Some requester) None (Some per_second) (Some burst) update n_actions now)))"

end
