(* ===== verification/Ratelimiter_Props.thy ===== *)
theory Ratelimiter_Props
  imports Ratelimiter
begin

text \<open>
  What the limiter promises. The interface \<open>leaky_meter\<close> states the laws of a bucket that leaks, as
  the documentation of the class describes it; the bound on what a client can do in a period of time
  is proved from the laws, and the limiter is shown to obey them.
\<close>

section \<open>A bucket that leaks\<close>

record 'k metered =
  at_time :: rat
  for_key :: 'k
  amount :: int
  granted :: bool

text \<open>
  The calls made to a limiter that starts in the state \<open>s\<close>, in order of time: \<open>call now k n a\<close> asks
  for \<open>n\<close> actions and is answered \<open>a\<close>, \<open>idle\<close> is any other call.
\<close>

inductive meter_run ::
    "(rat \<Rightarrow> 'k \<Rightarrow> int \<Rightarrow> bool \<Rightarrow> 's \<Rightarrow> 's \<Rightarrow> bool) \<Rightarrow> (rat \<Rightarrow> 's \<Rightarrow> 's \<Rightarrow> bool) \<Rightarrow> 's
     \<Rightarrow> 'k metered list \<Rightarrow> rat \<Rightarrow> 's \<Rightarrow> bool" for call idle s where
  meter_start: "meter_run call idle s [] now s"
| meter_call: "meter_run call idle s evs t u \<Longrightarrow> t \<le> now \<Longrightarrow> 0 \<le> n \<Longrightarrow> call now k n a u u'
    \<Longrightarrow> meter_run call idle s (evs @ [\<lparr>at_time = now, for_key = k, amount = n, granted = a\<rparr>]) now u'"
| meter_idle: "meter_run call idle s evs t u \<Longrightarrow> t \<le> now \<Longrightarrow> idle now u u'
    \<Longrightarrow> meter_run call idle s evs now u'"
| meter_wait: "meter_run call idle s evs t u \<Longrightarrow> t \<le> now \<Longrightarrow> meter_run call idle s evs now u"

definition total_granted :: "'k \<Rightarrow> 'k metered list \<Rightarrow> int" where
  "total_granted k evs = sum_list (map amount (filter (\<lambda>e. granted e \<and> for_key e = k) evs))"

lemma total_granted_simps [simp]:
  "total_granted k [] = 0"
  "total_granted k [e] = (if granted e \<and> for_key e = k then amount e else 0)"
  "total_granted k (evs @ [e]) = total_granted k evs + (if granted e \<and> for_key e = k then amount e else 0)"
  by (simp_all add: total_granted_def)

text \<open>The events of a period.\<close>

definition in_period :: "rat \<Rightarrow> rat \<Rightarrow> 'k metered list \<Rightarrow> 'k metered list" where
  "in_period t1 t2 evs = filter (\<lambda>e. t1 \<le> at_time e \<and> at_time e \<le> t2) evs"

lemma in_periodD: "e \<in> set (in_period t1 t2 evs) \<Longrightarrow> t1 \<le> at_time e \<and> at_time e \<le> t2"
  by (simp add: in_period_def)

lemma in_period_after: "(\<And>e. e \<in> set evs \<Longrightarrow> t2 < at_time e) \<Longrightarrow> in_period t1 t2 evs = []"
  by (fastforce simp: in_period_def filter_empty_conv)

lemma in_period_prefix:
  "sorted (map at_time evs) \<Longrightarrow> (\<And>e. e \<in> set evs \<Longrightarrow> t1 \<le> at_time e) \<Longrightarrow>
     in_period t1 t2 evs = takeWhile (\<lambda>e. at_time e \<le> t2) evs"
proof (induction evs)
  case (Cons a evs)
  show ?case
  proof (cases "at_time a \<le> t2")
    case True
    with Cons show ?thesis by (simp add: in_period_def)
  next
    case False
    then have "in_period t1 t2 (a # evs) = []" using Cons.prems by (intro in_period_after) auto
    with False show ?thesis by simp
  qed
qed (simp add: in_period_def)

lemma in_period_split:
  "sorted (map at_time evs) \<Longrightarrow> \<exists>xs zs. evs = xs @ in_period t1 t2 evs @ zs"
proof (induction evs)
  case (Cons e evs)
  show ?case
  proof (cases "t1 \<le> at_time e")
    case True
    then have "in_period t1 t2 (e # evs) = takeWhile (\<lambda>e. at_time e \<le> t2) (e # evs)"
      using Cons.prems by (intro in_period_prefix) auto
    then show ?thesis by (metis append_Nil takeWhile_dropWhile_id)
  next
    case False
    from Cons obtain xs zs where "evs = xs @ in_period t1 t2 evs @ zs" by auto
    with False show ?thesis by (intro exI[of _ "e # xs"] exI[of _ zs]) (simp add: in_period_def)
  qed
qed (simp add: in_period_def)

locale leaky_meter =
  fixes level :: "'s \<Rightarrow> 'k \<Rightarrow> rat \<Rightarrow> rat" and rate :: rat and burst :: int and valid :: "'s \<Rightarrow> bool"
    and call :: "rat \<Rightarrow> 'k \<Rightarrow> int \<Rightarrow> bool \<Rightarrow> 's \<Rightarrow> 's \<Rightarrow> bool" and idle :: "rat \<Rightarrow> 's \<Rightarrow> 's \<Rightarrow> bool"
  assumes rate_nonneg: "valid s \<Longrightarrow> 0 \<le> rate"
    and level_nonneg: "0 \<le> level s k t"
    and level_leaks: "valid s \<Longrightarrow> t \<le> t' \<Longrightarrow> level s k t \<le> level s k t' + rate * (t' - t)"
    and call_has_room: "valid s \<Longrightarrow> 0 \<le> n \<Longrightarrow> call now k n True s s' \<Longrightarrow>
      level s k now + of_int n \<le> of_int burst"
    and call_fills: "valid s \<Longrightarrow> 0 \<le> n \<Longrightarrow> call now k n a s s' \<Longrightarrow>
      level s' j now = level s j now + (if a \<and> j = k then of_int n else 0)"
    and idle_keeps: "valid s \<Longrightarrow> idle now s s' \<Longrightarrow> level s j now \<le> level s' j now"
    and call_valid: "valid s \<Longrightarrow> 0 \<le> n \<Longrightarrow> call now k n a s s' \<Longrightarrow> valid s'"
    and idle_valid: "valid s \<Longrightarrow> idle now s s' \<Longrightarrow> valid s'"
begin

lemma run_valid: "meter_run call idle s evs now u \<Longrightarrow> valid s \<Longrightarrow> valid u"
  by (induction rule: meter_run.induct) (auto intro: call_valid idle_valid)

lemma run_ordered: "meter_run call idle s evs now u \<Longrightarrow> e \<in> set evs \<Longrightarrow> at_time e \<le> now"
  by (induction rule: meter_run.induct) auto

text \<open>What was granted since an event has leaked or is still in the bucket.\<close>

lemma granted_since:
  "meter_run call idle s evs now u \<Longrightarrow> valid s \<Longrightarrow> evs = xs @ ys \<Longrightarrow> ys \<noteq> [] \<Longrightarrow>
     of_int (total_granted k ys) \<le> level u k now + rate * (now - at_time (hd ys))"
proof (induction arbitrary: xs ys rule: meter_run.induct)
  case (meter_call evs t u now n k' a u')
  let ?e = "\<lparr>at_time = now, for_key = k', amount = n, granted = a\<rparr>"
  have v: "valid u" using meter_call.hyps(1) meter_call.prems(1) by (rule run_valid)
  note fills = call_fills[OF v meter_call.hyps(3,4), of k]
  obtain zs where ys: "ys = zs @ [?e]" and evs: "evs = xs @ zs"
    using meter_call.prems by (cases ys rule: rev_cases) auto
  show ?case
  proof (cases "zs = []")
    case True
    then show ?thesis using fills level_nonneg[of u k now] by (auto simp: ys)
  next
    case False
    then have "of_int (total_granted k zs) \<le> level u k t + rate * (t - at_time (hd zs))"
      by (rule meter_call.IH[OF meter_call.prems(1) evs])
    also have "\<dots> \<le> level u k now + rate * (now - t) + rate * (t - at_time (hd zs))"
      using level_leaks[OF v meter_call.hyps(2)] by simp
    finally show ?thesis using False fills by (auto simp: ys algebra_simps)
  qed
next
  case (meter_idle evs t u now u')
  have v: "valid u" using meter_idle.hyps(1) meter_idle.prems(1) by (rule run_valid)
  have "of_int (total_granted k ys) \<le> level u k t + rate * (t - at_time (hd ys))"
    by (rule meter_idle.IH[OF meter_idle.prems])
  also have "level u k t \<le> level u' k now + rate * (now - t)"
    using level_leaks[OF v meter_idle.hyps(2), of k] idle_keeps[OF v meter_idle.hyps(3), of k] by simp
  finally show ?case by (simp add: algebra_simps)
next
  case (meter_wait evs t u now)
  have v: "valid u" using meter_wait.hyps(1) meter_wait.prems(1) by (rule run_valid)
  have "of_int (total_granted k ys) \<le> level u k t + rate * (t - at_time (hd ys))"
    by (rule meter_wait.IH[OF meter_wait.prems])
  also have "level u k t \<le> level u k now + rate * (now - t)" by (rule level_leaks[OF v meter_wait.hyps(2)])
  finally show ?case by (simp add: algebra_simps)
qed simp

text \<open>The bound: in no period can more be granted than the burst and what leaks in the period.\<close>

lemma granted_bound:
  "meter_run call idle s evs now u \<Longrightarrow> valid s \<Longrightarrow> 0 \<le> burst \<Longrightarrow> evs = xs @ ys @ zs \<Longrightarrow> ys \<noteq> [] \<Longrightarrow>
     of_int (total_granted k ys) \<le> of_int burst + rate * (at_time (last ys) - at_time (hd ys))"
proof (induction arbitrary: xs ys zs rule: meter_run.induct)
  case (meter_call evs t u now n k' a u')
  let ?e = "\<lparr>at_time = now, for_key = k', amount = n, granted = a\<rparr>"
  have v: "valid u" using meter_call.hyps(1) meter_call.prems(1) by (rule run_valid)
  show ?case
  proof (cases zs rule: rev_cases)
    case (snoc zs' z)
    then show ?thesis using meter_call.IH meter_call.prems by auto
  next
    case Nil
    then obtain ws where ys: "ys = ws @ [?e]" and evs: "evs = xs @ ws"
      using meter_call.prems by (cases ys rule: rev_cases) auto
    have run: "meter_run call idle s (evs @ [?e]) now u'"
      using meter_call.hyps by (rule meter_run.meter_call)
    have first: "at_time (hd ys) \<le> now"
      using run_ordered[OF run, of "hd ys"] ys evs by (cases ws) auto
    show ?thesis
    proof (cases "a \<and> k' = k")
      case True
      have "of_int (total_granted k ys) \<le> level u' k now + rate * (now - at_time (hd ys))"
        by (rule granted_since[OF run meter_call.prems(1)]) (auto simp: ys evs)
      also have "level u' k now \<le> of_int burst"
        using call_fills[OF v meter_call.hyps(3,4), of k] call_has_room[OF v meter_call.hyps(3)]
          meter_call.hyps(4) True by auto
      finally show ?thesis by (simp add: ys)
    next
      case False
      show ?thesis
      proof (cases "ws = []")
        case True
        then show ?thesis using False meter_call.prems(2) by (auto simp: ys)
      next
        case ne: False
        have "of_int (total_granted k ws) \<le> of_int burst + rate * (at_time (last ws) - at_time (hd ws))"
          by (rule meter_call.IH[OF meter_call.prems(1,2), of xs ws "[]"]) (simp_all add: evs ne)
        also have "\<dots> \<le> of_int burst + rate * (now - at_time (hd ws))"
          using rate_nonneg[OF v] run_ordered[OF run, of "last ws"] evs ne by (simp add: mult_left_mono)
        finally show ?thesis using False ne by (auto simp: ys)
      qed
    qed
  qed
next
  case meter_idle
  then show ?case by blast
next
  case meter_wait
  then show ?case by blast
qed simp

text \<open>In terms of time: the events of a period are a stretch of the run.\<close>

lemma run_sorted: "meter_run call idle s evs now u \<Longrightarrow> sorted (map at_time evs)"
  by (induction rule: meter_run.induct) (auto simp: sorted_append dest: run_ordered)

lemma granted_in_period:
  assumes run: "meter_run call idle s evs now u" and "valid s" and "0 \<le> burst" and "t1 \<le> t2"
  shows "of_int (total_granted k (in_period t1 t2 evs)) \<le> of_int burst + rate * (t2 - t1)"
proof -
  let ?ys = "in_period t1 t2 evs"
  obtain xs zs where split: "evs = xs @ ?ys @ zs" using in_period_split[OF run_sorted[OF run]] by blast
  have r: "0 \<le> rate" by (rule rate_nonneg[OF \<open>valid s\<close>])
  show ?thesis
  proof (cases "?ys = []")
    case True
    then show ?thesis using r assms(3,4) by simp
  next
    case False
    have "of_int (total_granted k ?ys) \<le> of_int burst + rate * (at_time (last ?ys) - at_time (hd ?ys))"
      by (rule granted_bound[OF run \<open>valid s\<close> assms(3) split False])
    also have "at_time (last ?ys) - at_time (hd ?ys) \<le> t2 - t1"
      using in_periodD[OF last_in_set[OF False]] in_periodD[OF hd_in_set[OF False]] by linarith
    finally show ?thesis using r by (simp add: mult_left_mono)
  qed
qed

end

section \<open>The limiter is a leaky meter\<close>

definition level :: "Ratelimiter \<Rightarrow> limit_key \<Rightarrow> rat \<Rightarrow> rat" where
  "level l k now = (case dget (actions l) k of
       None \<Rightarrow> 0
     | Some (count, start, rate) \<Rightarrow> max 0 (of_int count - (now - start) * rate))"

text \<open>No call has overridden the rate and the burst of the limiter.\<close>

definition uniform :: "rat \<Rightarrow> int \<Rightarrow> Ratelimiter \<Rightarrow> bool" where
  "uniform rate burst l \<longleftrightarrow> rate_hz l = rate \<and> burst_count l = burst \<and> wf_dict (actions l) \<and>
     (\<forall>k count start r. dget (actions l) k = Some (count, start, r) \<longrightarrow> r = rate)"

definition subject_to_limit :: "limiter_env \<Rightarrow> Requester option \<Rightarrow> bool" where
  "subject_to_limit env requester = (case requester of
       None \<Rightarrow> True
     | Some r \<Rightarrow> (case req_app_service r of Some a \<Rightarrow> as_rate_limited a | None \<Rightarrow> True)
         \<and> (case get_ratelimit_for_user env (req_authenticated_entity r) of
              Some ov \<Rightarrow> messages_per_second ov \<noteq> 0 | None \<Rightarrow> True)
         \<and> module_override env (req_user r) = None)"

definition limiter_call ::
    "limiter_env \<Rightarrow> rat \<Rightarrow> limit_key \<Rightarrow> int \<Rightarrow> bool \<Rightarrow> Ratelimiter \<Rightarrow> Ratelimiter \<Rightarrow> bool" where
  "limiter_call env now k n a l l' \<longleftrightarrow> (\<exists>requester next. subject_to_limit env requester \<and>
     yields (can_do_action env requester (Some k) None None True n now) l (a, next) l')"

text \<open>
  The other calls: the periodic pruning, actions recorded without asking, and questions asked
  without recording.
\<close>

inductive limiter_idle :: "limiter_env \<Rightarrow> rat \<Rightarrow> Ratelimiter \<Rightarrow> Ratelimiter \<Rightarrow> bool" for env now l where
  idle_prune: "limiter_idle env now l (prune_message_counts now l)"
| idle_record: "0 \<le> n \<Longrightarrow> yields (record_action requester key n now) l u l' \<Longrightarrow> limiter_idle env now l l'"
| idle_ask: "subject_to_limit env requester \<Longrightarrow>
    yields (can_do_action env requester key None None False n now) l r l' \<Longrightarrow> limiter_idle env now l l'"

lemma can_do_action_subject:
  assumes "subject_to_limit env requester"
  shows "yields (can_do_action env requester key None None update n now) l r l' \<longleftrightarrow>
    (\<exists>k. get_key requester key = Inr k \<and>
       yields (check_bucket k (rate_hz l) (burst_count l) update n now) l r l')"
  using assms
  by (auto simp: can_do_action_def subject_to_limit_def eff_simps Let_def split: option.splits)

lemma record_inner_yields:
  "yields (record_action_inner k c s r now) l u l' \<longleftrightarrow> r \<noteq> 0 \<and>
     (if s + of_int c / r \<le> now then l' = l\<lparr>actions := dpop k (actions l)\<rparr>
      else \<exists>tm. l' = l\<lparr>actions := dset k (c, s, r) (actions l), prune_timer := tm\<rparr> \<and>
        tm = wheel_insert (trunc (now * 1000)) k (trunc ((s + of_int c / r + 1 / 10) * 1000)) (prune_timer l))"
  by (auto simp: record_action_inner_def eff_simps Let_def)

lemma drained_iff: "0 < r \<Longrightarrow> s + of_int c / r \<le> now \<longleftrightarrow> of_int c - (now - s) * r \<le> (0 :: rat)"
  by (simp add: field_simps)

lemma record_inner_level:
  assumes "yields (record_action_inner k c s r now) l u l'" and "0 < r"
  shows "level l' j now = (if j = k then max 0 (of_int c - (now - s) * r) else level l j now)"
  using assms by (auto simp: record_inner_yields drained_iff level_def split: if_splits)

lemma record_inner_uniform:
  assumes "yields (record_action_inner k c s rate now) l u l'" and "uniform rate burst l"
  shows "uniform rate burst l'"
  using assms by (auto simp: record_inner_yields uniform_def split: if_splits)

text \<open>The bucket of a key: what \<open>get_action_counts\<close> answers, in terms of the level.\<close>

lemma get_action_counts_uniform:
  assumes "uniform rate burst l" and "get_action_counts k now l = (c, s, r)"
  shows "r = rate" and "level l k now = max 0 (of_int c - (now - s) * rate)"
  using assms by (auto simp: uniform_def get_action_counts_def level_def dget_or_def split: option.splits)

lemma check_bucket_cases:
  assumes "yields (check_bucket k rate burst update n now) l (a, next) l'" and u: "uniform rate b l"
  shows "a \<longleftrightarrow> level l k now + of_int n \<le> of_int burst"
    and "if a \<and> update
      then \<exists>c s. yields (record_action_inner k (c + n) s rate now) l () l' \<and>
             level l k now = of_int c - (now - s) * rate
      else l' = l"
proof -
  obtain c s r where g: "get_action_counts k now l = (c, s, r)" by (metis prod_cases3)
  note lv = get_action_counts_uniform[OF u g]
  show "a \<longleftrightarrow> level l k now + of_int n \<le> of_int burst"
    using assms(1) lv by (auto simp: check_bucket_def eff_simps g Let_def not_less split: if_splits)
  show "if a \<and> update
      then \<exists>c s. yields (record_action_inner k (c + n) s rate now) l () l' \<and>
             level l k now = of_int c - (now - s) * rate
      else l' = l"
  proof (cases "of_int c - (now - s) * rate < 0")
    case True
    then have "level l k now = of_int 0 - (now - now) * rate" using lv by simp
    with True assms(1) show ?thesis
      by (auto simp: check_bucket_def eff_simps g Let_def split: if_splits intro!: exI[of _ 0] exI[of _ now])
  next
    case False
    then have "level l k now = of_int c - (now - s) * rate" using lv by simp
    with False assms(1) show ?thesis
      by (fastforce simp: check_bucket_def eff_simps g Let_def split: if_splits)
  qed
qed

lemma level_leaks_uniform:
  assumes "uniform rate burst l" and "0 \<le> rate" and "t \<le> t'"
  shows "level l k t \<le> level l k t' + rate * (t' - t)"
proof (cases "dget (actions l) k")
  case None
  then show ?thesis using assms by (simp add: level_def)
next
  case (Some p)
  obtain c s r where p: "p = (c, s, r)" by (metis prod_cases3)
  with Some assms(1) have "r = rate" by (auto simp: uniform_def)
  moreover have "0 \<le> rate * (t' - t)" using assms by simp
  ultimately show ?thesis by (simp add: level_def Some p algebra_simps max_def)
qed

lemma wf_prune_key: "wf_dict acts \<Longrightarrow> wf_dict (prune_key now k acts)"
  by (simp add: prune_key_def split: option.splits)

lemma dget_prune_key:
  "dget (prune_key now x acts) k = (case dget acts k of
       None \<Rightarrow> None
     | Some (c, s, r) \<Rightarrow> if x = k \<and> of_int c - (now - s) * r \<le> 0 then None else Some (c, s, r))"
  by (auto simp: prune_key_def split: option.splits)

lemma dget_prune_keys:
  "dget (fold (prune_key now) ks acts) k = (case dget acts k of
       None \<Rightarrow> None
     | Some (c, s, r) \<Rightarrow> if k \<in> set ks \<and> of_int c - (now - s) * r \<le> 0 then None else Some (c, s, r))"
  by (induction ks arbitrary: acts) (auto simp: dget_prune_key split: option.splits)

lemma wf_prune_keys: "wf_dict acts \<Longrightarrow> wf_dict (fold (prune_key now) ks acts)"
  by (induction ks arbitrary: acts) (auto simp: wf_prune_key)

lemma prune_level:
  assumes "uniform rate burst l"
  shows "level (prune_message_counts now l) k now = level l k now"
    and "uniform rate burst (prune_message_counts now l)"
proof -
  obtain ks tm where f: "wheel_fetch (trunc (now * 1000)) (prune_timer l) = (ks, tm)" by (metis surj_pair)
  then have p: "prune_message_counts now l = l\<lparr>actions := fold (prune_key now) ks (actions l), prune_timer := tm\<rparr>"
    by (simp add: prune_message_counts_def)
  show "uniform rate burst (prune_message_counts now l)"
    using assms by (auto simp: uniform_def p wf_prune_keys dget_prune_keys split: option.splits if_splits)
  show "level (prune_message_counts now l) k now = level l k now"
    by (auto simp: level_def p dget_prune_keys split: option.splits)
qed

lemma limiter_call_bucket:
  "limiter_call env now k n a l l' \<Longrightarrow> uniform rate burst l \<Longrightarrow>
     \<exists>next. yields (check_bucket k rate burst True n now) l (a, next) l'"
  by (auto simp: limiter_call_def can_do_action_subject uniform_def get_key_def)

lemma limiter_call_level:
  assumes "limiter_call env now k n a l l'" and u: "uniform rate burst l" and "0 < rate" and "0 \<le> n"
  shows "a \<longleftrightarrow> level l k now + of_int n \<le> of_int burst"
    and "level l' j now = level l j now + (if a \<and> j = k then of_int n else 0)"
    and "uniform rate burst l'"
proof -
  obtain nx where y: "yields (check_bucket k rate burst True n now) l (a, nx) l'"
    using limiter_call_bucket[OF assms(1) u] by blast
  note b = check_bucket_cases[OF y u]
  show "a \<longleftrightarrow> level l k now + of_int n \<le> of_int burst" by (rule b(1))
  have "0 \<le> level l k now" by (simp add: level_def split: option.splits)
  then show "level l' j now = level l j now + (if a \<and> j = k then of_int n else 0)"
    using b(2) record_inner_level[OF _ \<open>0 < rate\<close>] \<open>0 \<le> n\<close>
    by (fastforce simp: algebra_simps split: if_splits)
  show "uniform rate burst l'" using b(2) record_inner_uniform[OF _ u] u by (auto split: if_splits)
qed

lemma limiter_idle_level:
  assumes "limiter_idle env now l l'" and u: "uniform rate burst l" and "0 < rate"
  shows "level l j now \<le> level l' j now \<and> uniform rate burst l'"
  using assms(1)
proof cases
  case idle_prune
  then show ?thesis using prune_level[OF u] by simp
next
  case (idle_record n requester key u)
  then obtain k where k: "yields (case get_action_counts k now l of (c, s, r) \<Rightarrow>
      record_action_inner k (c + n) s r now) l () l'"
    by (auto simp: record_action_def eff_simps)
  obtain c s r where g: "get_action_counts k now l = (c, s, r)" by (metis prod_cases3)
  with k have y: "yields (record_action_inner k (c + n) s r now) l () l'" by simp
  note lv = get_action_counts_uniform[OF assms(2) g]
  with y have y': "yields (record_action_inner k (c + n) s rate now) l () l'" by simp
  show ?thesis
    using record_inner_level[OF y' \<open>0 < rate\<close>, of j] record_inner_uniform[OF y' assms(2)] lv(2) idle_record(1)
    by (auto simp: max_def)
next
  case (idle_ask requester key n r)
  obtain a nx where r: "r = (a, nx)" by (metis surj_pair)
  obtain k where "yields (check_bucket k rate burst False n now) l (a, nx) l'"
    using idle_ask u by (auto simp: can_do_action_subject r uniform_def)
  from check_bucket_cases(2)[OF this u] show ?thesis using u by simp
qed

interpretation limiter: leaky_meter level rate burst "\<lambda>l. 0 < rate \<and> uniform rate burst l"
  "limiter_call env" "limiter_idle env" for rate burst env
proof (unfold_locales, goal_cases)
  case 2 show ?case by (simp add: level_def split: option.splits)
next
  case 3 then show ?case by (intro level_leaks_uniform[of rate burst]) auto
next
  case 4 then show ?case using limiter_call_level(1) by blast
next
  case 5 then show ?case using limiter_call_level(2) by blast
next
  case 6 then show ?case using limiter_idle_level by blast
next
  case 7 then show ?case using limiter_call_level(3) by blast
next
  case 8 then show ?case using limiter_idle_level by blast
qed simp

lemma uniform_new: "uniform rate burst (ratelimiter_new rate burst)"
  by (simp add: uniform_def ratelimiter_new_def)

section \<open>The properties of the limiter\<close>

text \<open>
  C13. Take a limiter made with a positive rate and a burst, and any sequence of calls, in order of
  time, of clients that no override exempts: actions asked for, actions recorded without asking,
  questions without effect, and the periodic pruning in between. In every period of time, the
  actions granted to one key are at most the burst plus what the rate gives for the length of the
  period.
\<close>

theorem rate_is_bounded:
  assumes "meter_run (limiter_call env) (limiter_idle env) (ratelimiter_new rate burst) evs now l"
    and "0 < rate" and "0 \<le> burst" and "t1 \<le> t2"
  shows "of_int (total_granted k (in_period t1 t2 evs)) \<le> of_int burst + rate * (t2 - t1)"
  using limiter.granted_in_period[OF assms(1) _ assms(3,4)] assms(2) uniform_new by blast

text \<open>The bucket after a request for one action, and the time the code answers.\<close>

lemma check_bucket_next:
  assumes y: "yields (check_bucket k rate burst True 1 now) l (a, nx) l'"
    and u: "uniform rate burst l" and "0 < rate" and "1 \<le> burst"
  shows "\<exists>c s. (\<forall>t \<ge> now. level l' k t = max 0 (of_int c - (t - s) * rate)) \<and>
    nx = max now (s + of_int (c - burst + 1) / rate)"
proof -
  obtain c0 s0 r where g: "get_action_counts k now l = (c0, s0, r)" by (metis prod_cases3)
  note lv = get_action_counts_uniform[OF u g]
  define c s where "c = (if of_int c0 - (now - s0) * rate < 0 then 0 else c0)"
    and "s = (if of_int c0 - (now - s0) * rate < 0 then now else s0)"
  have p: "level l k now = of_int c - (now - s) * rate" using lv by (auto simp: c_def s_def)
  have a: "a \<longleftrightarrow> level l k now + 1 \<le> of_int burst"
    using check_bucket_cases(1)[OF y u] by simp
  show ?thesis
  proof (cases a)
    case True
    with y have r: "yields (record_action_inner k (c + 1) s rate now) l () l'"
        "nx = max now (s + of_int (c + 1 - burst + 1) / rate)"
      using \<open>0 < rate\<close> by (auto simp: check_bucket_def eff_simps g Let_def c_def s_def split: if_splits)
    have "0 \<le> level l k now" by (simp add: level_def split: option.splits)
    then have "\<not> s + of_int (c + 1) / rate \<le> now"
      unfolding drained_iff[OF \<open>0 < rate\<close>] using p by simp
    with r(1) have "\<forall>t. level l' k t = max 0 (of_int (c + 1) - (t - s) * rate)"
      by (auto simp: record_inner_yields level_def)
    with r(2) show ?thesis by blast
  next
    case False
    with y have r: "l' = l" "nx = max now (s + of_int (c - burst + 1) / rate)"
      using \<open>0 < rate\<close> by (auto simp: check_bucket_def eff_simps g Let_def c_def s_def split: if_splits)
    have "0 < level l k now" using a False \<open>1 \<le> burst\<close> by (simp add: not_le)
    then obtain cs where d: "dget (actions l) k = Some cs" by (auto simp: level_def split: option.splits)
    then have cs: "cs = (c0, s0, rate)" using g lv(1) by (simp add: get_action_counts_def dget_or_def)
    have "\<not> of_int c0 - (now - s0) * rate < 0" using \<open>0 < level l k now\<close> lv(2) by auto
    then have "c = c0" "s = s0" by (simp_all add: c_def s_def)
    then have "\<forall>t. level l k t = max 0 (of_int c - (t - s) * rate)" by (simp add: level_def d cs)
    with r show ?thesis by blast
  qed
qed


section \<open>Examples\<close>

definition no_overrides :: limiter_env where
  "no_overrides = \<lparr>get_ratelimit_for_user = (\<lambda>_. None), module_override = (\<lambda>_. None)\<rparr>"

abbreviation sample_key :: limit_key where
  "sample_key \<equiv> TupleKey [''xrpl'', ''rA'']"

abbreviation sample_bucket :: Ratelimiter where
  "sample_bucket \<equiv> snd (can_do_action no_overrides None (Some sample_key) None None True 1 0 (ratelimiter_new 1 1))"

lemma sample_granted:
  "yields (can_do_action no_overrides None (Some sample_key) None None True 1 0) (ratelimiter_new 1 1)
     (True, 1) sample_bucket"
  by code_simp

lemma sample_denied:
  "yields (can_do_action no_overrides None (Some sample_key) None None True 1 (1 / 2)) sample_bucket
     (False, 1) sample_bucket"
  by code_simp

theorem rate_is_bounded_witness:
  "\<exists>evs l. meter_run (limiter_call no_overrides) (limiter_idle no_overrides) (ratelimiter_new 1 1) evs (1 / 2) l
     \<and> length evs = 2
     \<and> of_int (total_granted sample_key (in_period 0 (1 / 2) evs)) \<le> of_int 1 + 1 * (1 / 2 - 0 :: rat)"
proof -
  let ?e = "\<lambda>t a. \<lparr>at_time = t, for_key = sample_key, amount = 1, granted = a\<rparr>"
  have c: "limiter_call no_overrides 0 sample_key 1 True (ratelimiter_new 1 1) sample_bucket"
      "limiter_call no_overrides (1 / 2) sample_key 1 False sample_bucket sample_bucket"
    unfolding limiter_call_def using sample_granted sample_denied
    by (auto simp: subject_to_limit_def intro!: exI[of _ None])
  have "meter_run (limiter_call no_overrides) (limiter_idle no_overrides) (ratelimiter_new 1 1)
      (([] @ [?e 0 True]) @ [?e (1 / 2) False]) (1 / 2) sample_bucket"
  proof (rule meter_call)
    show "limiter_call no_overrides (1 / 2) sample_key 1 False sample_bucket sample_bucket" by (rule c)
    show "meter_run (limiter_call no_overrides) (limiter_idle no_overrides) (ratelimiter_new 1 1)
        ([] @ [?e 0 True]) 0 sample_bucket"
      by (rule meter_call[where call = "limiter_call no_overrides", OF meter_start[of _ _ _ 0] _ _ c(1)]) simp_all
  qed simp_all
  then have run: "meter_run (limiter_call no_overrides) (limiter_idle no_overrides) (ratelimiter_new 1 1)
      [?e 0 True, ?e (1 / 2) False] (1 / 2) sample_bucket" by simp
  from rate_is_bounded[OF this, of 0 "1 / 2" sample_key] run show ?thesis
    by (intro exI[of _ "[?e 0 True, ?e (1 / 2) False]"] exI[of _ sample_bucket]) simp
qed


section \<open>Where the limiter falls short\<close>

text \<open>
  \<open>record_action\<close> is documented to record an action \<^emph>\<open>even if it violates the rate limit\<close>. It adds
  to the stored count without forgiving what has leaked, as \<open>can_do_action\<close> does, so for a bucket
  that has been empty for some time and was not pruned yet the action is not recorded at all.
\<close>

lemma record_action_forgets:
  assumes "dget (actions l) k = Some (c, s, r)" and "0 < r" and "of_int (c + n) \<le> (now - s) * r"
  shows "yields (record_action requester (Some k) n now) l () (l\<lparr>actions := dpop k (actions l)\<rparr>)"
proof -
  have "s + of_int (c + n) / r \<le> now" unfolding drained_iff[OF assms(2)] using assms(3) by simp
  then show ?thesis using assms(1,2)
    by (auto simp: record_action_def eff_simps get_key_def get_action_counts_def dget_or_def record_inner_yields)
qed

text \<open>
  A module that answers with the rate zero, which its interface documents as \<^emph>\<open>ratelimiting is
  disabled\<close>, makes every action that fits the burst end in a division by zero.
\<close>

lemma zero_override_raises:
  assumes "subject_to_limit (env\<lparr>module_override := (\<lambda>_. None)\<rparr>) (Some r)"
    and "module_override env (req_user r) = Some m" and "messages_per_second m = 0"
    and "dget (actions l) (StrKey (req_user r)) = None" and "n \<le> override_burst_count m"
  shows "can_do_action env (Some r) None None None True n now l = (Inl ZeroDivisionError, l)"
  using assms
  by (auto simp: can_do_action_def check_bucket_def get_key_def get_action_counts_def dget_or_def
      record_action_inner_def subject_to_limit_def ebind_def elift_def egets_def Let_def
      split: option.splits)

end
