(* ===== verification/Py_Text.thy ===== *)
theory Py_Text
  imports Py_Json Identifier_Text
begin

text \<open>
  The functions of Python's strings, bytes, dates and encodings that the wallet code uses: case
  conversion, \<open>strip\<close>, \<open>isdigit\<close>, substring tests, \<open>bytes.fromhex\<close>, \<open>base64.b64decode\<close> with
  validation, \<open>repr\<close> of JSON values and ISO dates. Byte strings are strings. Three letters below 256
  (the micro sign, the sharp s and the y with diaeresis) have an upper case outside the model and
  are left alone by \<open>py_upper\<close>; base 64 is checked the way Python 3.11 and later do.
\<close>

section \<open>Case and white space\<close>

abbreviation icode :: "char \<Rightarrow> int" where "icode c \<equiv> of_char c"

definition py_lower_char :: "char \<Rightarrow> char" where
  "py_lower_char c = (if is_upper c \<or> 192 \<le> icode c \<and> icode c \<le> 222 \<and> icode c \<noteq> 215
     then char_of (icode c + 32) else c)"

definition py_lower :: "string \<Rightarrow> string" where
  "py_lower s = map py_lower_char s"

definition py_upper_char :: "char \<Rightarrow> char" where
  "py_upper_char c = (if is_lower c \<or> 224 \<le> icode c \<and> icode c \<le> 254 \<and> icode c \<noteq> 247
     then char_of (icode c - 32) else c)"

definition py_upper :: "string \<Rightarrow> string" where
  "py_upper s = map py_upper_char s"

definition is_py_space :: "char \<Rightarrow> bool" where
  "is_py_space c \<longleftrightarrow> icode c \<in> {9, 10, 11, 12, 13, 28, 29, 30, 31, 32, 133, 160}"

definition strip_if :: "(char \<Rightarrow> bool) \<Rightarrow> string \<Rightarrow> string" where
  "strip_if p s = rev (dropWhile p (rev (dropWhile p s)))"

definition py_strip :: "string \<Rightarrow> string" where
  "py_strip s = strip_if is_py_space s"

text \<open>\<open>str.isdigit\<close>: besides the digits, the superscripts one, two and three count.\<close>

definition digit_like :: "char \<Rightarrow> bool" where
  "digit_like c \<longleftrightarrow> is_digit c \<or> icode c \<in> {178, 179, 185}"

definition py_isdigit :: "string \<Rightarrow> bool" where
  "py_isdigit s \<longleftrightarrow> s \<noteq> [] \<and> list_all digit_like s"

text \<open>\<open>a in b\<close> for strings.\<close>

definition str_in :: "string \<Rightarrow> string \<Rightarrow> bool" where
  "str_in a b \<longleftrightarrow> sublist a b"

text \<open>\<open>s[-n:]\<close>.\<close>

definition last_chars :: "nat \<Rightarrow> string \<Rightarrow> string" where
  "last_chars n s = drop (length s - n) s"

section \<open>Encodings\<close>

definition hex_val :: "char \<Rightarrow> int option" where
  "hex_val c = (if is_digit c then Some (icode c - 48)
     else if 97 \<le> icode c \<and> icode c \<le> 102 then Some (icode c - 87)
     else if 65 \<le> icode c \<and> icode c \<le> 70 then Some (icode c - 55) else None)"

definition is_ascii_space :: "char \<Rightarrow> bool" where
  "is_ascii_space c \<longleftrightarrow> icode c \<in> {9, 10, 11, 12, 13, 32}"

fun bytes_fromhex :: "string \<Rightarrow> string res" where
  "bytes_fromhex [] = Inr []"
| "bytes_fromhex [c] = (if is_ascii_space c then Inr [] else Inl ValueError)"
| "bytes_fromhex (c # d # cs) =
     (if is_ascii_space c then bytes_fromhex (d # cs)
      else (case (hex_val c, hex_val d) of
              (Some a, Some b) \<Rightarrow> rbind (bytes_fromhex cs) (\<lambda>bs. Inr (char_of (16 * a + b) # bs))
            | _ \<Rightarrow> Inl ValueError))"

definition b64_char :: "char \<Rightarrow> bool" where
  "b64_char c \<longleftrightarrow> is_digit c \<or> is_lower c \<or> is_upper c \<or> c = CHR ''+'' \<or> c = CHR ''/''"

text \<open>Whether \<open>base64.b64decode(s, validate=True)\<close> returns.\<close>

definition b64_decodes :: "string \<Rightarrow> bool" where
  "b64_decodes s =
     (let digits = takeWhile b64_char s; rest = dropWhile b64_char s in
      length s mod 4 = 0 \<and> length rest \<le> 2 \<and> list_all (\<lambda>c. c = CHR ''='') rest \<and> (rest = [] \<or> 2 \<le> length digits))"

section \<open>Representations\<close>

text \<open>\<open>', '.join(parts)\<close>.\<close>

fun comma_join :: "string list \<Rightarrow> string" where
  "comma_join [] = []"
| "comma_join [w] = w"
| "comma_join (w # v # ws) = w @ '', '' @ comma_join (v # ws)"

definition hex_escape :: "char \<Rightarrow> string" where
  "hex_escape c = [CHR 0x5C, CHR ''x'', hex_digit (code c div 16), hex_digit (code c mod 16)]"

definition repr_char :: "char \<Rightarrow> char \<Rightarrow> string" where
  "repr_char q c =
     (if c = q \<or> c = CHR 0x5C then [CHR 0x5C, c]
      else if c = CHR 0x09 then [CHR 0x5C, CHR ''t'']
      else if c = CHR 0x0A then [CHR 0x5C, CHR ''n'']
      else if c = CHR 0x0D then [CHR 0x5C, CHR ''r'']
      else if icode c < 32 \<or> 127 \<le> icode c \<and> icode c \<le> 160 \<or> icode c = 173 then hex_escape c
      else [c])"

definition repr_str :: "string \<Rightarrow> string" where
  "repr_str s =
     (let q = (if CHR 0x27 \<in> set s \<and> CHR 0x22 \<notin> set s then CHR 0x22 else CHR 0x27)
      in q # concat (map (repr_char q) s) @ [q])"

text \<open>\<open>str(v)\<close> of a decoded JSON value that is not a string; floats are printed by \<open>float_repr\<close>.\<close>

fun py_repr :: "(rat \<Rightarrow> string) \<Rightarrow> json \<Rightarrow> string" where
  "py_repr fr JNull = ''None''"
| "py_repr fr (JBool b) = (if b then ''True'' else ''False'')"
| "py_repr fr (JInt i) = string_of_int i"
| "py_repr fr (JFloat r) = fr r"
| "py_repr fr (JStr s) = repr_str s"
| "py_repr fr (JList xs) = CHR ''['' # comma_join (map (py_repr fr) xs) @ '']''"
| "py_repr fr (JDict d) =
     CHR ''{'' # comma_join (map (\<lambda>p. repr_str (fst p) @ '': '' @ py_repr fr (snd p)) d) @ ''}''"

text \<open>\<open>str(v)\<close>.\<close>

fun py_str :: "(rat \<Rightarrow> string) \<Rightarrow> json \<Rightarrow> string" where
  "py_str fr (JStr s) = s"
| "py_str fr v = py_repr fr v"

section \<open>Dates\<close>

text \<open>The civil date of a number of days since 1970-01-01, in the Gregorian calendar.\<close>

definition civil_from_days :: "int \<Rightarrow> int \<times> int \<times> int" where
  "civil_from_days days =
     (let z = days + 719468; era = z div 146097; doe = z mod 146097;
          yoe = (doe - doe div 1460 + doe div 36524 - doe div 146096) div 365;
          doy = doe - (365 * yoe + yoe div 4 - yoe div 100);
          mp = (5 * doy + 2) div 153;
          d = doy - (153 * mp + 2) div 5 + 1;
          m = (if mp < 10 then mp + 3 else mp - 9);
          y = yoe + era * 400 + (if m \<le> 2 then 1 else 0)
      in (y, m, d))"

definition pad_int :: "nat \<Rightarrow> int \<Rightarrow> string" where
  "pad_int n i = (let s = string_of_int i in replicate (n - length s) CHR ''0'' @ s)"

text \<open>
  \<open>datetime.fromtimestamp(ms / 1000, tz=utc).replace(microsecond=0).isoformat()\<close> with the offset
  written as \<open>Z\<close>.
\<close>

definition iso_utc :: "int \<Rightarrow> string res" where
  "iso_utc ms =
     (let secs = ms div 1000; (y, m, d) = civil_from_days (secs div 86400); t = secs mod 86400 in
      if y < 1 \<or> 9999 < y then Inl ValueError
      else Inr (pad_int 4 y @ ''-'' @ pad_int 2 m @ ''-'' @ pad_int 2 d @ ''T''
            @ pad_int 2 (t div 3600) @ '':'' @ pad_int 2 (t div 60 mod 60) @ '':'' @ pad_int 2 (t mod 60) @ ''Z''))"

lemma iso_utc_examples:
  "iso_utc 0 = Inr ''1970-01-01T00:00:00Z''"
  "iso_utc 951868799999 = Inr ''2000-02-29T23:59:59Z''"
  "iso_utc 1767225600000 = Inr ''2026-01-01T00:00:00Z''"
  by code_simp+

section \<open>Stripping\<close>

lemma strip_if_ends:
  "strip_if p s \<noteq> [] \<Longrightarrow> \<not> p (hd (strip_if p s)) \<and> \<not> p (last (strip_if p s))"
proof -
  assume ne: "strip_if p s \<noteq> []"
  let ?u = "dropWhile p s"
  obtain v where v: "?u = strip_if p s @ v"
    unfolding strip_if_def by (metis rev_append rev_rev_ident takeWhile_dropWhile_id)
  have "last (strip_if p s) = hd (dropWhile p (rev ?u))" using ne by (simp add: strip_if_def last_rev)
  moreover have "dropWhile p (rev ?u) \<noteq> []" using ne by (simp add: strip_if_def)
  ultimately have "\<not> p (last (strip_if p s))" using hd_dropWhile by metis
  moreover have "\<not> p (hd ?u)" using v ne by (metis Nil_is_append_conv hd_dropWhile)
  ultimately show ?thesis using v ne by simp
qed

lemma set_strip_if: "set (strip_if p s) \<subseteq> set s"
  unfolding strip_if_def by (auto dest!: set_dropWhileD)

lemma strip_if_id: "s \<noteq> [] \<Longrightarrow> \<not> p (hd s) \<Longrightarrow> \<not> p (last s) \<Longrightarrow> strip_if p s = s"
proof -
  assume "s \<noteq> []" "\<not> p (hd s)" "\<not> p (last s)"
  then have "dropWhile p s = s" and "dropWhile p (rev s) = rev s"
    by (simp_all add: dropWhile_eq_self_iff hd_rev)
  then show ?thesis by (simp add: strip_if_def)
qed

end
