(* ===== verification/Xrpl_Adapter.thy ===== *)
theory Xrpl_Adapter
  imports Py_Text
begin

text \<open>
  The chain adapter of the wallet login, \<open>auth/xrpl_chain_adapter.py\<close>, and the recovery envelope of
  \<open>auth/wallet_recovery_envelope.py\<close>. The packages \<open>xrpl\<close> and \<open>cryptography\<close> are the record
  \<open>xrpl_lib\<close>: address validation, the transaction codec, the derivation of an address from a public
  key and the two signature checks. A function of a package that raises has the value \<open>None\<close>.
\<close>

section \<open>The packages\<close>

record xrpl_lib =
  is_valid_classic_address :: "string \<Rightarrow> bool"
  decode_tx_blob :: "string \<Rightarrow> json option"
  encode_for_signing :: "json_dict \<Rightarrow> string option"
  derive_classic_address :: "string \<Rightarrow> string option"
  is_valid_message :: "string \<Rightarrow> string \<Rightarrow> string \<Rightarrow> bool option"
  ed25519_verifies :: "string \<Rightarrow> string \<Rightarrow> string \<Rightarrow> bool"

section \<open>The adapter\<close>

definition CHAIN_ID :: string where "CHAIN_ID = ''xrpl''"
definition LOGIN_TYPE :: string where "LOGIN_TYPE = ''io.briij.login.xrpl''"
definition SESSION_TYPE :: string where "SESSION_TYPE = ''xrpl_auth''"
definition SUPPORTED_NETWORKS :: "string list" where "SUPPORTED_NETWORKS = [''xrpl'', ''xahau'']"

definition is_initial_request :: "json_dict \<Rightarrow> bool" where
  "is_initial_request login_submission \<longleftrightarrow>
     \<not> dhas login_submission ''session'' \<and> \<not> dhas login_submission ''signature''"

fun validate_account_id :: "xrpl_lib \<Rightarrow> json \<Rightarrow> string res" where
  "validate_account_id lib (JStr account_id) =
     (if account_id = [] then Inl (SynapseError 400 ''Missing address'')
      else if \<not> is_valid_classic_address lib account_id
        then Inl (SynapseError 400 ''Invalid XRPL classic address'')
      else Inr account_id)"
| "validate_account_id lib _ = Inl (SynapseError 400 ''Missing address'')"

fun validate_network :: "json \<Rightarrow> string res" where
  "validate_network (JStr network) =
     (if network = [] then Inl (SynapseError 400 ''Missing network'')
      else if py_lower network \<notin> set SUPPORTED_NETWORKS
        then Inl (SynapseError 400 ''Unsupported XRPL network'')
      else Inr (py_lower network))"
| "validate_network _ = Inl (SynapseError 400 ''Missing network'')"

definition build_challenge :: "string \<Rightarrow> int \<Rightarrow> string \<Rightarrow> string res" where
  "build_challenge account_id issued_at_ms nonce =
     rbind (iso_utc issued_at_ms) (\<lambda>issued_at.
       Inr (''textrp-briij|'' @ issued_at @ ''|nonce:'' @ nonce @ ''|'' @ account_id))"

text \<open>
  \<open>decoded.get(k)\<close> of a transaction is a JSON value. A signing key or signature that is neither text
  nor bytes makes the calls after it raise, which is caught.
\<close>

definition try_verify_signin_tx :: "xrpl_lib \<Rightarrow> string \<Rightarrow> string \<Rightarrow> string option" where
  "try_verify_signin_tx lib signature_hex account_id =
     (case bytes_fromhex signature_hex of
        Inl _ \<Rightarrow> None
      | Inr sig_bytes \<Rightarrow>
          if length sig_bytes < 32 then None
          else (case decode_tx_blob lib signature_hex of
            Some (JDict decoded) \<Rightarrow>
              if dget decoded ''Account'' \<noteq> Some (JStr account_id) then None
              else (case (dget decoded ''SigningPubKey'', dget decoded ''TxnSignature'') of
                (Some (JStr signing_pub_key), Some (JStr txn_sig)) \<Rightarrow>
                  if signing_pub_key = [] \<or> txn_sig = [] then None
                  else (case encode_for_signing lib decoded of
                    None \<Rightarrow> None
                  | Some to_sign_hex \<Rightarrow>
                      (case (bytes_fromhex to_sign_hex, bytes_fromhex txn_sig) of
                         (Inr to_sign_bytes, Inr txn_sig_bytes) \<Rightarrow>
                           if is_valid_message lib to_sign_bytes txn_sig_bytes (py_upper signing_pub_key)
                              = Some True
                           then Some signing_pub_key else None
                       | _ \<Rightarrow> None))
              | _ \<Rightarrow> None)
          | _ \<Rightarrow> None))"

definition is_upper_hex :: "string \<Rightarrow> bool" where
  "is_upper_hex s = list_all (\<lambda>c. c \<in> set ''0123456789ABCDEF'') s"

text \<open>The 32 bytes of an Ed25519 key, when the text of the key has that form.\<close>

definition ed25519_key_hex :: "string \<Rightarrow> string option" where
  "ed25519_key_hex key =
     (if length key = 64 \<and> is_upper_hex key then Some key
      else if starts_with ''ED'' key \<and> length key = 66 \<and> is_upper_hex (drop 2 key) then Some (drop 2 key)
      else None)"

definition verify_signature :: "xrpl_lib \<Rightarrow> string \<Rightarrow> string \<Rightarrow> string \<Rightarrow> string \<Rightarrow> unit res" where
  "verify_signature lib account_id challenge signature public_key =
     (case bytes_fromhex signature of
        Inl _ \<Rightarrow> Inl (LoginError 403 ''XRPL signature must be hexadecimal'')
      | Inr signature_bytes \<Rightarrow>
          let key = py_upper public_key; message = utf8_encode challenge;
              failed = LoginError 403 ''XRPL signature verification failed'' in
          (case derive_classic_address lib key of
             None \<Rightarrow> Inl (SynapseError 400 ''Invalid XRPL public key'')
           | Some derived_address \<Rightarrow>
               if derived_address \<noteq> account_id
               then Inl (LoginError 403 ''XRPL public key does not match the requested address'')
               else (case ed25519_key_hex key of
                 Some key_hex \<Rightarrow>
                   (case bytes_fromhex key_hex of
                      Inl _ \<Rightarrow> Inl failed
                    | Inr pub_bytes \<Rightarrow>
                        raise_if (length pub_bytes \<noteq> 32
                          \<or> \<not> ed25519_verifies lib pub_bytes signature_bytes message) failed)
               | None \<Rightarrow>
                   (case is_valid_message lib message signature_bytes key of
                      None \<Rightarrow> Inl (OtherException ''is_valid_message'')
                    | Some valid \<Rightarrow> raise_if (\<not> valid) failed))))"

definition verify_login_proof ::
    "xrpl_lib \<Rightarrow> string \<Rightarrow> string \<Rightarrow> string \<Rightarrow> string option \<Rightarrow> string res" where
  "verify_login_proof lib account_id challenge signature public_key =
     (case try_verify_signin_tx lib signature account_id of
        Some signin_public_key \<Rightarrow> Inr signin_public_key
      | None \<Rightarrow>
          (case public_key of
             None \<Rightarrow> Inl (SynapseError 400 ''Missing public_key for XRPL login'')
           | Some key \<Rightarrow>
               if key = [] then Inl (SynapseError 400 ''Missing public_key for XRPL login'')
               else rbind (verify_signature lib account_id challenge signature key) (\<lambda>_. Inr key)))"

section \<open>Recovery envelopes\<close>

definition MAX_RECOVERY_ENVELOPE_LENGTH :: nat where "MAX_RECOVERY_ENVELOPE_LENGTH = 16384"

text \<open>The name of the field is left out of the messages.\<close>

abbreviation invalid_field :: py_error where
  "invalid_field \<equiv> SynapseError 400 ''Invalid wallet_e2ee_recovery field''"

abbreviation field_of :: "json_dict \<Rightarrow> string \<Rightarrow> json" where
  "field_of d k \<equiv> dget_or d k JNull"

fun assert_base64_str :: "json \<Rightarrow> json res" where
  "assert_base64_str (JStr s) =
     (if s = [] then Inl invalid_field
      else if \<not> b64_decodes s then Inl (SynapseError 400 ''wallet_e2ee_recovery field must be base64'')
      else Inr (JStr s))"
| "assert_base64_str _ = Inl invalid_field"

fun assert_string :: "json \<Rightarrow> string res" where
  "assert_string (JStr s) = (if s = [] then Inl invalid_field else Inr s)"
| "assert_string _ = Inl invalid_field"

text \<open>A \<open>bool\<close> is an \<open>int\<close> for \<open>isinstance\<close>.\<close>

fun assert_positive_int :: "json \<Rightarrow> json res" where
  "assert_positive_int (JInt i) = (if i < 0 then Inl invalid_field else Inr (JInt i))"
| "assert_positive_int (JBool b) = Inr (JBool b)"
| "assert_positive_int _ = Inl invalid_field"

fun validate_wrap :: "json \<Rightarrow> json res" where
  "validate_wrap (JDict value) =
     rbind (assert_string (field_of value ''alg'')) (\<lambda>_.
     rbind (assert_string (field_of value ''kdf'')) (\<lambda>_.
     rbind (assert_base64_str (field_of value ''salt'')) (\<lambda>_.
     rbind (assert_base64_str (field_of value ''nonce'')) (\<lambda>_.
     rbind (assert_base64_str (field_of value ''ciphertext'')) (\<lambda>_.
     rbind (if field_of value ''aad'' = JNull then Inr JNull else assert_base64_str (field_of value ''aad'')) (\<lambda>_.
     rbind (raise_if (field_of value ''params'' \<noteq> JNull \<and> \<not> is_mapping (field_of value ''params''))
              (SynapseError 400 ''wallet_e2ee_recovery params must be an object'')) (\<lambda>_.
       Inr (JDict value))))))))"
| "validate_wrap _ = Inl (SynapseError 400 ''wallet_e2ee_recovery wrap must be an object'')"

text \<open>\<open>v == 1\<close>: true for the integer, the float and the truth value.\<close>

fun equals_one :: "json \<Rightarrow> bool" where
  "equals_one (JInt i) = (i = 1)"
| "equals_one (JFloat r) = (r = 1)"
| "equals_one (JBool b) = b"
| "equals_one _ = False"

fun validate_wallet_recovery_envelope ::
    "(rat \<Rightarrow> string) \<Rightarrow> json \<Rightarrow> string \<Rightarrow> string \<Rightarrow> json res" where
  "validate_wallet_recovery_envelope float_repr (JDict envelope) expected_chain_id expected_account_id =
     (if length (py_repr float_repr (JDict envelope)) > MAX_RECOVERY_ENVELOPE_LENGTH
      then Inl (SynapseError 400 ''wallet_e2ee_recovery is too large'')
      else if \<not> equals_one (field_of envelope ''envelope_version'')
      then Inl (SynapseError 400 ''Unsupported wallet_e2ee_recovery.envelope_version'')
      else
        rbind (assert_string (field_of envelope ''chain_id'')) (\<lambda>chain_id.
        rbind (assert_string (field_of envelope ''account_id'')) (\<lambda>account_id.
        rbind (raise_if (chain_id \<noteq> expected_chain_id \<or> account_id \<noteq> expected_account_id)
                 (SynapseError 400 ''wallet_e2ee_recovery identity does not match authenticated wallet'')) (\<lambda>_.
        rbind (assert_positive_int (field_of envelope ''created_at_ms'')) (\<lambda>created_at_ms.
        rbind (assert_string (field_of envelope ''key_id'')) (\<lambda>key_id.
        rbind (validate_wrap (field_of envelope ''wallet_wrap'')) (\<lambda>wallet_wrap.
        rbind (validate_wrap (field_of envelope ''password_wrap'')) (\<lambda>password_wrap.
          Inr (JDict [(''envelope_version'', field_of envelope ''envelope_version''),
                      (''chain_id'', JStr chain_id), (''account_id'', JStr account_id),
                      (''created_at_ms'', created_at_ms), (''key_id'', JStr key_id),
                      (''wallet_wrap'', wallet_wrap), (''password_wrap'', password_wrap)])))))))))"
| "validate_wallet_recovery_envelope float_repr JNull c a =
     Inl (SynapseError 400 ''wallet_e2ee_recovery cannot be null'')"
| "validate_wallet_recovery_envelope float_repr _ c a =
     Inl (SynapseError 400 ''wallet_e2ee_recovery must be an object'')"

end
