(* ===== verification/Accounts.thy ===== *)
theory Accounts
  imports Ratelimiter Xrpl_Adapter
begin

text \<open>
  The tables the wallet login reads and writes, with the operations of the stores and of the
  registration handler on them: sessions (\<open>storage/databases/main/session.py\<close>), wallet links and
  users (\<open>storage/databases/main/registration.py\<close>), the checks of a new user name and the
  registration (\<open>handlers/register.py\<close>), and account data. What the registration asks of other parts
  of the server (rate limits and spam checks before it, reserved names, profiles and automatic joins
  after it) are arguments. SQL's \<open>lower\<close> changes ASCII letters.
\<close>

section \<open>State\<close>

record wallet_link =
  wl_user_id :: string
  wl_public_key :: "string option"
  wl_linked_at :: int

record server_state =
  sessions :: "(string \<times> string, json \<times> int) dict"
  wallet_links :: "(string \<times> string, wallet_link) dict"
  users :: "string list"
  display_names :: "(string, string) dict"
  account_data :: "(string \<times> string, json) dict"
  wallet_limiter :: Ratelimiter

record server_env =
  hostname :: string
  registration_gate :: "string \<Rightarrow> unit res"
  user_id_reserved :: "string \<Rightarrow> unit res"
  after_registration :: "string \<Rightarrow> unit res"
  allow_underscore_prefixed_localpart :: bool

section \<open>Sessions\<close>

text \<open>The identifiers that \<open>random_string\<close> gives are an argument; five are tried at most.\<close>

fun insert_session ::
    "nat \<Rightarrow> string list \<Rightarrow> string \<Rightarrow> json \<Rightarrow> int \<Rightarrow> (server_state, string) eff" where
  "insert_session 0 ids session_type val expiry = eraise (StoreError 500 ''Couldn't generate a session ID.'')"
| "insert_session (Suc attempts) [] session_type val expiry =
     eraise (StoreError 500 ''Couldn't generate a session ID.'')"
| "insert_session (Suc attempts) (session_id # ids) session_type val expiry =
     ebind (egets (\<lambda>s. dhas (sessions s) (session_type, session_id))) (\<lambda>taken.
       if taken then insert_session attempts ids session_type val expiry
       else ebind (emodify (\<lambda>s. s\<lparr>sessions := dset (session_type, session_id) (val, expiry) (sessions s)\<rparr>))
         (\<lambda>_. eret session_id))"

definition create_session :: "string list \<Rightarrow> int \<Rightarrow> string \<Rightarrow> json \<Rightarrow> int \<Rightarrow> (server_state, string) eff" where
  "create_session ids now session_type val expiry_ms =
     insert_session 5 ids session_type val (now + expiry_ms)"

definition get_session :: "int \<Rightarrow> string \<Rightarrow> string \<Rightarrow> (server_state, json) eff" where
  "get_session now session_type session_id =
     ebind (egets (\<lambda>s. dget (sessions s) (session_type, session_id))) (\<lambda>row. case row of
         Some (val, expiry) \<Rightarrow> if expiry > now then eret val else eraise (StoreError 404 ''No session'')
       | None \<Rightarrow> eraise (StoreError 404 ''No session''))"

definition consume_session :: "int \<Rightarrow> string \<Rightarrow> string \<Rightarrow> (server_state, json) eff" where
  "consume_session now session_type session_id =
     ebind (egets (\<lambda>s. dget (sessions s) (session_type, session_id))) (\<lambda>row. case row of
         Some (val, expiry) \<Rightarrow>
           if expiry > now
           then ebind (emodify (\<lambda>s. s\<lparr>sessions := dpop (session_type, session_id) (sessions s)\<rparr>)) (\<lambda>_. eret val)
           else eraise (StoreError 404 ''No session'')
       | None \<Rightarrow> eraise (StoreError 404 ''No session''))"

definition delete_expired_sessions :: "int \<Rightarrow> server_state \<Rightarrow> server_state" where
  "delete_expired_sessions now s = s\<lparr>sessions := filter (\<lambda>(_, _, expiry). \<not> expiry \<le> now) (sessions s)\<rparr>"

section \<open>Wallet links and account data\<close>

definition get_wallet_link_by_address :: "string \<Rightarrow> string \<Rightarrow> (server_state, wallet_link option) eff" where
  "get_wallet_link_by_address wallet_address network =
     egets (\<lambda>s. dget (wallet_links s) (wallet_address, network))"

definition upsert_wallet_link ::
    "string \<Rightarrow> string \<Rightarrow> string \<Rightarrow> string option \<Rightarrow> int \<Rightarrow> (server_state, unit) eff" where
  "upsert_wallet_link user_id wallet_address network public_key linked_at =
     emodify (\<lambda>s. s\<lparr>wallet_links := dset (wallet_address, network)
       \<lparr>wl_user_id = user_id, wl_public_key = public_key, wl_linked_at = linked_at\<rparr> (wallet_links s)\<rparr>)"

definition get_wallet_links_by_user :: "string \<Rightarrow> server_state \<Rightarrow> ((string \<times> string) \<times> wallet_link) list" where
  "get_wallet_links_by_user user_id s = filter (\<lambda>(_, link). wl_user_id link = user_id) (wallet_links s)"

definition add_account_data_for_user :: "string \<Rightarrow> string \<Rightarrow> json \<Rightarrow> (server_state, unit) eff" where
  "add_account_data_for_user user_id account_data_type content =
     emodify (\<lambda>s. s\<lparr>account_data := dset (user_id, account_data_type) content (account_data s)\<rparr>)"

section \<open>Users\<close>

definition to_user_id :: "server_env \<Rightarrow> string \<Rightarrow> string" where
  "to_user_id env l = dss_to_string CHR ''@'' \<lparr>localpart = l, domain = hostname env\<rparr>"

definition get_users_by_id_case_insensitive :: "string \<Rightarrow> server_state \<Rightarrow> string list" where
  "get_users_by_id_case_insensitive user_id s =
     filter (\<lambda>u. map lower_char u = map lower_char user_id) (users s)"

definition check_user_exists :: "string \<Rightarrow> server_state \<Rightarrow> string option" where
  "check_user_exists user_id s = (case get_users_by_id_case_insensitive user_id s of
       [] \<Rightarrow> None
     | [u] \<Rightarrow> Some u
     | us \<Rightarrow> if user_id \<in> set us then Some user_id else None)"

definition MAX_USERID_LENGTH :: nat where "MAX_USERID_LENGTH = 255"

text \<open>\<open>check_username\<close> for a caller that has no guest token and no identifier assigned before.\<close>

definition check_username :: "server_env \<Rightarrow> string \<Rightarrow> server_state \<Rightarrow> unit res" where
  "check_username env l s =
     rbind (raise_if (contains_invalid_mxid_characters l)
       (SynapseError 400 ''User ID can only contain characters a-z, 0-9, or =_-./+'')) (\<lambda>_.
     rbind (raise_if (l = []) (SynapseError 400 ''User ID cannot be empty'')) (\<lambda>_.
     rbind (raise_if (hd l = CHR ''_'' \<and> \<not> allow_underscore_prefixed_localpart env)
       (SynapseError 400 ''User ID may not begin with _'')) (\<lambda>_.
     rbind (user_id_reserved env (to_user_id env l)) (\<lambda>_.
     rbind (raise_if (length (to_user_id env l) > MAX_USERID_LENGTH)
       (SynapseError 400 ''User ID may not be longer than 255 characters'')) (\<lambda>_.
     rbind (raise_if (get_users_by_id_case_insensitive (to_user_id env l) s \<noteq> [])
       (SynapseError 400 ''User ID already taken.'')) (\<lambda>_.
       raise_if (list_all is_digit l)
         (SynapseError 400 ''Numeric user IDs are reserved for guest users.'')))))))"

text \<open>\<open>register_user\<close> for a given localpart.\<close>

definition register_user :: "server_env \<Rightarrow> string \<Rightarrow> string option \<Rightarrow> (server_state, string) eff" where
  "register_user env l default_display_name =
     (let user_id = to_user_id env l in
      ebind (elift (registration_gate env l)) (\<lambda>_.
      ebind (egets (check_username env l)) (\<lambda>r. ebind (elift r) (\<lambda>_.
      ebind (egets (\<lambda>s. user_id \<in> set (users s))) (\<lambda>taken.
      ebind (eguard taken (StoreError 400 ''User ID already taken.'')) (\<lambda>_.
      ebind (emodify (\<lambda>s. s\<lparr>users := users s @ [user_id],
               display_names := dset user_id (case default_display_name of None \<Rightarrow> l | Some d \<Rightarrow> d)
                                  (display_names s)\<rparr>)) (\<lambda>_.
      ebind (elift (after_registration env user_id)) (\<lambda>_.
        eret user_id))))))))"

end
