(* ===== verification/Xrpl_Auth.thy ===== *)
theory Xrpl_Auth
  imports Accounts
begin

text \<open>
  The wallet login of \<open>auth/xrpl_auth.py\<close> and the branch of the login endpoint that calls it
  (\<open>rest/client/login.py\<close>). The challenge of a session is issued to an address and a network; the
  second request answers it with a signature. The readings of the clock and the random strings of a
  request are arguments.
\<close>

section \<open>Configuration and inputs\<close>

record xrpl_config =
  xc_enabled :: bool
  allow_account_creation :: bool
  challenge_ttl_ms :: int
  xc_lib :: xrpl_lib
  xc_float_repr :: "rat \<Rightarrow> string"
  xc_limiter_env :: limiter_env
  xc_server :: server_env

record auth_inputs =
  at_limit :: rat
  at_issue :: int
  at_create :: int
  at_consume :: int
  at_check :: int
  at_link :: int
  in_nonce :: string
  in_session_ids :: "string list"

record XrplChallengeSession =
  cs_address :: string
  cs_network :: string
  cs_challenge :: string
  cs_nonce :: string
  cs_issued_at_ms :: int
  cs_preferred_localpart :: "string option"
  cs_display_name :: "string option"

abbreviation opt_json :: "string option \<Rightarrow> json" where
  "opt_json x \<equiv> (case x of None \<Rightarrow> JNull | Some s \<Rightarrow> JStr s)"

definition session_json :: "XrplChallengeSession \<Rightarrow> json" where
  "session_json c = JDict
     [(''address'', JStr (cs_address c)), (''network'', JStr (cs_network c)),
      (''challenge'', JStr (cs_challenge c)), (''nonce'', JStr (cs_nonce c)),
      (''issued_at_ms'', JInt (cs_issued_at_ms c)),
      (''preferred_localpart'', opt_json (cs_preferred_localpart c)),
      (''display_name'', opt_json (cs_display_name c))]"

section \<open>User names\<close>

definition sanitize_char :: "char \<Rightarrow> char" where
  "sanitize_char c = (if is_lower c \<or> is_digit c \<or> c \<in> set ''._=-'' then c else CHR ''_'')"

text \<open>\<open>re.sub(r"[^a-z0-9._=-]", "_", value.lower()).strip("_")\<close>.\<close>

definition sanitize_text :: "string \<Rightarrow> string" where
  "sanitize_text v = strip_if (\<lambda>c. c = CHR ''_'') (map sanitize_char (py_lower v))"

definition sanitize_localpart :: "string \<Rightarrow> string res" where
  "sanitize_localpart v =
     (let sanitized = sanitize_text v in
      if sanitized = [] then Inl (SynapseError 500 ''Unable to derive XRPL-backed Matrix user ID'')
      else Inr sanitized)"

fun normalize_preferred_localpart :: "json \<Rightarrow> string option res" where
  "normalize_preferred_localpart JNull = Inr None"
| "normalize_preferred_localpart (JStr v) =
     (if py_strip v = [] then Inl (SynapseError 400 ''Invalid preferred_localpart'')
      else rbind (sanitize_localpart (py_strip v)) (\<lambda>l. Inr (Some l)))"
| "normalize_preferred_localpart _ = Inl (SynapseError 400 ''Invalid preferred_localpart'')"

definition resolve_requested_localpart :: "json \<Rightarrow> json \<Rightarrow> string option res" where
  "resolve_requested_localpart preferred_localpart username =
     rbind (normalize_preferred_localpart preferred_localpart) (\<lambda>preferred.
     rbind (normalize_preferred_localpart username) (\<lambda>name.
     rbind (raise_if (preferred \<noteq> None \<and> name \<noteq> None \<and> preferred \<noteq> name)
       (SynapseError 400 ''preferred_localpart and username must match when both are provided'')) (\<lambda>_.
       Inr (if preferred \<noteq> None \<and> preferred \<noteq> Some [] then preferred else name))))"

fun normalize_display_name :: "json \<Rightarrow> string option res" where
  "normalize_display_name JNull = Inr None"
| "normalize_display_name (JStr v) = Inr (if py_strip v = [] then None else Some (py_strip v))"
| "normalize_display_name _ = Inl (SynapseError 400 ''Invalid display_name'')"

section \<open>Issuing a challenge\<close>

definition build_challenge_session ::
    "auth_inputs \<Rightarrow> string \<Rightarrow> string \<Rightarrow> string option \<Rightarrow> string option \<Rightarrow> XrplChallengeSession res" where
  "build_challenge_session inp address network preferred_localpart display_name =
     rbind (build_challenge address (at_issue inp) (in_nonce inp)) (\<lambda>challenge.
       Inr \<lparr>cs_address = address, cs_network = network, cs_challenge = challenge,
            cs_nonce = in_nonce inp, cs_issued_at_ms = at_issue inp,
            cs_preferred_localpart = preferred_localpart, cs_display_name = display_name\<rparr>)"

definition issue_challenge ::
    "xrpl_config \<Rightarrow> auth_inputs \<Rightarrow> json \<Rightarrow> json \<Rightarrow> json \<Rightarrow> json \<Rightarrow> json
     \<Rightarrow> (server_state, string \<times> string) eff" where
  "issue_challenge cfg inp address network preferred_localpart username display_name =
     ebind (elift (validate_account_id (xc_lib cfg) address)) (\<lambda>a.
     ebind (elift (validate_network network)) (\<lambda>n.
     ebind (elift (resolve_requested_localpart preferred_localpart username)) (\<lambda>l.
     ebind (elift (normalize_display_name display_name)) (\<lambda>d.
     ebind (ezoom wallet_limiter (\<lambda>l s. s\<lparr>wallet_limiter := l\<rparr>)
       (ratelimit (xc_limiter_env cfg) None (Some (TupleKey [n, a])) None None True 1 (at_limit inp))) (\<lambda>_.
     ebind (elift (build_challenge_session inp a n l d)) (\<lambda>challenge_session.
     ebind (create_session (in_session_ids inp) (at_create inp) SESSION_TYPE
       (session_json challenge_session) (challenge_ttl_ms cfg)) (\<lambda>session_id.
       eret (session_id, cs_challenge challenge_session))))))))"

section \<open>Completing the login\<close>

text \<open>\<open>isinstance(v, int)\<close> and \<open>v is None or isinstance(v, str)\<close>, with the value.\<close>

fun as_int :: "json \<Rightarrow> int option" where
  "as_int (JInt i) = Some i"
| "as_int (JBool b) = Some (if b then 1 else 0)"
| "as_int _ = None"

fun as_opt_str :: "json \<Rightarrow> string option option" where
  "as_opt_str JNull = Some None"
| "as_opt_str (JStr s) = Some (Some s)"
| "as_opt_str _ = None"

definition parse_session :: "json_dict \<Rightarrow> XrplChallengeSession res" where
  "parse_session session =
     (case (field_of session ''address'', field_of session ''network'', field_of session ''challenge'',
            field_of session ''nonce'', as_int (field_of session ''issued_at_ms''),
            as_opt_str (field_of session ''preferred_localpart''),
            as_opt_str (field_of session ''display_name'')) of
        (JStr a, JStr n, JStr c, JStr nonce, Some issued, Some l, Some d) \<Rightarrow>
          Inr \<lparr>cs_address = a, cs_network = n, cs_challenge = c, cs_nonce = nonce,
               cs_issued_at_ms = issued, cs_preferred_localpart = l, cs_display_name = d\<rparr>
      | _ \<Rightarrow> Inl (SynapseError 500 ''Invalid XRPL login session payload''))"

fun is_StoreError :: "py_error \<Rightarrow> bool" where
  "is_StoreError (StoreError c m) = True"
| "is_StoreError _ = False"

definition consume_challenge_session :: "auth_inputs \<Rightarrow> string \<Rightarrow> (server_state, XrplChallengeSession) eff" where
  "consume_challenge_session inp session_id =
     ebind (ecatch (consume_session (at_consume inp) SESSION_TYPE session_id)
       (\<lambda>e. if is_StoreError e then eraise (LoginError 403 ''Invalid or expired XRPL login session'')
             else eraise e)) (\<lambda>session.
       case session of
         JDict d \<Rightarrow> elift (parse_session d)
       | _ \<Rightarrow> eraise (SynapseError 500 ''Invalid XRPL login session data''))"

definition validate_consumed_session ::
    "xrpl_config \<Rightarrow> auth_inputs \<Rightarrow> XrplChallengeSession \<Rightarrow> string \<Rightarrow> json \<Rightarrow> unit res" where
  "validate_consumed_session cfg inp c address network =
     rbind (if network = JNull then Inr (cs_network c) else validate_network network) (\<lambda>normalized_network.
     rbind (raise_if (cs_address c \<noteq> address)
       (LoginError 403 ''XRPL login address does not match the issued challenge'')) (\<lambda>_.
     rbind (raise_if (cs_network c \<noteq> normalized_network)
       (LoginError 403 ''XRPL login network does not match the issued challenge'')) (\<lambda>_.
     rbind (raise_if (cs_issued_at_ms c + challenge_ttl_ms cfg < at_check inp)
       (LoginError 403 ''XRPL login challenge has expired'')) (\<lambda>_.
       raise_if (\<not> str_in (''nonce:'' @ cs_nonce c) (cs_challenge c))
         (SynapseError 500 ''XRPL login challenge is malformed'')))))"

definition is_localpart_available :: "server_env \<Rightarrow> string \<Rightarrow> server_state \<Rightarrow> bool" where
  "is_localpart_available env l s \<longleftrightarrow> check_user_exists (to_user_id env l) s = None"

text \<open>The base name, then the suffixes 2 to 99.\<close>

definition suffixed :: "string \<Rightarrow> int \<Rightarrow> string" where
  "suffixed base i = base @ ''_'' @ string_of_int i"

definition allocate_localpart :: "server_env \<Rightarrow> string \<Rightarrow> server_state \<Rightarrow> string res" where
  "allocate_localpart env base s =
     (if is_localpart_available env base s then Inr base
      else (case find (\<lambda>i. is_localpart_available env (suffixed base i) s) [2..99] of
        None \<Rightarrow> Inl (SynapseError 500 ''Unable to allocate an XRPL-backed Matrix user ID'')
      | Some i \<Rightarrow> Inr (suffixed base i)))"

definition allocate_preferred_localpart :: "server_env \<Rightarrow> string option \<Rightarrow> server_state \<Rightarrow> string option res" where
  "allocate_preferred_localpart env preferred_localpart s = (case preferred_localpart of
       None \<Rightarrow> Inr None
     | Some l \<Rightarrow> rbind (check_username env l s) (\<lambda>_. Inr (Some l)))"

definition register_wallet_user ::
    "server_env \<Rightarrow> string \<Rightarrow> string \<Rightarrow> string option \<Rightarrow> string option \<Rightarrow> (server_state, string) eff" where
  "register_wallet_user env address network preferred_localpart display_name =
     ebind (egets (allocate_preferred_localpart env preferred_localpart)) (\<lambda>r. ebind (elift r) (\<lambda>preferred.
     ebind (case preferred of
              Some l \<Rightarrow> eret l
            | None \<Rightarrow>
                ebind (elift (sanitize_localpart (''wallet_'' @ network @ ''_'' @ last_chars 12 address))) (\<lambda>base.
                ebind (egets (allocate_localpart env base)) (\<lambda>r. elift r))) (\<lambda>l.
       register_user env l display_name)))"

definition validate_existing_wallet_link_preferences :: "string \<Rightarrow> XrplChallengeSession \<Rightarrow> unit res" where
  "validate_existing_wallet_link_preferences user_id c = (case cs_preferred_localpart c of
       None \<Rightarrow> Inr ()
     | Some l \<Rightarrow> rbind (UserID_from_string user_id) (\<lambda>u.
         raise_if (localpart u \<noteq> l)
           (LoginError 403 ''This wallet is already linked; requested username does not match.'')))"

abbreviation WALLET_IDENTITY_ACCOUNT_DATA_TYPE :: string where
  "WALLET_IDENTITY_ACCOUNT_DATA_TYPE \<equiv> ''org.textrp.wallet.identity''"
abbreviation WALLET_E2EE_RECOVERY_ACCOUNT_DATA_TYPE :: string where
  "WALLET_E2EE_RECOVERY_ACCOUNT_DATA_TYPE \<equiv> ''org.textrp.wallet.e2ee_recovery.v1''"
abbreviation XRPL_WALLET_ACCOUNT_DATA_TYPE :: string where
  "XRPL_WALLET_ACCOUNT_DATA_TYPE \<equiv> ''org.textrp.xrpl.wallet''"

definition build_wallet_identity_payload ::
    "string \<Rightarrow> string \<Rightarrow> string option \<Rightarrow> string option \<Rightarrow> string option \<Rightarrow> json" where
  "build_wallet_identity_payload chain_id account_id public_key network key_type = JDict
     [(''chain_id'', JStr chain_id), (''account_id'', JStr account_id),
      (''public_key'', opt_json public_key), (''network'', opt_json network), (''key_type'', opt_json key_type)]"

text \<open>The three checks of the request itself, before any lookup.\<close>

definition check_submission :: "json_dict \<Rightarrow> (string \<times> string \<times> string option) res" where
  "check_submission login_submission =
     (case field_of login_submission ''session'' of
        JStr session_id \<Rightarrow>
          if session_id = [] then Inl (SynapseError 400 ''Missing session'')
          else (case field_of login_submission ''signature'' of
            JStr signature \<Rightarrow>
              if signature = [] then Inl (SynapseError 400 ''Missing signature'')
              else (case as_opt_str (field_of login_submission ''public_key'') of
                None \<Rightarrow> Inl (SynapseError 400 ''Invalid public_key'')
              | Some public_key \<Rightarrow> Inr (session_id, signature, public_key))
          | _ \<Rightarrow> Inl (SynapseError 400 ''Missing signature''))
      | _ \<Rightarrow> Inl (SynapseError 400 ''Missing session''))"

text \<open>\<open>public_key or (wallet_link.get("public_key") if wallet_link is not None else None)\<close>.\<close>

definition known_public_key :: "string option \<Rightarrow> wallet_link option \<Rightarrow> string option" where
  "known_public_key public_key link =
     (if public_key \<noteq> None \<and> public_key \<noteq> Some [] then public_key
      else (case link of None \<Rightarrow> None | Some w \<Rightarrow> wl_public_key w))"

definition login_user ::
    "xrpl_config \<Rightarrow> XrplChallengeSession \<Rightarrow> string \<Rightarrow> wallet_link option \<Rightarrow> (server_state, string) eff" where
  "login_user cfg c address link = (case link of
       Some w \<Rightarrow> ebind (elift (validate_existing_wallet_link_preferences (wl_user_id w) c)) (\<lambda>_.
                   eret (wl_user_id w))
     | None \<Rightarrow>
         if \<not> allow_account_creation cfg
         then eraise (LoginError 403 ''This wallet is not linked to a Matrix account'')
         else register_wallet_user (xc_server cfg) address (cs_network c)
                (cs_preferred_localpart c) (cs_display_name c))"

definition complete_auth :: "xrpl_config \<Rightarrow> auth_inputs \<Rightarrow> json_dict \<Rightarrow> (server_state, string) eff" where
  "complete_auth cfg inp login_submission =
     ebind (elift (check_submission login_submission)) (\<lambda>(session_id, signature, public_key).
     ebind (elift (validate_account_id (xc_lib cfg) (field_of login_submission ''address''))) (\<lambda>address.
     ebind (consume_challenge_session inp session_id) (\<lambda>c.
     ebind (elift (validate_consumed_session cfg inp c address (field_of login_submission ''network''))) (\<lambda>_.
     ebind (get_wallet_link_by_address address (cs_network c)) (\<lambda>link.
     ebind (elift (verify_login_proof (xc_lib cfg) address (cs_challenge c) signature
       (known_public_key public_key link))) (\<lambda>key.
     ebind (login_user cfg c address link) (\<lambda>user_id.
     ebind (upsert_wallet_link user_id address (cs_network c) (Some key) (at_link inp)) (\<lambda>_.
     ebind (add_account_data_for_user user_id XRPL_WALLET_ACCOUNT_DATA_TYPE (JDict
       [(''address'', JStr address), (''network'', JStr (cs_network c)), (''public_key'', JStr key)])) (\<lambda>_.
     ebind (add_account_data_for_user user_id WALLET_IDENTITY_ACCOUNT_DATA_TYPE
       (build_wallet_identity_payload CHAIN_ID address (Some key) (Some (cs_network c)) None)) (\<lambda>_.
     ebind (if dhas login_submission ''wallet_e2ee_recovery''
       then ebind (elift (validate_wallet_recovery_envelope (xc_float_repr cfg)
                (field_of login_submission ''wallet_e2ee_recovery'') CHAIN_ID address)) (\<lambda>envelope.
              add_account_data_for_user user_id WALLET_E2EE_RECOVERY_ACCOUNT_DATA_TYPE envelope)
       else eret ()) (\<lambda>_.
       eret user_id)))))))))))"

section \<open>The endpoint\<close>

text \<open>What a login answers: the challenge with status 401, or what \<open>_complete_login\<close> answers.\<close>

datatype 'r login_result = ChallengeIssued string string | LoggedIn 'r

definition do_xrpl_login ::
    "xrpl_config \<Rightarrow> auth_inputs \<Rightarrow> (string \<Rightarrow> json_dict \<Rightarrow> (server_state, 'r) eff) \<Rightarrow> json_dict
     \<Rightarrow> (server_state, 'r login_result) eff" where
  "do_xrpl_login cfg inp complete_login login_submission =
     (if \<not> xc_enabled cfg then eraise (SynapseError 400 ''Unknown login type'')
      else if is_initial_request login_submission then
        ebind (issue_challenge cfg inp (field_of login_submission ''address'')
          (field_of login_submission ''network'') (field_of login_submission ''preferred_localpart'')
          (field_of login_submission ''username'') (field_of login_submission ''display_name''))
          (\<lambda>(session_id, challenge). eret (ChallengeIssued session_id challenge))
      else
        ebind (complete_auth cfg inp login_submission) (\<lambda>user_id.
        ebind (complete_login user_id login_submission) (\<lambda>r. eret (LoggedIn r))))"

end
