(* ===== verification/Xrpl_Auth_Props.thy ===== *)
theory Xrpl_Auth_Props
  imports Xrpl_Auth Ratelimiter_Props
begin

text \<open>
  What a wallet login that succeeds shows, and what it changes. The lemmas take a completed login
  apart step by step; the runs at the end put issued challenges and completed logins in sequence.
\<close>

section \<open>Proofs of ownership\<close>

text \<open>A signature of the challenge by the key the address is derived from.\<close>

definition signs_challenge :: "xrpl_lib \<Rightarrow> string \<Rightarrow> string \<Rightarrow> string \<Rightarrow> string \<Rightarrow> bool" where
  "signs_challenge lib address challenge signature key \<longleftrightarrow>
     derive_classic_address lib (py_upper key) = Some address \<and>
     (\<exists>sig. bytes_fromhex signature = Inr sig \<and>
        (case ed25519_key_hex (py_upper key) of
           Some k \<Rightarrow> (\<exists>bytes. bytes_fromhex k = Inr bytes \<and> length bytes = 32 \<and>
                       ed25519_verifies lib bytes sig (utf8_encode challenge))
         | None \<Rightarrow> is_valid_message lib (utf8_encode challenge) sig (py_upper key) = Some True))"

text \<open>
  A transaction with the address as its account, signed by the key it names. Nothing ties the key to
  the address or the transaction to the challenge.
\<close>

definition signs_transaction :: "xrpl_lib \<Rightarrow> string \<Rightarrow> string \<Rightarrow> string \<Rightarrow> bool" where
  "signs_transaction lib address signature key \<longleftrightarrow>
     (\<exists>tx txn_sig to_sign msg sig. decode_tx_blob lib signature = Some (JDict tx) \<and>
        dget tx ''Account'' = Some (JStr address) \<and> dget tx ''SigningPubKey'' = Some (JStr key) \<and>
        dget tx ''TxnSignature'' = Some (JStr txn_sig) \<and> encode_for_signing lib tx = Some to_sign \<and>
        bytes_fromhex to_sign = Inr msg \<and> bytes_fromhex txn_sig = Inr sig \<and>
        is_valid_message lib msg sig (py_upper key) = Some True)"

lemma verify_signature_ok:
  "verify_signature lib address challenge signature key = Inr u
     \<longleftrightarrow> signs_challenge lib address challenge signature key"
  by (cases "bytes_fromhex signature")
     (auto simp: verify_signature_def signs_challenge_def Let_def split: option.splits sum.splits)

lemma try_verify_signin_tx_ok:
  assumes "try_verify_signin_tx lib signature address = Some key"
  shows "signs_transaction lib address signature key"
  using assms unfolding try_verify_signin_tx_def signs_transaction_def
  by (auto split: sum.splits if_splits option.splits json.splits)

lemma verify_login_proof_ok:
  "verify_login_proof lib address challenge signature public_key = Inr key \<Longrightarrow>
     signs_transaction lib address signature key \<or>
     public_key = Some key \<and> signs_challenge lib address challenge signature key"
  unfolding verify_login_proof_def
  by (auto simp: verify_signature_ok split: option.splits if_splits dest: try_verify_signin_tx_ok)

lemma validate_account_id_ok:
  "validate_account_id lib v = Inr a \<longleftrightarrow> v = JStr a \<and> a \<noteq> [] \<and> is_valid_classic_address lib a"
  by (cases "(lib, v)" rule: validate_account_id.cases) auto

lemma validate_network_ok:
  "validate_network v = Inr n \<Longrightarrow> n \<in> set SUPPORTED_NETWORKS"
  by (cases v rule: validate_network.cases) (auto split: if_splits)

section \<open>User names\<close>

definition good_localpart :: "string \<Rightarrow> bool" where
  "good_localpart l \<longleftrightarrow> l \<noteq> [] \<and> \<not> contains_invalid_mxid_characters l
     \<and> hd l \<noteq> CHR ''_'' \<and> last l \<noteq> CHR ''_''"

lemma sanitize_char_valid: "mxid_char (sanitize_char c)"
  by (auto simp: sanitize_char_def mxid_char_def)

lemma sanitize_localpart_good:
  assumes "sanitize_localpart v = Inr l"
  shows "good_localpart l"
proof -
  have l: "l = sanitize_text v" "l \<noteq> []"
    using assms by (auto simp: sanitize_localpart_def Let_def split: if_splits)
  have "c \<in> set l \<Longrightarrow> mxid_char c" for c
    using set_strip_if[of _ "map sanitize_char (py_lower v)"] sanitize_char_valid
    by (auto simp: l(1) sanitize_text_def)
  moreover have "hd l \<noteq> CHR ''_'' \<and> last l \<noteq> CHR ''_''"
    using strip_if_ends[of "\<lambda>c. c = CHR ''_''" "map sanitize_char (py_lower v)"] l
    by (auto simp: sanitize_text_def)
  ultimately show ?thesis
    using l(2) by (auto simp: good_localpart_def contains_invalid_mxid_characters_def list_ex_iff)
qed

section \<open>Registration\<close>

lemma lower_refl_in_users:
  "u \<in> set (users s) \<Longrightarrow> get_users_by_id_case_insensitive u s \<noteq> []"
  by (auto simp: get_users_by_id_case_insensitive_def filter_empty_conv)

lemma check_username_ok:
  "check_username env l s = Inr u \<Longrightarrow>
     \<not> contains_invalid_mxid_characters l \<and> l \<noteq> [] \<and> to_user_id env l \<notin> set (users s)"
  by (auto simp: check_username_def dest: lower_refl_in_users)

definition registered :: "string \<Rightarrow> server_state \<Rightarrow> server_state \<Rightarrow> bool" where
  "registered user_id s t \<longleftrightarrow> user_id \<notin> set (users s) \<and> (\<exists>names. t =
     s\<lparr>users := users s @ [user_id], display_names := names\<rparr>)"

lemma register_user_outcome:
  assumes "register_user env l d s = (r, t)"
  shows "t = s \<and> (\<exists>e. r = Inl e) \<or> registered (to_user_id env l) s t
    \<and> (r = Inr (to_user_id env l) \<or> (\<exists>e. r = Inl e))"
proof (cases r)
  case (Inl e)
  with assms have "fails (register_user env l d) s e t" by simp
  then show ?thesis unfolding register_user_def Let_def
    by (auto simp: eff_simps registered_def Inl dest: check_username_ok)
next
  case (Inr u)
  with assms have "yields (register_user env l d) s u t" by simp
  then show ?thesis unfolding register_user_def Let_def
    by (auto simp: eff_simps registered_def Inr dest: check_username_ok)
qed

lemma register_user_yields:
  "yields (register_user env l d) s u t \<Longrightarrow>
     u = to_user_id env l \<and> registered u s t \<and> \<not> contains_invalid_mxid_characters l \<and> l \<noteq> []"
  unfolding register_user_def Let_def
  by (auto simp: eff_simps registered_def dest: check_username_ok)

lemma register_wallet_user_outcome:
  assumes "register_wallet_user env a n p d s = (r, t)"
  shows "t = s \<and> (\<exists>e. r = Inl e) \<or>
    (\<exists>u. registered u s t \<and> (r = Inr u \<or> (\<exists>e. r = Inl e)))"
proof (cases r)
  case (Inl e)
  with assms have "fails (register_wallet_user env a n p d) s e t" by simp
  then show ?thesis unfolding register_wallet_user_def
    by (auto simp: eff_simps Inl split: option.splits dest!: register_user_outcome)
next
  case (Inr u)
  with assms have "yields (register_wallet_user env a n p d) s u t" by simp
  then show ?thesis unfolding register_wallet_user_def
    by (auto simp: eff_simps Inr split: option.splits dest!: register_user_outcome)
qed

section \<open>A login step by step\<close>

lemma consume_session_cases:
  "yields (consume_session now ty sid) s v t \<longleftrightarrow>
     (\<exists>expiry. dget (sessions s) (ty, sid) = Some (v, expiry) \<and> now < expiry \<and>
        t = s\<lparr>sessions := dpop (ty, sid) (sessions s)\<rparr>)"
  "fails (consume_session now ty sid) s e t \<longleftrightarrow>
     t = s \<and> e = StoreError 404 ''No session'' \<and>
     (\<forall>v expiry. dget (sessions s) (ty, sid) = Some (v, expiry) \<longrightarrow> expiry \<le> now)"
  by (auto simp: consume_session_def eff_simps not_less split: option.splits if_splits)

lemma session_data_cases:
  "yields (case v of JDict d \<Rightarrow> elift (parse_session d) | _ \<Rightarrow> eraise e) s c t
     \<longleftrightarrow> (\<exists>d. v = JDict d \<and> parse_session d = Inr c \<and> t = s)"
  "fails (case v of JDict d \<Rightarrow> elift (parse_session d) | _ \<Rightarrow> eraise e) s e' t \<Longrightarrow> t = s"
  by (cases v; auto simp: eff_simps)+

lemma consume_challenge_session_cases:
  "yields (consume_challenge_session inp sid) s c t \<longleftrightarrow>
     (\<exists>d expiry. dget (sessions s) (SESSION_TYPE, sid) = Some (JDict d, expiry) \<and> at_consume inp < expiry \<and>
        parse_session d = Inr c \<and> t = s\<lparr>sessions := dpop (SESSION_TYPE, sid) (sessions s)\<rparr>)"
  "fails (consume_challenge_session inp sid) s e t \<Longrightarrow>
     t = s \<or> t = s\<lparr>sessions := dpop (SESSION_TYPE, sid) (sessions s)\<rparr>"
  unfolding consume_challenge_session_def
  by (auto simp: eff_simps consume_session_cases session_data_cases(1) split: if_splits
      dest!: session_data_cases(2))

lemma login_user_outcome:
  assumes "login_user cfg c a link s = (r, t)"
  shows "case link of
      Some w \<Rightarrow> t = s \<and> (r = Inr (wl_user_id w) \<or> (\<exists>e. r = Inl e))
    | None \<Rightarrow> t = s \<and> (\<exists>e. r = Inl e) \<or> (\<exists>u. registered u s t \<and> (r = Inr u \<or> (\<exists>e. r = Inl e)))"
proof (cases link)
  case None
  with assms show ?thesis
    by (auto simp: login_user_def elift_def split: if_splits dest: register_wallet_user_outcome)
next
  case (Some w)
  with assms show ?thesis
    by (cases "validate_existing_wallet_link_preferences (wl_user_id w) c")
       (auto simp: login_user_def ebind_def elift_def eret_def)
qed

definition login_effects ::
    "auth_inputs \<Rightarrow> string \<Rightarrow> string \<Rightarrow> string \<Rightarrow> string \<Rightarrow> server_state \<Rightarrow> server_state \<Rightarrow> bool" where
  "login_effects inp u a n key s t \<longleftrightarrow> (\<exists>ad. t = s\<lparr>wallet_links := dset (a, n)
     \<lparr>wl_user_id = u, wl_public_key = Some key, wl_linked_at = at_link inp\<rparr> (wallet_links s), account_data := ad\<rparr>)"

text \<open>The part of a login after the signature has been checked.\<close>

definition finish_login ::
    "xrpl_config \<Rightarrow> auth_inputs \<Rightarrow> json_dict \<Rightarrow> string \<Rightarrow> XrplChallengeSession \<Rightarrow> string \<Rightarrow> string
     \<Rightarrow> (server_state, string) eff" where
  "finish_login cfg inp login_submission address c key user_id =
     ebind (upsert_wallet_link user_id address (cs_network c) (Some key) (at_link inp)) (\<lambda>_.
     ebind (add_account_data_for_user user_id XRPL_WALLET_ACCOUNT_DATA_TYPE (JDict
       [(''address'', JStr address), (''network'', JStr (cs_network c)), (''public_key'', JStr key)])) (\<lambda>_.
     ebind (add_account_data_for_user user_id WALLET_IDENTITY_ACCOUNT_DATA_TYPE
       (build_wallet_identity_payload CHAIN_ID address (Some key) (Some (cs_network c)) None)) (\<lambda>_.
     ebind (if dhas login_submission ''wallet_e2ee_recovery''
       then ebind (elift (validate_wallet_recovery_envelope (xc_float_repr cfg)
                (field_of login_submission ''wallet_e2ee_recovery'') CHAIN_ID address)) (\<lambda>envelope.
              add_account_data_for_user user_id WALLET_E2EE_RECOVERY_ACCOUNT_DATA_TYPE envelope)
       else eret ()) (\<lambda>_.
       eret user_id))))"

lemma finish_login_outcome:
  assumes "finish_login cfg inp sub a c key u s = (r, t)"
  shows "login_effects inp u a (cs_network c) key s t \<and> (r = Inr u \<or> (\<exists>e. r = Inl e))"
proof (cases r)
  case (Inl e)
  with assms have "fails (finish_login cfg inp sub a c key u) s e t" by simp
  then show ?thesis
    by (auto simp: finish_login_def eff_simps login_effects_def upsert_wallet_link_def
        add_account_data_for_user_def Inl split: if_splits)
next
  case (Inr v)
  with assms have "yields (finish_login cfg inp sub a c key u) s v t" by simp
  then show ?thesis
    by (auto simp: finish_login_def eff_simps login_effects_def upsert_wallet_link_def
        add_account_data_for_user_def Inr split: if_splits)
qed

lemma complete_auth_unfold:
  "complete_auth cfg inp sub =
     ebind (elift (check_submission sub)) (\<lambda>(sid, sig, pk).
     ebind (elift (validate_account_id (xc_lib cfg) (field_of sub ''address''))) (\<lambda>a.
     ebind (consume_challenge_session inp sid) (\<lambda>c.
     ebind (elift (validate_consumed_session cfg inp c a (field_of sub ''network''))) (\<lambda>_.
     ebind (get_wallet_link_by_address a (cs_network c)) (\<lambda>link.
     ebind (elift (verify_login_proof (xc_lib cfg) a (cs_challenge c) sig (known_public_key pk link))) (\<lambda>key.
     ebind (login_user cfg c a link) (finish_login cfg inp sub a c key)))))))"
  unfolding complete_auth_def finish_login_def ..

text \<open>What a login proves when it succeeds.\<close>

definition login_checked ::
    "xrpl_config \<Rightarrow> auth_inputs \<Rightarrow> json_dict \<Rightarrow> server_state \<Rightarrow> string \<Rightarrow> string \<Rightarrow> XrplChallengeSession
     \<Rightarrow> string \<Rightarrow> bool" where
  "login_checked cfg inp sub s sid a c key \<longleftrightarrow>
     (\<exists>d expiry sig pk. check_submission sub = Inr (sid, sig, pk) \<and>
        validate_account_id (xc_lib cfg) (field_of sub ''address'') = Inr a \<and>
        dget (sessions s) (SESSION_TYPE, sid) = Some (JDict d, expiry) \<and> at_consume inp < expiry \<and>
        parse_session d = Inr c \<and> validate_consumed_session cfg inp c a (field_of sub ''network'') = Inr () \<and>
        verify_login_proof (xc_lib cfg) a (cs_challenge c) sig
          (known_public_key pk (dget (wallet_links s) (a, cs_network c))) = Inr key)"

lemma complete_auth_yields:
  assumes "yields (complete_auth cfg inp sub) s u t"
  shows "\<exists>sid a c key s2. login_checked cfg inp sub s sid a c key \<and>
    yields (login_user cfg c a (dget (wallet_links s) (a, cs_network c)))
      (s\<lparr>sessions := dpop (SESSION_TYPE, sid) (sessions s)\<rparr>) u s2 \<and>
    login_effects inp u a (cs_network c) key s2 t"
  using assms unfolding complete_auth_unfold login_checked_def
  by (fastforce simp: eff_simps consume_challenge_session_cases get_wallet_link_by_address_def
      dest: finish_login_outcome split: prod.splits)

lemma validate_consumed_session_ok:
  assumes "validate_consumed_session cfg inp c a net = Inr u"
  shows "cs_address c = a" and "at_check inp \<le> cs_issued_at_ms c + challenge_ttl_ms cfg"
    and "str_in (''nonce:'' @ cs_nonce c) (cs_challenge c)"
    and "net = JNull \<or> validate_network net = Inr (cs_network c)"
  using assms by (auto simp: validate_consumed_session_def split: if_splits)

lemma registered_frame:
  "registered u s t \<Longrightarrow> sessions t = sessions s \<and> wallet_links t = wallet_links s
     \<and> users t = users s @ [u] \<and> u \<notin> set (users s) \<and> wallet_limiter t = wallet_limiter s"
  by (auto simp: registered_def)

lemma login_user_frame:
  assumes "login_user cfg c a link s = (r, t)"
  shows "sessions t = sessions s \<and> wallet_links t = wallet_links s \<and> wallet_limiter t = wallet_limiter s
    \<and> (users t = users s \<or> (\<exists>u. link = None \<and> u \<notin> set (users s) \<and> users t = users s @ [u]))"
  using login_user_outcome[OF assms] by (auto split: option.splits dest: registered_frame)

lemma login_effects_frame:
  "login_effects inp u a n key s t \<Longrightarrow> sessions t = sessions s \<and> users t = users s
     \<and> wallet_limiter t = wallet_limiter s \<and>
     dget (wallet_links t) k = (if k = (a, n)
       then Some \<lparr>wl_user_id = u, wl_public_key = Some key, wl_linked_at = at_link inp\<rparr>
       else dget (wallet_links s) k)"
  by (auto simp: login_effects_def)

text \<open>Everything a login can do to the server, whether it succeeds or not.\<close>

definition login_outcome ::
    "xrpl_config \<Rightarrow> auth_inputs \<Rightarrow> json_dict \<Rightarrow> server_state \<Rightarrow> string res \<Rightarrow> server_state \<Rightarrow> bool" where
  "login_outcome cfg inp sub s r t \<longleftrightarrow>
     t = s \<and> (\<exists>e. r = Inl e) \<or>
     (\<exists>sid. t = s\<lparr>sessions := dpop (SESSION_TYPE, sid) (sessions s)\<rparr> \<and> (\<exists>e. r = Inl e)) \<or>
     (\<exists>sid a c key r' s2. login_checked cfg inp sub s sid a c key \<and>
        login_user cfg c a (dget (wallet_links s) (a, cs_network c))
          (s\<lparr>sessions := dpop (SESSION_TYPE, sid) (sessions s)\<rparr>) = (r', s2) \<and>
        (case r' of Inl e \<Rightarrow> r = Inl e \<and> t = s2
         | Inr u \<Rightarrow> login_effects inp u a (cs_network c) key s2 t \<and> (r = Inr u \<or> (\<exists>e. r = Inl e))))"

lemma login_outcome_early:
  "login_outcome cfg inp sub s (Inl e) s"
  "login_outcome cfg inp sub s (Inl e) (s\<lparr>sessions := dpop (SESSION_TYPE, sid) (sessions s)\<rparr>)"
  unfolding login_outcome_def by blast+

lemma login_outcome_checked:
  assumes "login_checked cfg inp sub s sid a c key"
    and "login_user cfg c a (dget (wallet_links s) (a, cs_network c))
          (s\<lparr>sessions := dpop (SESSION_TYPE, sid) (sessions s)\<rparr>) = (r', s2)"
    and "ebind (elift r') (finish_login cfg inp sub a c key) s2 = (r, t)"
  shows "login_outcome cfg inp sub s r t"
proof -
  have "case r' of Inl e \<Rightarrow> r = Inl e \<and> t = s2
      | Inr u \<Rightarrow> login_effects inp u a (cs_network c) key s2 t \<and> (r = Inr u \<or> (\<exists>e. r = Inl e))"
    using assms(3) finish_login_outcome by (cases r') (auto simp: eff_run)
  with assms(1,2) show ?thesis unfolding login_outcome_def by blast
qed

lemma ebind_split: "m s = (r, t) \<Longrightarrow> ebind m f s = ebind (elift r) f t"
  by (simp add: ebind_def elift_def split: sum.splits)

lemma complete_auth_outcome:
  assumes "complete_auth cfg inp sub s = (r, t)"
  shows "login_outcome cfg inp sub s r t"
proof -
  note run = assms[unfolded complete_auth_unfold]
  show ?thesis
  proof (cases "check_submission sub")
    case (Inl e)
    with run show ?thesis by (auto simp: eff_run intro: login_outcome_early)
  next
    case sub: (Inr p)
    obtain sid sig pk where p: "p = (sid, sig, pk)" by (metis prod_cases3)
    show ?thesis
    proof (cases "validate_account_id (xc_lib cfg) (field_of sub ''address'')")
      case (Inl e)
      then have "(r, t) = (Inl e, s)" using run by (simp add: eff_run sub p)
      then show ?thesis by (simp add: login_outcome_early)
    next
      case a: (Inr a)
      obtain cr s1 where c: "consume_challenge_session inp sid s = (cr, s1)" by (metis surj_pair)
      note run1 = run[unfolded sub p a eff_run prod.case ebind_split[of "consume_challenge_session inp sid", OF c]]
      show ?thesis
      proof (cases cr)
        case (Inl e)
        with run1 c consume_challenge_session_cases(2)[of inp sid s e s1] show ?thesis
          by (auto simp: eff_run intro: login_outcome_early)
      next
        case cs: (Inr cs)
        with c have "yields (consume_challenge_session inp sid) s cs s1" by simp
        then obtain d expiry where d: "dget (sessions s) (SESSION_TYPE, sid) = Some (JDict d, expiry)"
            "at_consume inp < expiry" "parse_session d = Inr cs"
            and s1: "s1 = s\<lparr>sessions := dpop (SESSION_TYPE, sid) (sessions s)\<rparr>"
          by (auto simp: consume_challenge_session_cases(1))
        let ?link = "dget (wallet_links s) (a, cs_network cs)"
        let ?v = "validate_consumed_session cfg inp cs a (field_of sub ''network'')"
        let ?k = "verify_login_proof (xc_lib cfg) a (cs_challenge cs) sig (known_public_key pk ?link)"
        have link: "wallet_links s1 = wallet_links s" by (simp add: s1)
        note run2 = run1[unfolded cs eff_run get_wallet_link_by_address_def link]
        show ?thesis
        proof (cases ?v)
          case (Inl e)
          with run2 show ?thesis by (auto simp: eff_run s1 intro: login_outcome_early)
        next
          case v: (Inr u)
          show ?thesis
          proof (cases ?k)
            case (Inl e)
            then have "(r, t) = (Inl e, s1)" using run2 v by (simp add: eff_run link)
            then show ?thesis by (simp add: s1 login_outcome_early)
          next
            case k: (Inr key)
            obtain r' s2 where lu: "login_user cfg cs a ?link s1 = (r', s2)" by (metis surj_pair)
            have "login_checked cfg inp sub s sid a cs key"
              unfolding login_checked_def using sub p a d v k by auto
            moreover have "ebind (elift r') (finish_login cfg inp sub a cs key) s2 = (r, t)"
              using run2 v k by (simp add: eff_run link ebind_split[of "login_user cfg cs a ?link", OF lu])
            ultimately show ?thesis using lu unfolding s1 by (metis login_outcome_checked)
          qed
        qed
      qed
    qed
  qed
qed

end
