(* ===== verification/Xrpl_Auth_Theorems.thy ===== *)
theory Xrpl_Auth_Theorems
  imports Xrpl_Auth_Props
begin

text \<open>
  The properties of the wallet login: what a successful login proves, that an account never changes
  hands and belongs to one wallet, that a login answers a challenge that was issued to its address
  and not used before, and that the challenges an address can ask for are limited.
\<close>

section \<open>One login\<close>

text \<open>
  C4. A wallet login that succeeds was made with a session that existed and had not expired, issued
  to the address of the request, at most the configured time before; the session is gone afterwards.
  The request carried either a signature of the session's challenge by a key from which the address
  derives, or a signed transaction that names the address as its account. The user is the one the
  wallet was linked to before, or, where accounts may be created, a new one whose identifier no user
  had; afterwards the wallet is linked to the user and no other link has changed.
\<close>

theorem wallet_login_sound:
  assumes "yields (complete_auth cfg inp sub) s u t"
  shows "\<exists>sid sig pk a d expiry c key.
    check_submission sub = Inr (sid, sig, pk) \<and> field_of sub ''address'' = JStr a \<and>
    is_valid_classic_address (xc_lib cfg) a \<and>
    dget (sessions s) (SESSION_TYPE, sid) = Some (JDict d, expiry) \<and> at_consume inp < expiry \<and>
    parse_session d = Inr c \<and> cs_address c = a \<and>
    at_check inp \<le> cs_issued_at_ms c + challenge_ttl_ms cfg \<and>
    dget (sessions t) (SESSION_TYPE, sid) = None \<and>
    (signs_challenge (xc_lib cfg) a (cs_challenge c) sig key \<or> signs_transaction (xc_lib cfg) a sig key) \<and>
    (case dget (wallet_links s) (a, cs_network c) of
       Some w \<Rightarrow> u = wl_user_id w \<and> users t = users s
     | None \<Rightarrow> allow_account_creation cfg \<and> u \<notin> set (users s) \<and> users t = users s @ [u]) \<and>
    (\<forall>k. dget (wallet_links t) k = (if k = (a, cs_network c)
       then Some \<lparr>wl_user_id = u, wl_public_key = Some key, wl_linked_at = at_link inp\<rparr>
       else dget (wallet_links s) k))"
proof -
  obtain sid a c key s2 where chk: "login_checked cfg inp sub s sid a c key"
    and lu: "yields (login_user cfg c a (dget (wallet_links s) (a, cs_network c)))
      (s\<lparr>sessions := dpop (SESSION_TYPE, sid) (sessions s)\<rparr>) u s2"
    and eff: "login_effects inp u a (cs_network c) key s2 t"
    using complete_auth_yields[OF assms] by blast
  obtain d expiry sig pk where *: "check_submission sub = Inr (sid, sig, pk)"
      "validate_account_id (xc_lib cfg) (field_of sub ''address'') = Inr a"
      "dget (sessions s) (SESSION_TYPE, sid) = Some (JDict d, expiry)" "at_consume inp < expiry"
      "parse_session d = Inr c" "validate_consumed_session cfg inp c a (field_of sub ''network'') = Inr ()"
      "verify_login_proof (xc_lib cfg) a (cs_challenge c) sig
        (known_public_key pk (dget (wallet_links s) (a, cs_network c))) = Inr key"
    using chk unfolding login_checked_def by blast
  note lframe = login_user_frame[OF lu] and eframe = login_effects_frame[OF eff]
  have user: "case dget (wallet_links s) (a, cs_network c) of
       Some w \<Rightarrow> u = wl_user_id w \<and> users t = users s
     | None \<Rightarrow> allow_account_creation cfg \<and> u \<notin> set (users s) \<and> users t = users s @ [u]"
  proof (cases "dget (wallet_links s) (a, cs_network c)")
    case None
    then have "registered u (s\<lparr>sessions := dpop (SESSION_TYPE, sid) (sessions s)\<rparr>) s2"
      using login_user_outcome[OF lu] by simp
    moreover have "allow_account_creation cfg"
      using lu None by (simp add: login_user_def eff_simps split: if_splits)
    ultimately show ?thesis using None eframe by (auto dest: registered_frame)
  next
    case (Some w)
    then have "s2 = s\<lparr>sessions := dpop (SESSION_TYPE, sid) (sessions s)\<rparr>" "u = wl_user_id w"
      using login_user_outcome[OF lu] by simp_all
    with Some eframe show ?thesis by simp
  qed
  have links: "\<forall>k. dget (wallet_links t) k = (if k = (a, cs_network c)
       then Some \<lparr>wl_user_id = u, wl_public_key = Some key, wl_linked_at = at_link inp\<rparr>
       else dget (wallet_links s) k)"
    using lframe eframe by simp
  have gone: "dget (sessions t) (SESSION_TYPE, sid) = None" using lframe eframe by simp
  have addr: "field_of sub ''address'' = JStr a" "is_valid_classic_address (xc_lib cfg) a"
    using *(2) by (simp_all add: validate_account_id_ok)
  have proof_of: "signs_challenge (xc_lib cfg) a (cs_challenge c) sig key \<or> signs_transaction (xc_lib cfg) a sig key"
    using verify_login_proof_ok[OF *(7)] by blast
  show ?thesis
    by (intro exI[of _ sid] exI[of _ sig] exI[of _ pk] exI[of _ a] exI[of _ d] exI[of _ expiry]
        exI[of _ c] exI[of _ key] conjI) (fact * user links gone addr proof_of validate_consumed_session_ok[OF *(6)])+
qed

section \<open>Accounts and wallets\<close>

text \<open>Every linked user exists, and no user is linked to two wallets.\<close>

definition exclusive :: "('k \<Rightarrow> wallet_link option) \<Rightarrow> string set \<Rightarrow> bool" where
  "exclusive f us \<longleftrightarrow>
     (\<forall>k w. f k = Some w \<longrightarrow> wl_user_id w \<in> us) \<and>
     (\<forall>k w k' w'. f k = Some w \<longrightarrow> f k' = Some w' \<longrightarrow> wl_user_id w = wl_user_id w' \<longrightarrow> k = k')"

abbreviation links_exclusive :: "server_state \<Rightarrow> bool" where
  "links_exclusive s \<equiv> exclusive (dget (wallet_links s)) (set (users s))"

lemma exclusive_update:
  assumes "exclusive f us"
    and "case f k of Some w \<Rightarrow> wl_user_id w = wl_user_id v
         | None \<Rightarrow> wl_user_id v \<in> us \<and> (\<forall>j w. f j = Some w \<longrightarrow> wl_user_id w \<noteq> wl_user_id v)"
  shows "exclusive (f(k \<mapsto> v)) us"
proof (cases "f k")
  case None
  with assms show ?thesis unfolding exclusive_def by (simp, metis)
next
  case (Some w)
  then have "wl_user_id w = wl_user_id v" using assms(2) by simp
  with Some assms(1) show ?thesis unfolding exclusive_def by (simp, metis)
qed

lemma exclusive_mono: "exclusive f us \<Longrightarrow> us \<subseteq> vs \<Longrightarrow> exclusive f vs"
  unfolding exclusive_def by blast

lemma login_effects_links:
  "login_effects inp u a n key s t \<Longrightarrow> dget (wallet_links t) = (dget (wallet_links s))((a, n) \<mapsto>
     \<lparr>wl_user_id = u, wl_public_key = Some key, wl_linked_at = at_link inp\<rparr>) \<and> users t = users s"
  using login_effects_frame by fastforce


section \<open>Runs of the wallet login\<close>

text \<open>
  The server as the wallet login sees it: challenges issued and logins completed, with those that
  fail; expired sessions deleted, rate limits pruned; and any other change to the server that leaves
  the sessions of the wallet login and its rate limiter alone. The rational number is the time.
\<close>

datatype auth_event =
    Issued rat string string string string
  | Completed string string string string

inductive auth_run ::
    "xrpl_config \<Rightarrow> server_state \<Rightarrow> auth_event list \<Rightarrow> rat \<Rightarrow> server_state \<Rightarrow> bool" for cfg s0 where
  auth_start: "auth_run cfg s0 [] now s0"
| auth_issue: "auth_run cfg s0 evs t0 s \<Longrightarrow> t0 \<le> at_limit inp \<Longrightarrow>
    yields (issue_challenge cfg inp (JStr a) net p un d) s (sid, ch) t \<Longrightarrow> validate_network net = Inr n \<Longrightarrow>
    auth_run cfg s0 (evs @ [Issued (at_limit inp) sid a n ch]) (at_limit inp) t"
| auth_issue_fails: "auth_run cfg s0 evs t0 s \<Longrightarrow> t0 \<le> at_limit inp \<Longrightarrow>
    fails (issue_challenge cfg inp a net p un d) s e t \<Longrightarrow> auth_run cfg s0 evs (at_limit inp) t"
| auth_complete: "auth_run cfg s0 evs t0 s \<Longrightarrow> yields (complete_auth cfg inp sub) s u t \<Longrightarrow>
    check_submission sub = Inr (sid, sig, pk) \<Longrightarrow> field_of sub ''address'' = JStr a \<Longrightarrow>
    auth_run cfg s0 (evs @ [Completed sid a sig u]) t0 t"
| auth_complete_fails: "auth_run cfg s0 evs t0 s \<Longrightarrow> fails (complete_auth cfg inp sub) s e t \<Longrightarrow>
    auth_run cfg s0 evs t0 t"
| auth_expire: "auth_run cfg s0 evs t0 s \<Longrightarrow> auth_run cfg s0 evs t0 (delete_expired_sessions now s)"
| auth_prune: "auth_run cfg s0 evs t0 s \<Longrightarrow> t0 \<le> now \<Longrightarrow>
    auth_run cfg s0 evs now (s\<lparr>wallet_limiter := prune_message_counts now (wallet_limiter s)\<rparr>)"
| auth_other: "auth_run cfg s0 evs t0 s \<Longrightarrow> wf_dict (sessions t) \<Longrightarrow>
    (\<And>sid. dget (sessions t) (SESSION_TYPE, sid) = dget (sessions s) (SESSION_TYPE, sid)) \<Longrightarrow>
    wallet_limiter t = wallet_limiter s \<Longrightarrow> auth_run cfg s0 evs t0 t"

text \<open>The challenge that was last issued for a session and not answered by a login since.\<close>

fun live_step :: "string \<Rightarrow> auth_event \<Rightarrow> (string \<times> string \<times> string) option \<Rightarrow>
    (string \<times> string \<times> string) option" where
  "live_step sid (Issued t sid' a n ch) cur = (if sid' = sid then Some (a, n, ch) else cur)"
| "live_step sid (Completed sid' a sig u) cur = (if sid' = sid then None else cur)"

definition live_challenge :: "auth_event list \<Rightarrow> string \<Rightarrow> (string \<times> string \<times> string) option" where
  "live_challenge evs sid = fold (live_step sid) evs None"

lemma live_simps [simp]:
  "live_challenge [] sid = None"
  "live_challenge (evs @ [Issued t sid' a n ch]) sid = (if sid' = sid then Some (a, n, ch) else live_challenge evs sid)"
  "live_challenge (evs @ [Completed sid' a sig u]) sid = (if sid' = sid then None else live_challenge evs sid)"
  by (simp_all add: live_challenge_def)

lemma parse_session_json: "session_json c = JDict d \<Longrightarrow> parse_session d = Inr c"
proof -
  assume "session_json c = JDict d"
  then have d: "d = [(''address'', JStr (cs_address c)), (''network'', JStr (cs_network c)),
      (''challenge'', JStr (cs_challenge c)), (''nonce'', JStr (cs_nonce c)),
      (''issued_at_ms'', JInt (cs_issued_at_ms c)),
      (''preferred_localpart'', opt_json (cs_preferred_localpart c)),
      (''display_name'', opt_json (cs_display_name c))]"
    by (simp add: session_json_def)
  have o: "as_opt_str (opt_json x) = Some x" for x by (cases x) simp_all
  have f: "field_of d ''address'' = JStr (cs_address c)" "field_of d ''network'' = JStr (cs_network c)"
      "field_of d ''challenge'' = JStr (cs_challenge c)" "field_of d ''nonce'' = JStr (cs_nonce c)"
      "field_of d ''issued_at_ms'' = JInt (cs_issued_at_ms c)"
      "field_of d ''preferred_localpart'' = opt_json (cs_preferred_localpart c)"
      "field_of d ''display_name'' = opt_json (cs_display_name c)"
    unfolding d dget_or_def by simp_all
  show ?thesis unfolding parse_session_def f o as_int.simps prod.case json.case option.case by simp
qed

lemma insert_session_outcome:
  "yields (insert_session n ids ty v e) s sid t \<Longrightarrow>
     \<not> dhas (sessions s) (ty, sid) \<and> t = s\<lparr>sessions := dset (ty, sid) (v, e) (sessions s)\<rparr>"
  "fails (insert_session n ids ty v e) s err t \<Longrightarrow> t = s"
  by (induction n ids ty v e rule: insert_session.induct) (auto simp: eff_simps split: if_splits)

text \<open>What a request for a challenge does to the sessions and to the limiter.\<close>

lemma record_inner_fails_keeps: "fails (record_action_inner k c st r now) l e l' \<Longrightarrow> l' = l"
  by (auto simp: record_action_inner_def eff_simps Let_def split: if_splits)

lemma check_bucket_fails_keeps: "fails (check_bucket k r b upd n now) l e l' \<Longrightarrow> l' = l"
  by (cases "get_action_counts k now l")
     (auto simp: check_bucket_def eff_simps Let_def split: if_splits dest: record_inner_fails_keeps)

lemma can_do_action_fails_keeps: "fails (can_do_action env rq k r b upd n now) l e l' \<Longrightarrow> l' = l"
  unfolding can_do_action_def Let_def
  by (auto simp: eff_simps split: if_splits dest: check_bucket_fails_keeps)

lemma ratelimit_outcome:
  assumes "ratelimit env None (Some k) None None True 1 now l = (r, l')"
  shows "l' = l \<and> (\<exists>e. r = Inl e) \<or> (\<exists>a. limiter_call env now k 1 a l l' \<and> (r = Inr () \<longrightarrow> a))"
proof (cases "can_do_action env None (Some k) None None True 1 now l")
  case (Pair q m)
  show ?thesis
  proof (cases q)
    case (Inl e)
    then show ?thesis using assms Pair can_do_action_fails_keeps[of env None "Some k" None None True 1 now l e m]
      by (auto simp: ratelimit_def ebind_def)
  next
    case (Inr p)
    obtain a nx where p: "p = (a, nx)" by (metis surj_pair)
    have "l' = m" "r = Inr () \<longrightarrow> a"
      using assms Pair Inr p by (auto simp: ratelimit_def ebind_def elift_def raise_if_def split: if_splits)
    moreover have "limiter_call env now k 1 a l m"
      unfolding limiter_call_def subject_to_limit_def using Pair Inr p by (intro exI[of _ None] exI[of _ nx]) simp
    ultimately show ?thesis by blast
  qed
qed

definition issue_effects ::
    "xrpl_config \<Rightarrow> auth_inputs \<Rightarrow> XrplChallengeSession \<Rightarrow> string \<Rightarrow> server_state \<Rightarrow> server_state \<Rightarrow> bool" where
  "issue_effects cfg inp c sid s t \<longleftrightarrow>
     sessions t = dset (SESSION_TYPE, sid) (session_json c, at_create inp + challenge_ttl_ms cfg) (sessions s)
     \<and> limiter_call (xc_limiter_env cfg) (at_limit inp) (TupleKey [cs_network c, cs_address c]) 1 True
         (wallet_limiter s) (wallet_limiter t)"

lemma issue_challenge_yields:
  assumes "yields (issue_challenge cfg inp (JStr a) net p un d) s (sid, ch) t"
    and "validate_network net = Inr n"
  shows "\<exists>c. issue_effects cfg inp c sid s t \<and> cs_address c = a \<and> cs_network c = n \<and> cs_challenge c = ch"
proof -
  obtain l' lp dn c where lim: "yields (ratelimit (xc_limiter_env cfg) None (Some (TupleKey [n, a])) None None True 1
        (at_limit inp)) (wallet_limiter s) () l'"
    and c: "build_challenge_session inp a n lp dn = Inr c" and ch: "ch = cs_challenge c"
    and cr: "yields (create_session (in_session_ids inp) (at_create inp) SESSION_TYPE (session_json c)
        (challenge_ttl_ms cfg)) (s\<lparr>wallet_limiter := l'\<rparr>) sid t"
    using assms by (auto simp: issue_challenge_def eff_simps split: if_splits)
  have "cs_address c = a" "cs_network c = n" using c by (auto simp: build_challenge_session_def)
  moreover have "issue_effects cfg inp c sid s t"
    using ratelimit_outcome[OF lim] insert_session_outcome(1)[OF cr[unfolded create_session_def]] calculation
    unfolding issue_effects_def by auto
  ultimately show ?thesis using ch by blast
qed

lemma issue_challenge_fails:
  assumes "fails (issue_challenge cfg inp a net p un d) s e t"
  shows "sessions t = sessions s \<and> (wallet_limiter t = wallet_limiter s \<or>
    (\<exists>k b. limiter_call (xc_limiter_env cfg) (at_limit inp) k 1 b (wallet_limiter s) (wallet_limiter t)))"
  using assms unfolding issue_challenge_def create_session_def
  by (auto simp: eff_simps dest!: ratelimit_outcome insert_session_outcome(2))

lemma login_outcome_frame:
  assumes "login_outcome cfg inp sub s r t"
  shows "wallet_limiter t = wallet_limiter s \<and>
    (sessions t = sessions s \<or> (\<exists>sid. sessions t = dpop (SESSION_TYPE, sid) (sessions s)))"
  using assms unfolding login_outcome_def
proof (elim disjE exE conjE)
  fix sid a key :: string and c :: XrplChallengeSession and r' and s2 :: server_state
  assume lu: "login_user cfg c a (dget (wallet_links s) (a, cs_network c))
      (s\<lparr>sessions := dpop (SESSION_TYPE, sid) (sessions s)\<rparr>) = (r', s2)"
    and r: "case r' of Inl e \<Rightarrow> r = Inl e \<and> t = s2
       | Inr u \<Rightarrow> login_effects inp u a (cs_network c) key s2 t \<and> (r = Inr u \<or> (\<exists>e. r = Inl e))"
  from r have "wallet_limiter t = wallet_limiter s2 \<and> sessions t = sessions s2"
    by (cases r') (auto dest: login_effects_frame)
  with login_user_frame[OF lu] show ?thesis by auto
qed auto

section \<open>Challenges and answers\<close>

text \<open>Every session of the wallet login in the table holds the live challenge of its identifier.\<close>

definition sessions_live :: "auth_event list \<Rightarrow> server_state \<Rightarrow> bool" where
  "sessions_live evs s \<longleftrightarrow> wf_dict (sessions s) \<and>
     (\<forall>sid v e. dget (sessions s) (SESSION_TYPE, sid) = Some (v, e) \<longrightarrow>
        (\<exists>c. v = session_json c \<and> live_challenge evs sid = Some (cs_address c, cs_network c, cs_challenge c)))"

lemma sessions_live_sub:
  assumes "sessions_live evs s" and "wf_dict (sessions t)"
    and "\<And>sid p. dget (sessions t) (SESSION_TYPE, sid) = Some p \<Longrightarrow> dget (sessions s) (SESSION_TYPE, sid) = Some p"
  shows "sessions_live evs t"
  using assms unfolding sessions_live_def by blast

lemma login_checked_session:
  "login_checked cfg inp sub s sid' a c key \<Longrightarrow> check_submission sub = Inr (sid, sig, pk) \<Longrightarrow> sid' = sid"
  unfolding login_checked_def by auto

lemma sessions_live_complete:
  assumes "sessions_live evs s" and "yields (complete_auth cfg inp sub) s u t"
    and "check_submission sub = Inr (sid, sig, pk)"
  shows "sessions_live (evs @ [Completed sid a sig u]) t"
proof -
  obtain a' c key s2 where chk: "login_checked cfg inp sub s sid a' c key"
    and lu: "yields (login_user cfg c a' (dget (wallet_links s) (a', cs_network c)))
      (s\<lparr>sessions := dpop (SESSION_TYPE, sid) (sessions s)\<rparr>) u s2"
    and eff: "login_effects inp u a' (cs_network c) key s2 t"
    using complete_auth_yields[OF assms(2)] login_checked_session[OF _ assms(3)] by blast
  have "sessions t = dpop (SESSION_TYPE, sid) (sessions s)"
    using login_user_frame[OF lu] login_effects_frame[OF eff] by simp
  with assms(1) show ?thesis unfolding sessions_live_def by auto
qed

lemma sessions_live_issue:
  assumes "sessions_live evs s" and "issue_effects cfg inp c sid s t"
  shows "sessions_live (evs @ [Issued tm sid (cs_address c) (cs_network c) (cs_challenge c)]) t"
  using assms unfolding sessions_live_def issue_effects_def by auto

lemma run_sessions_live:
  "auth_run cfg s0 evs now s \<Longrightarrow> sessions_live [] s0 \<Longrightarrow> sessions_live evs s"
proof (induction rule: auth_run.induct)
  case (auth_issue evs t0 s inp a net p un d sid ch t n)
  then obtain c where "issue_effects cfg inp c sid s t" "cs_address c = a" "cs_network c = n" "cs_challenge c = ch"
    using issue_challenge_yields by blast
  then show ?case using sessions_live_issue[of evs s cfg inp c sid t "at_limit inp"] auth_issue.IH auth_issue.prems
    by simp
next
  case (auth_issue_fails evs t0 s inp a net p un d e t)
  have "sessions t = sessions s" using issue_challenge_fails[OF auth_issue_fails.hyps(3)] by simp
  with auth_issue_fails.IH[OF auth_issue_fails.prems] show ?case unfolding sessions_live_def by simp
next
  case (auth_complete evs t0 s inp sub u t sid sig pk a)
  then show ?case using sessions_live_complete[OF _ auth_complete.hyps(2,3)] by simp
next
  case (auth_complete_fails evs t0 s inp sub e t)
  note ih = auth_complete_fails.IH[OF auth_complete_fails.prems]
  have wf: "wf_dict (sessions s)" using ih by (simp add: sessions_live_def)
  consider "sessions t = sessions s" | sid where "sessions t = dpop (SESSION_TYPE, sid) (sessions s)"
    using login_outcome_frame[OF complete_auth_outcome[OF auth_complete_fails.hyps(2)]] by blast
  then show ?case
    by cases (rule sessions_live_sub[OF ih]; simp add: wf split: if_splits)+
next
  case (auth_expire evs t0 s now)
  note ih = auth_expire.IH[OF auth_expire.prems]
  have wf: "wf_dict (sessions s)" using ih by (simp add: sessions_live_def)
  show ?case
    by (rule sessions_live_sub[OF ih])
       (simp_all add: delete_expired_sessions_def wf dget_filter_key[OF wf] split: option.splits if_splits)
next
  case (auth_prune evs t0 s now)
  then show ?case unfolding sessions_live_def by simp
next
  case (auth_other evs t0 s t)
  show ?case
    by (rule sessions_live_sub[OF auth_other.IH[OF auth_other.prems] auth_other.hyps(2)])
       (simp add: auth_other.hyps(3))
qed

lemma completed_step_general:
  "auth_run cfg s0 evs now s \<Longrightarrow> evs = xs @ [Completed sid a sig u] \<Longrightarrow>
     \<exists>t0 s1 inp sub t pk. auth_run cfg s0 xs t0 s1 \<and> yields (complete_auth cfg inp sub) s1 u t \<and>
       check_submission sub = Inr (sid, sig, pk) \<and> field_of sub ''address'' = JStr a"
proof (induction rule: auth_run.induct)
  case (auth_complete evs t0 s inp sub u' t sid' sig' pk a')
  then have "evs = xs" "u' = u" "sid' = sid" "sig' = sig" "a' = a" by simp_all
  with auth_complete.hyps show ?case
    by (intro exI[of _ t0] exI[of _ s] exI[of _ inp] exI[of _ sub] exI[of _ t] exI[of _ pk]) simp
qed simp_all

lemmas completed_step = completed_step_general[OF _ refl]

text \<open>
  C10. In every run of the server, a wallet login that succeeds answers a challenge that was issued
  under its session identifier to its address, and that no login has answered since it was issued:
  a session completes one login. The login carries a signature of that very challenge by a key of
  the address, or a signed transaction with the address as its account.
\<close>

theorem login_answers_live_challenge:
  assumes "auth_run cfg s0 (xs @ [Completed sid a sig u]) now s"
    and "wf_dict (sessions s0)" and "\<forall>i. dget (sessions s0) (SESSION_TYPE, i) = None"
  shows "\<exists>n ch key. live_challenge xs sid = Some (a, n, ch) \<and>
    (signs_challenge (xc_lib cfg) a ch sig key \<or> signs_transaction (xc_lib cfg) a sig key)"
proof -
  have live0: "sessions_live [] s0" using assms(2,3) by (simp add: sessions_live_def)
  obtain t0 s1 inp sub t pk where run: "auth_run cfg s0 xs t0 s1"
    and y: "yields (complete_auth cfg inp sub) s1 u t"
    and sub: "check_submission sub = Inr (sid, sig, pk)" "field_of sub ''address'' = JStr a"
    using completed_step[OF assms(1)] by blast
  obtain c key a' where chk: "login_checked cfg inp sub s1 sid a' c key"
    using complete_auth_yields[OF y] login_checked_session[OF _ sub(1)] by blast
  then obtain d e pk' where d: "dget (sessions s1) (SESSION_TYPE, sid) = Some (JDict d, e)"
      "parse_session d = Inr c" "validate_account_id (xc_lib cfg) (JStr a) = Inr a'"
      "validate_consumed_session cfg inp c a' (field_of sub ''network'') = Inr ()"
      "verify_login_proof (xc_lib cfg) a' (cs_challenge c) sig pk' = Inr key"
    using sub unfolding login_checked_def by auto
  have a': "a' = a" using d(3) by (simp add: validate_account_id_ok del: validate_account_id.simps)
  obtain c' where c': "JDict d = session_json c'" "live_challenge xs sid = Some (cs_address c', cs_network c', cs_challenge c')"
    using run_sessions_live[OF run live0] d(1) unfolding sessions_live_def by blast
  have "c' = c" using parse_session_json[OF c'(1)[symmetric]] d(2) by simp
  then show ?thesis
    using c'(2) validate_consumed_session_ok(1)[OF d(4)] verify_login_proof_ok[OF d(5)] a' by auto
qed

section \<open>How many challenges an address can ask for\<close>

fun issued_in :: "rat \<Rightarrow> rat \<Rightarrow> string \<Rightarrow> string \<Rightarrow> auth_event \<Rightarrow> bool" where
  "issued_in t1 t2 a n (Issued t sid a' n' ch) \<longleftrightarrow> t1 \<le> t \<and> t \<le> t2 \<and> a' = a \<and> n' = n"
| "issued_in t1 t2 a n (Completed sid a' sig u) \<longleftrightarrow> False"

text \<open>The calls of the limiter in a run, among them one that was granted for every challenge.\<close>

definition metered_run ::
    "limiter_env \<Rightarrow> Ratelimiter \<Rightarrow> auth_event list \<Rightarrow> rat \<Rightarrow> Ratelimiter \<Rightarrow> bool" where
  "metered_run env l0 evs now l \<longleftrightarrow>
     (\<exists>mevs. meter_run (limiter_call env) (limiter_idle env) l0 mevs now l \<and>
       (\<forall>t1 t2 a n. int (length (filter (issued_in t1 t2 a n) evs))
          \<le> total_granted (TupleKey [n, a]) (in_period t1 t2 mevs)))"

lemma metered_call:
  assumes "metered_run env l0 evs t0 l" and "t0 \<le> now" and call: "limiter_call env now k 1 b l l'"
    and new: "\<And>t1 t2 a n. length (filter (issued_in t1 t2 a n) evs') \<le> length (filter (issued_in t1 t2 a n) evs)
      + (if b \<and> k = TupleKey [n, a] \<and> t1 \<le> now \<and> now \<le> t2 then 1 else 0)"
  shows "metered_run env l0 evs' now l'"
proof -
  obtain mevs where m: "meter_run (limiter_call env) (limiter_idle env) l0 mevs t0 l"
    "\<And>t1 t2 a n. int (length (filter (issued_in t1 t2 a n) evs)) \<le> total_granted (TupleKey [n, a]) (in_period t1 t2 mevs)"
    using assms(1) unfolding metered_run_def by blast
  let ?e = "\<lparr>at_time = now, for_key = k, amount = 1, granted = b\<rparr>"
  have "meter_run (limiter_call env) (limiter_idle env) l0 (mevs @ [?e]) now l'"
    by (rule meter_call[where call = "limiter_call env", OF m(1) assms(2) _ call]) simp
  moreover have "int (length (filter (issued_in t1 t2 a n) evs')) \<le> total_granted (TupleKey [n, a]) (in_period t1 t2 (mevs @ [?e]))"
    for t1 t2 a n
    using m(2)[of t1 t2 a n] new[of t1 t2 a n] by (auto simp: in_period_def split: if_splits)
  ultimately show ?thesis unfolding metered_run_def by blast
qed

lemma metered_wait: "metered_run env l0 evs t0 l \<Longrightarrow> t0 \<le> now \<Longrightarrow> metered_run env l0 evs now l"
  unfolding metered_run_def by (meson meter_wait)

lemma metered_prune:
  "metered_run env l0 evs t0 l \<Longrightarrow> t0 \<le> now \<Longrightarrow> metered_run env l0 evs now (prune_message_counts now l)"
  unfolding metered_run_def by (meson meter_idle idle_prune)

lemma run_metered:
  "auth_run cfg s0 evs now s \<Longrightarrow>
     metered_run (xc_limiter_env cfg) (wallet_limiter s0) evs now (wallet_limiter s)"
proof (induction rule: auth_run.induct)
  case (auth_start now)
  then show ?case unfolding metered_run_def by (intro exI[of _ "[]"]) (simp add: meter_start in_period_def)
next
  case (auth_issue evs t0 s inp a net p un d sid ch t n)
  obtain c where "issue_effects cfg inp c sid s t" "cs_address c = a" "cs_network c = n"
    using issue_challenge_yields[OF auth_issue.hyps(3,4)] by blast
  then have "limiter_call (xc_limiter_env cfg) (at_limit inp) (TupleKey [n, a]) 1 True
      (wallet_limiter s) (wallet_limiter t)" by (simp add: issue_effects_def)
  then show ?case by (rule metered_call[OF auth_issue.IH auth_issue.hyps(2)]) simp
next
  case (auth_issue_fails evs t0 s inp a net p un d e t)
  consider "wallet_limiter t = wallet_limiter s"
    | k b where "limiter_call (xc_limiter_env cfg) (at_limit inp) k 1 b (wallet_limiter s) (wallet_limiter t)"
    using issue_challenge_fails[OF auth_issue_fails.hyps(3)] by blast
  then show ?case
  proof cases
    case 1
    then show ?thesis using metered_wait[OF auth_issue_fails.IH auth_issue_fails.hyps(2)] by simp
  next
    case 2
    then show ?thesis by (rule metered_call[OF auth_issue_fails.IH auth_issue_fails.hyps(2)]) simp
  qed
next
  case (auth_complete evs t0 s inp sub u t sid sig pk a)
  then show ?case using login_outcome_frame[OF complete_auth_outcome[OF auth_complete.hyps(2)]]
    by (simp add: metered_run_def)
next
  case (auth_complete_fails evs t0 s inp sub e t)
  then show ?case using login_outcome_frame[OF complete_auth_outcome[OF auth_complete_fails.hyps(2)]] by simp
next
  case (auth_expire evs t0 s now)
  then show ?case by (simp add: delete_expired_sessions_def)
next
  case (auth_prune evs t0 s now)
  then show ?case using metered_prune[OF auth_prune.IH auth_prune.hyps(2)] by simp
next
  case (auth_other evs t0 s t)
  then show ?case by simp
qed

text \<open>
  C18. The wallet login and its rate limiter together: in every run of the server, and in every
  period of time, the number of challenges issued to one address on one network is at most the burst
  plus the rate times the length of the period, whatever other requests come in between, also those
  that are refused.
\<close>

theorem challenges_are_limited:
  assumes "auth_run cfg s0 evs now s" and "wallet_limiter s0 = ratelimiter_new rate burst"
    and "0 < rate" and "0 \<le> burst" and "t1 \<le> t2"
  shows "of_nat (length (filter (issued_in t1 t2 a n) evs)) \<le> of_int burst + rate * (t2 - t1)"
proof -
  obtain mevs where m: "meter_run (limiter_call (xc_limiter_env cfg)) (limiter_idle (xc_limiter_env cfg))
      (ratelimiter_new rate burst) mevs now (wallet_limiter s)"
    "int (length (filter (issued_in t1 t2 a n) evs)) \<le> total_granted (TupleKey [n, a]) (in_period t1 t2 mevs)"
    using run_metered[OF assms(1)] assms(2) unfolding metered_run_def by auto
  have "(of_nat (length (filter (issued_in t1 t2 a n) evs)) :: rat)
      \<le> of_int (total_granted (TupleKey [n, a]) (in_period t1 t2 mevs))"
    using m(2) by (metis of_int_le_iff of_int_of_nat_eq)
  also have "\<dots> \<le> of_int burst + rate * (t2 - t1)"
    using limiter.granted_in_period[OF m(1) _ assms(4,5)] assms(3) uniform_new by blast
  finally show ?thesis .
qed

end
