(* ===== verification/Xrpl_Auth_Samples.thy ===== *)
theory Xrpl_Auth_Samples
  imports Xrpl_Auth_Theorems
begin

text \<open>
  A small server on which the theorems about the wallet login apply, and the example behind the
  observation that a signed transaction is accepted whoever's key signed it. The signatures of the
  toy library are the length of the message followed by the key.
\<close>

section \<open>A server\<close>

definition sample_lib :: xrpl_lib where
  "sample_lib = \<lparr>
     is_valid_classic_address = (\<lambda>a. a = ''rAlice'' \<or> a = ''rEve''),
     decode_tx_blob = (\<lambda>b. if length b = 64
       then Some (JDict [(''Account'', JStr ''rAlice''), (''SigningPubKey'', JStr ''EVE''),
                         (''TxnSignature'', JStr ''02455645'')])
       else None),
     encode_for_signing = (\<lambda>tx. Some ''1234''),
     derive_classic_address = (\<lambda>k. if k = ''KEY'' then Some ''rAlice'' else if k = ''EVE'' then Some ''rEve'' else None),
     is_valid_message = (\<lambda>m sig k. Some (sig = char_of (length m) # k)),
     ed25519_verifies = (\<lambda>k sig m. False)\<rparr>"

definition sample_server_env :: server_env where
  "sample_server_env = \<lparr>hostname = ''hs'', registration_gate = (\<lambda>_. Inr ()), user_id_reserved = (\<lambda>_. Inr ()),
     after_registration = (\<lambda>_. Inr ()), allow_underscore_prefixed_localpart = False\<rparr>"

definition sample_cfg :: xrpl_config where
  "sample_cfg = \<lparr>xc_enabled = True, allow_account_creation = True, challenge_ttl_ms = 300000,
     xc_lib = sample_lib, xc_float_repr = (\<lambda>_. ''0.0''), xc_limiter_env = no_overrides,
     xc_server = sample_server_env\<rparr>"

definition sample_inputs :: auth_inputs where
  "sample_inputs = \<lparr>at_limit = 0, at_issue = 0, at_create = 0, at_consume = 1000, at_check = 1000,
     at_link = 1000, in_nonce = ''n1'', in_session_ids = [''S1'']\<rparr>"

definition sample_start :: server_state where
  "sample_start = \<lparr>sessions = [], wallet_links = [], users = [], display_names = [], account_data = [],
     wallet_limiter = ratelimiter_new 1 3\<rparr>"

definition sample_submission :: json_dict where
  "sample_submission = [(''session'', JStr ''S1''), (''address'', JStr ''rAlice''),
     (''signature'', JStr ''314b4559''), (''public_key'', JStr ''key'')]"

definition sample_challenge :: string where
  "sample_challenge = ''textrp-briij|1970-01-01T00:00:00Z|nonce:n1|rAlice''"

definition sample_issued :: server_state where
  "sample_issued = snd (issue_challenge sample_cfg sample_inputs (JStr ''rAlice'') (JStr ''xrpl'') JNull JNull JNull sample_start)"

definition sample_done :: server_state where
  "sample_done = snd (complete_auth sample_cfg sample_inputs sample_submission sample_issued)"

abbreviation sample_user :: string where "sample_user \<equiv> ''@wallet_xrpl_ralice:hs''"

lemma sample_issue_links:
  "yields (issue_challenge sample_cfg sample_inputs (JStr ''rAlice'') (JStr ''xrpl'') JNull JNull JNull) sample_start
     (''S1'', sample_challenge) sample_issued \<and> wallet_links sample_issued = []"
  by code_simp

lemmas sample_issue = sample_issue_links[THEN conjunct1]

lemma sample_complete:
  "yields (complete_auth sample_cfg sample_inputs sample_submission) sample_issued sample_user sample_done"
  by code_simp

lemma sample_run:
  "auth_run sample_cfg sample_start [Issued 0 ''S1'' ''rAlice'' ''xrpl'' sample_challenge] 0 sample_issued"
  "auth_run sample_cfg sample_start ([Issued 0 ''S1'' ''rAlice'' ''xrpl'' sample_challenge]
     @ [Completed ''S1'' ''rAlice'' ''314b4559'' sample_user]) 0 sample_done"
proof -
  have "at_limit sample_inputs = 0" "validate_network (JStr ''xrpl'') = Inr ''xrpl''"
    by (simp add: sample_inputs_def) code_simp
  then show run: "auth_run sample_cfg sample_start [Issued 0 ''S1'' ''rAlice'' ''xrpl'' sample_challenge] 0 sample_issued"
    using auth_issue[OF auth_start[of _ _ 0] _ sample_issue] by simp
  have sub: "check_submission sample_submission = Inr (''S1'', ''314b4559'', Some ''key'')"
      "field_of sample_submission ''address'' = JStr ''rAlice''"
    by code_simp+
  show "auth_run sample_cfg sample_start ([Issued 0 ''S1'' ''rAlice'' ''xrpl'' sample_challenge]
     @ [Completed ''S1'' ''rAlice'' ''314b4559'' sample_user]) 0 sample_done"
    by (rule auth_complete[OF run sample_complete sub])
qed

section \<open>The theorems on it\<close>

theorem wallet_login_sound_witness:
  "yields (complete_auth sample_cfg sample_inputs sample_submission) sample_issued sample_user sample_done \<and>
   (\<exists>sid sig pk key. \<exists>c :: XrplChallengeSession. check_submission sample_submission = Inr (sid, sig, pk) \<and>
      dget (sessions sample_done) (SESSION_TYPE, sid) = None \<and>
      (signs_challenge (xc_lib sample_cfg) (cs_address c) (cs_challenge c) sig key
       \<or> signs_transaction (xc_lib sample_cfg) (cs_address c) sig key))"
  using wallet_login_sound[OF sample_complete] sample_complete by blast


theorem login_answers_live_challenge_witness:
  "\<exists>n ch key. live_challenge [Issued 0 ''S1'' ''rAlice'' ''xrpl'' sample_challenge] ''S1'' = Some (''rAlice'', n, ch) \<and>
    (signs_challenge (xc_lib sample_cfg) ''rAlice'' ch ''314b4559'' key
     \<or> signs_transaction (xc_lib sample_cfg) ''rAlice'' ''314b4559'' key)"
  using login_answers_live_challenge[OF sample_run(2)] by (simp add: sample_start_def)

theorem challenges_are_limited_witness:
  "auth_run sample_cfg sample_start [Issued 0 ''S1'' ''rAlice'' ''xrpl'' sample_challenge] 0 sample_issued \<and>
   of_nat (length (filter (issued_in 0 1 ''rAlice'' ''xrpl'') [Issued 0 ''S1'' ''rAlice'' ''xrpl'' sample_challenge]))
     \<le> of_int 3 + 1 * (1 - 0 :: rat)"
  using challenges_are_limited[OF sample_run(1), of 1 3 0 1 "''rAlice''" "''xrpl''"] sample_run(1)
  by (simp add: sample_start_def)

section \<open>A login with a foreign key\<close>

text \<open>
  The branch for signed transactions checks that the transaction names the address as its account
  and that its signature is valid under the key the transaction itself names. It does not check that
  the address derives from that key, nor that the transaction has anything to do with the challenge.
  So a second visitor, with a key of their own, is logged in as the user of the first wallet.
\<close>

definition foreign_submission :: json_dict where
  "foreign_submission = [(''session'', JStr ''S1''), (''address'', JStr ''rAlice''),
     (''signature'', JStr (replicate 64 CHR ''0''))]"

lemma foreign_key_logs_in:
  "derive_classic_address (xc_lib sample_cfg) ''EVE'' = Some ''rEve'' \<and>
   (\<exists>s1 t. yields (issue_challenge sample_cfg sample_inputs (JStr ''rAlice'') (JStr ''xrpl'') JNull JNull JNull)
        sample_done (''S1'', sample_challenge) s1 \<and>
      yields (complete_auth sample_cfg sample_inputs foreign_submission) s1 sample_user t)"
proof -
  let ?s1 = "snd (issue_challenge sample_cfg sample_inputs (JStr ''rAlice'') (JStr ''xrpl'') JNull JNull JNull sample_done)"
  let ?t = "snd (complete_auth sample_cfg sample_inputs foreign_submission ?s1)"
  have "yields (issue_challenge sample_cfg sample_inputs (JStr ''rAlice'') (JStr ''xrpl'') JNull JNull JNull)
      sample_done (''S1'', sample_challenge) ?s1 \<and>
    yields (complete_auth sample_cfg sample_inputs foreign_submission) ?s1 sample_user ?t \<and>
    derive_classic_address (xc_lib sample_cfg) ''EVE'' = Some ''rEve''"
    by code_simp
  then show ?thesis by blast
qed

end
