(* ===== verification/Wallet_Provider.thy ===== *)
theory Wallet_Provider
  imports Xrpl_Auth
begin

text \<open>
  The password provider module for wallets (\<open>src/briij/auth/wallet_provider.py\<close>): the challenge is
  made by the client, so the provider itself keeps the nonces it has seen and counts the attempts of
  each wallet. The ledger library, the JSON parser, the ledger's answer to an account query and the
  clock readings are arguments. While a registration waits, other requests may change the tables of
  the server: \<open>pe_meanwhile\<close> is what they do.
\<close>

section \<open>State and configuration\<close>

record WalletProvider =
  allowed_networks :: "string list"
  default_network :: string
  jsonrpc_urls_by_network :: "(string, string list) dict"
  clients_by_network :: "(string, string) dict"
  wallet_table_ready :: bool
  used_challenge_nonces :: "(string, int) dict"
  wallet_rate_limits :: "(string, int \<times> int) dict"

record provider_world =
  pw_provider :: WalletProvider
  pw_server :: server_state

record provider_env =
  pe_lib :: xrpl_lib
  pe_json_loads :: "string \<Rightarrow> json option"
  pe_account_info :: "string \<Rightarrow> string \<Rightarrow> bool option"
  pe_server :: server_env
  pe_meanwhile :: "server_state \<Rightarrow> server_state"

text \<open>The readings of the clock in one call, in order.\<close>

record provider_times =
  t_limit :: int
  t_check :: int
  t_nonce :: int
  t_link :: int

definition CHALLENGE_MAX_AGE_MS :: int where "CHALLENGE_MAX_AGE_MS = 60000"
definition RATE_LIMIT_WINDOW_MS :: int where "RATE_LIMIT_WINDOW_MS = 60000"
definition RATE_LIMIT_ATTEMPTS :: int where "RATE_LIMIT_ATTEMPTS = 10"

abbreviation WalletAuthError :: "string \<Rightarrow> py_error" where
  "WalletAuthError \<equiv> OtherException"

fun strings_of :: "(rat \<Rightarrow> string) \<Rightarrow> json \<Rightarrow> string list option" where
  "strings_of fr (JList xs) = Some (map (py_str fr) xs)"
| "strings_of fr _ = None"

definition network_urls :: "(rat \<Rightarrow> string) \<Rightarrow> json \<Rightarrow> string list" where
  "network_urls fr v =
     (let network_config = (case v of JDict d \<Rightarrow> d | _ \<Rightarrow> []) in
      case strings_of fr (field_of network_config ''jsonrpc_urls'') of
        Some urls \<Rightarrow> urls
      | None \<Rightarrow> (case field_of network_config ''jsonrpc_url'' of JStr url \<Rightarrow> [url] | _ \<Rightarrow> []))"

text \<open>The normalised configuration: the networks, the default one and the URLs of the supported ones.\<close>

definition parse_config :: "(rat \<Rightarrow> string) \<Rightarrow> json_dict \<Rightarrow> string list \<times> string \<times> (string, string list) dict" where
  "parse_config fr config =
     (case strings_of fr (field_of config ''allowed_networks'') of Some ns \<Rightarrow> ns | None \<Rightarrow> SUPPORTED_NETWORKS,
      case field_of config ''default_network'' of JStr n \<Rightarrow> n | _ \<Rightarrow> ''xrpl'',
      map (\<lambda>n. (n, network_urls fr (field_of config n))) SUPPORTED_NETWORKS)"

definition provider_new :: "(rat \<Rightarrow> string) \<Rightarrow> json_dict \<Rightarrow> WalletProvider res" where
  "provider_new fr config =
     (case parse_config fr config of (networks, network, urls) \<Rightarrow>
      rbind (rmap (\<lambda>n. rbind (dsub urls n) (\<lambda>us. Inr (n, us))) networks) (\<lambda>by_network.
      rbind (rmap (\<lambda>n. case dget_or (dict_of by_network) n [] of [] \<Rightarrow> Inl IndexError | u # us \<Rightarrow> Inr (n, u)) networks)
        (\<lambda>clients.
        Inr \<lparr>allowed_networks = networks, default_network = network,
             jsonrpc_urls_by_network = dict_of by_network, clients_by_network = dict_of clients,
             wallet_table_ready = False, used_challenge_nonces = [], wallet_rate_limits = []\<rparr>)))"

abbreviation on_provider :: "(WalletProvider, 'a) eff \<Rightarrow> (provider_world, 'a) eff" where
  "on_provider \<equiv> ezoom pw_provider (\<lambda>p. pw_provider_update (\<lambda>_. p))"

abbreviation on_server :: "(server_state, 'a) eff \<Rightarrow> (provider_world, 'a) eff" where
  "on_server \<equiv> ezoom pw_server (\<lambda>s. pw_server_update (\<lambda>_. s))"

section \<open>The table of links\<close>

definition ensure_wallet_links_table :: "(WalletProvider, unit) eff" where
  "ensure_wallet_links_table = emodify (wallet_table_ready_update (\<lambda>_. True))"

text \<open>The upsert leaves the public key of an existing row alone and stores none in a new one.\<close>

definition upsert_wallet_mapping :: "string \<Rightarrow> string \<Rightarrow> string \<Rightarrow> int \<Rightarrow> (server_state, unit) eff" where
  "upsert_wallet_mapping user_id wallet_address network linked_at =
     emodify (\<lambda>s. s\<lparr>wallet_links := dset (wallet_address, network)
       \<lparr>wl_user_id = user_id,
        wl_public_key = (case dget (wallet_links s) (wallet_address, network) of
            None \<Rightarrow> None | Some link \<Rightarrow> wl_public_key link),
        wl_linked_at = linked_at\<rparr> (wallet_links s)\<rparr>)"

definition store_wallet_mapping :: "provider_times \<Rightarrow> string \<Rightarrow> string \<Rightarrow> string \<Rightarrow> (provider_world, unit) eff" where
  "store_wallet_mapping ts user_id wallet_address network =
     ebind (on_provider ensure_wallet_links_table) (\<lambda>_.
       on_server (upsert_wallet_mapping user_id wallet_address network (t_link ts)))"

definition get_user_by_wallet :: "string \<Rightarrow> string \<Rightarrow> (provider_world, string option) eff" where
  "get_user_by_wallet wallet_address network =
     ebind (on_provider ensure_wallet_links_table) (\<lambda>_.
       egets (\<lambda>w. map_option wl_user_id (dget (wallet_links (pw_server w)) (wallet_address, network))))"

definition qualified_user_id :: "server_env \<Rightarrow> string \<Rightarrow> string" where
  "qualified_user_id env username = (if starts_with ''@'' username then username else to_user_id env username)"

definition provider_localpart_available :: "server_env \<Rightarrow> string \<Rightarrow> server_state \<Rightarrow> bool" where
  "provider_localpart_available env l s \<longleftrightarrow> check_user_exists (qualified_user_id env l) s = None"

section \<open>Reading the challenge\<close>

fun parse_challenge :: "(string \<Rightarrow> json option) \<Rightarrow> json \<Rightarrow> json_dict option" where
  "parse_challenge loads (JDict d) = Some d"
| "parse_challenge loads (JStr s) = (case loads s of Some (JDict d) \<Rightarrow> Some d | _ \<Rightarrow> None)"
| "parse_challenge loads _ = None"

definition decode_signature :: "string \<Rightarrow> string option" where
  "decode_signature signature = (case bytes_fromhex signature of Inl _ \<Rightarrow> None | Inr b \<Rightarrow> Some b)"

definition to_ms :: "int \<Rightarrow> int" where
  "to_ms parsed = (if parsed < 10000000000 then parsed * 1000 else parsed)"

text \<open>
  A string of superscript digits passes \<open>isdigit\<close> and then makes \<open>int\<close> raise.
\<close>

fun parse_timestamp_ms :: "json \<Rightarrow> int option res" where
  "parse_timestamp_ms (JStr s) =
     (if \<not> py_isdigit s then Inr None else rbind (py_int_str s) (\<lambda>i. Inr (Some (to_ms i))))"
| "parse_timestamp_ms (JInt i) = Inr (Some (to_ms i))"
| "parse_timestamp_ms (JBool b) = Inr (Some (to_ms (if b then 1 else 0)))"
| "parse_timestamp_ms (JFloat r) = rbind (py_int (JFloat r)) (\<lambda>i. Inr (Some (to_ms i)))"
| "parse_timestamp_ms _ = Inr None"

definition extract_localpart_from_username :: "string \<Rightarrow> string" where
  "extract_localpart_from_username username =
     sanitize_text (if starts_with ''@'' username \<and> CHR '':'' \<in> set username
       then hd (split_once CHR '':'' (tl username)) else username)"

section \<open>Nonces and attempts\<close>

definition nonce_key :: "string \<Rightarrow> string \<Rightarrow> string \<Rightarrow> string" where
  "nonce_key network wallet_address nonce = network @ '':'' @ wallet_address @ '':'' @ nonce"

definition consume_nonce :: "provider_times \<Rightarrow> string \<Rightarrow> string \<Rightarrow> string \<Rightarrow> (WalletProvider, bool) eff" where
  "consume_nonce ts network wallet_address nonce =
     ebind (emodify (used_challenge_nonces_update (filter (\<lambda>(_, expires_at). \<not> expires_at \<le> t_nonce ts)))) (\<lambda>_.
     ebind (egets (\<lambda>p. dhas (used_challenge_nonces p) (nonce_key network wallet_address nonce))) (\<lambda>used.
       if used then eret False
       else ebind (emodify (used_challenge_nonces_update
              (dset (nonce_key network wallet_address nonce) (t_nonce ts + CHALLENGE_MAX_AGE_MS)))) (\<lambda>_.
            eret True)))"

definition enforce_nonce_timestamp ::
    "provider_times \<Rightarrow> json_dict \<Rightarrow> string \<Rightarrow> string \<Rightarrow> (WalletProvider, unit) eff" where
  "enforce_nonce_timestamp ts challenge_dict wallet_address network =
     (case field_of challenge_dict ''nonce'' of
        JStr nonce \<Rightarrow>
          if nonce = [] then eraise (WalletAuthError ''Missing or invalid nonce'')
          else
            ebind (elift (parse_timestamp_ms (field_of challenge_dict ''timestamp''))) (\<lambda>parsed.
            case parsed of
              None \<Rightarrow> eraise (WalletAuthError ''Missing or invalid timestamp'')
            | Some timestamp_ms \<Rightarrow>
                ebind (eguard (timestamp_ms > t_check ts) (WalletAuthError ''Timestamp is in the future'')) (\<lambda>_.
                ebind (eguard (t_check ts - timestamp_ms > CHALLENGE_MAX_AGE_MS)
                  (WalletAuthError ''Challenge has expired'')) (\<lambda>_.
                ebind (consume_nonce ts network wallet_address nonce) (\<lambda>fresh.
                ebind (eguard (\<not> fresh) (WalletAuthError ''Nonce has already been used'')) (\<lambda>_.
                  case field_of challenge_dict ''message'' of
                    JStr message \<Rightarrow>
                      eguard (\<not> str_in nonce message \<or> \<not> str_in (string_of_int timestamp_ms) message)
                        (WalletAuthError ''Challenge message must include nonce and timestamp'')
                  | _ \<Rightarrow> eret ())))))
      | _ \<Rightarrow> eraise (WalletAuthError ''Missing or invalid nonce''))"

definition rate_limit_key :: "string \<Rightarrow> string \<Rightarrow> string" where
  "rate_limit_key wallet_address network = network @ '':'' @ py_lower wallet_address"

definition count_attempt :: "int \<Rightarrow> (int \<times> int) option \<Rightarrow> int \<times> int" where
  "count_attempt now entry =
     (let (window_start, attempts) = (case entry of None \<Rightarrow> (now, 0) | Some e \<Rightarrow> e) in
      if now - window_start > RATE_LIMIT_WINDOW_MS then (now, 1) else (window_start, attempts + 1))"

definition check_rate_limit :: "provider_times \<Rightarrow> string \<Rightarrow> string \<Rightarrow> (WalletProvider, unit) eff" where
  "check_rate_limit ts wallet_address network =
     (let key = rate_limit_key wallet_address network in
      ebind (egets (\<lambda>p. count_attempt (t_limit ts) (dget (wallet_rate_limits p) key))) (\<lambda>entry.
      ebind (emodify (\<lambda>p. p\<lparr>wallet_rate_limits := dset key entry (wallet_rate_limits p)\<rparr>)) (\<lambda>_.
        eguard (snd entry > RATE_LIMIT_ATTEMPTS)
          (WalletAuthError ''Too many authentication attempts for this wallet''))))"

definition clear_rate_limit :: "string \<Rightarrow> string \<Rightarrow> (WalletProvider, unit) eff" where
  "clear_rate_limit wallet_address network =
     emodify (\<lambda>p. p\<lparr>wallet_rate_limits := dpop (rate_limit_key wallet_address network) (wallet_rate_limits p)\<rparr>)"

section \<open>The signature\<close>

fun check_algorithm :: "json \<Rightarrow> string \<Rightarrow> unit res" where
  "check_algorithm (JStr algorithm) public_key =
     raise_if (py_lower algorithm = ''ed25519'' \<and> \<not> starts_with ''ED'' (py_upper public_key)
         \<or> py_lower algorithm = ''secp256k1'' \<and> starts_with ''ED'' (py_upper public_key))
       (WalletAuthError ''Algorithm/public_key mismatch'')"
| "check_algorithm _ public_key = Inr ()"

text \<open>What is checked of the key, the message and the signature, and of the account on the ledger.\<close>

definition check_signed_message ::
    "provider_env \<Rightarrow> string option \<Rightarrow> json_dict \<Rightarrow> string \<Rightarrow> string \<Rightarrow> unit res" where
  "check_signed_message env client challenge_dict wallet_address signature =
     (case field_of challenge_dict ''public_key'' of
        JStr public_key \<Rightarrow>
          rbind (check_algorithm (field_of challenge_dict ''algorithm'') public_key) (\<lambda>_.
          case derive_classic_address (pe_lib env) public_key of
            None \<Rightarrow> Inl (WalletAuthError ''Invalid public_key'')
          | Some derived_address \<Rightarrow>
              rbind (raise_if (derived_address \<noteq> wallet_address)
                (WalletAuthError ''Wallet address does not match key'')) (\<lambda>_.
              case field_of challenge_dict ''message'' of
                JStr message \<Rightarrow>
                  (case decode_signature signature of
                     None \<Rightarrow> Inl (WalletAuthError ''Invalid signature format'')
                   | Some signature_bytes \<Rightarrow>
                       (case is_valid_message (pe_lib env) (utf8_encode message) signature_bytes (py_upper public_key) of
                          None \<Rightarrow> Inl (OtherException ''is_valid_message'')
                        | Some valid \<Rightarrow>
                            rbind (raise_if (\<not> valid) (WalletAuthError ''Signature verification failed'')) (\<lambda>_.
                            case client of
                              None \<Rightarrow> Inl KeyError
                            | Some url \<Rightarrow>
                                (case pe_account_info env url wallet_address of
                                   None \<Rightarrow> Inl (WalletAuthError ''Unable to reach XRPL RPC'')
                                 | Some found \<Rightarrow>
                                     raise_if (\<not> found) (WalletAuthError ''Wallet account not found on ledger'')))))
              | _ \<Rightarrow> Inl (WalletAuthError ''Missing message in challenge'')))
      | _ \<Rightarrow> Inl (WalletAuthError ''Missing public_key''))"

definition verify_xrpl_signature ::
    "provider_env \<Rightarrow> provider_times \<Rightarrow> string \<Rightarrow> string \<Rightarrow> json \<Rightarrow> string \<Rightarrow> (WalletProvider, unit) eff" where
  "verify_xrpl_signature env ts wallet_address signature challenge network =
     ebind (egets (\<lambda>p. dget (clients_by_network p) network)) (\<lambda>client.
     ebind (eguard (client = None) (WalletAuthError ''Unsupported network'')) (\<lambda>_.
     case parse_challenge (pe_json_loads env) challenge of
       None \<Rightarrow> eraise (WalletAuthError ''Invalid challenge payload'')
     | Some challenge_dict \<Rightarrow>
         ebind (enforce_nonce_timestamp ts challenge_dict wallet_address network) (\<lambda>_.
           elift (check_signed_message env client challenge_dict wallet_address signature))))"

section \<open>The login\<close>

text \<open>The checks of the request itself.\<close>

definition check_login_fields :: "WalletProvider \<Rightarrow> json_dict \<Rightarrow> (string \<times> string \<times> json \<times> string) res" where
  "check_login_fields p login_dict =
     (case field_of login_dict ''wallet_address'' of
        JStr wallet_address \<Rightarrow>
          if wallet_address = [] then Inl (WalletAuthError ''Missing wallet_address'')
          else (case field_of login_dict ''signature'' of
            JStr signature \<Rightarrow>
              if signature = [] then Inl (WalletAuthError ''Missing signature'')
              else rbind (raise_if (field_of login_dict ''challenge'' = JNull) (WalletAuthError ''Missing challenge''))
                (\<lambda>_. case dget_or login_dict ''network'' (JStr (default_network p)) of
                   JStr requested_network \<Rightarrow>
                     rbind (raise_if (py_lower requested_network \<notin> set (allowed_networks p))
                       (WalletAuthError ''Unsupported network'')) (\<lambda>_.
                       Inr (wallet_address, signature, field_of login_dict ''challenge'', py_lower requested_network))
                 | _ \<Rightarrow> Inl (WalletAuthError ''Invalid network''))
          | _ \<Rightarrow> Inl (WalletAuthError ''Missing signature''))
      | _ \<Rightarrow> Inl (WalletAuthError ''Missing wallet_address''))"

fun choose_localpart :: "server_env \<Rightarrow> server_state \<Rightarrow> string list \<Rightarrow> string option" where
  "choose_localpart env s [] = None"
| "choose_localpart env s (base # bases) =
     (if provider_localpart_available env base s then Some base
      else (case find (\<lambda>i. provider_localpart_available env (suffixed base i) s) [2..99] of
              Some i \<Rightarrow> Some (suffixed base i)
            | None \<Rightarrow> choose_localpart env s bases))"

definition candidate_localparts :: "string \<Rightarrow> string \<Rightarrow> string list" where
  "candidate_localparts username wallet_address =
     (let preferred = extract_localpart_from_username username in
      (if preferred = [] then [] else [preferred]) @ [''wallet_'' @ py_lower (last_chars 12 wallet_address)])"

text \<open>The registration, and what is made of its failure.\<close>

definition register_or_adopt :: "provider_env \<Rightarrow> string \<Rightarrow> (server_state, string) eff" where
  "register_or_adopt env l =
     ecatch (register_user (pe_server env) l None) (\<lambda>_.
       ebind (egets (check_user_exists (qualified_user_id (pe_server env) l))) (\<lambda>existing. case existing of
         None \<Rightarrow> eraise (WalletAuthError ''Failed to create user'')
       | Some user_id \<Rightarrow> eret user_id))"

definition new_wallet_user :: "provider_env \<Rightarrow> string \<Rightarrow> string \<Rightarrow> (server_state, string) eff" where
  "new_wallet_user env username wallet_address =
     ebind (egets (\<lambda>s. choose_localpart (pe_server env) s (candidate_localparts username wallet_address))) (\<lambda>chosen.
     case chosen of
       None \<Rightarrow> eraise (WalletAuthError ''Unable to allocate user ID'')
     | Some l \<Rightarrow> ebind (emodify (pe_meanwhile env)) (\<lambda>_. register_or_adopt env l))"

definition wallet_user :: "provider_env \<Rightarrow> string \<Rightarrow> string \<Rightarrow> string \<Rightarrow> (provider_world, string) eff" where
  "wallet_user env username wallet_address network =
     ebind (get_user_by_wallet wallet_address network) (\<lambda>existing_user_id. case existing_user_id of
       Some user_id \<Rightarrow> eret user_id
     | None \<Rightarrow> on_server (new_wallet_user env username wallet_address))"

text \<open>The body of \<open>check_auth\<close> for the provider's login type, and its two handlers.\<close>

definition provider_login ::
    "provider_env \<Rightarrow> provider_times \<Rightarrow> string \<Rightarrow> json_dict \<Rightarrow> (provider_world, string) eff" where
  "provider_login env ts username login_dict =
     ebind (egets (\<lambda>w. check_login_fields (pw_provider w) login_dict)) (\<lambda>r.
     ebind (elift r) (\<lambda>(wallet_address, signature, challenge, network).
     ebind (on_provider (check_rate_limit ts wallet_address network)) (\<lambda>_.
     ebind (on_provider (verify_xrpl_signature env ts wallet_address signature challenge network)) (\<lambda>_.
     ebind (wallet_user env username wallet_address network) (\<lambda>user_id.
     ebind (store_wallet_mapping ts user_id wallet_address network) (\<lambda>_.
     ebind (on_provider (clear_rate_limit wallet_address network)) (\<lambda>_.
       eret user_id)))))))"

definition check_auth ::
    "provider_env \<Rightarrow> provider_times \<Rightarrow> string \<Rightarrow> string \<Rightarrow> json_dict \<Rightarrow> (provider_world, string option) eff" where
  "check_auth env ts username login_type login_dict =
     (if login_type \<noteq> LOGIN_TYPE then eret None
      else ecatch (ebind (provider_login env ts username login_dict) (\<lambda>user_id. eret (Some user_id)))
             (\<lambda>_. eret None))"

end
