(* ===== verification/Wallet_Provider_Props.thy ===== *)
theory Wallet_Provider_Props
  imports Wallet_Provider Xrpl_Auth_Props
begin

text \<open>
  What an accepted login of the wallet provider shows, and that a challenge is used up by the first
  login that carries it. The nonces the provider remembers are tracked through arbitrary sequences
  of calls by the rules for relations between states (the locale \<open>evolution\<close>).
\<close>

section \<open>Nonces\<close>

definition live_nonces :: "int \<Rightarrow> WalletProvider \<Rightarrow> (string, int) dict" where
  "live_nonces now p = filter (\<lambda>(_, expires_at). \<not> expires_at \<le> now) (used_challenge_nonces p)"

lemma dget_live: "dget d k = Some e \<Longrightarrow> now < e \<Longrightarrow> dget (filter (\<lambda>(_, e). \<not> e \<le> now) d) k = Some e"
  for now :: int
  by (induction d) (auto split: if_splits)

lemma consume_nonce_yields:
  "yields (consume_nonce ts n a x) p fresh q \<longleftrightarrow>
     (fresh \<longleftrightarrow> \<not> dhas (live_nonces (t_nonce ts) p) (nonce_key n a x)) \<and>
     q = p\<lparr>used_challenge_nonces := (if fresh
       then dset (nonce_key n a x) (t_nonce ts + CHALLENGE_MAX_AGE_MS) (live_nonces (t_nonce ts) p)
       else live_nonces (t_nonce ts) p)\<rparr>"
  unfolding consume_nonce_def live_nonces_def
  by (cases fresh) (auto simp: eff_simps split: if_splits)

lemma consume_nonce_never_fails: "\<not> fails (consume_nonce ts n a x) p e q"
  unfolding consume_nonce_def by (auto simp: eff_simps)

text \<open>The part of a challenge that the provider checks against the clock and its memory.\<close>

definition fresh_challenge ::
    "provider_times \<Rightarrow> WalletProvider \<Rightarrow> json_dict \<Rightarrow> string \<Rightarrow> string \<Rightarrow> string \<Rightarrow> int \<Rightarrow> bool" where
  "fresh_challenge ts p d a n nonce timestamp_ms \<longleftrightarrow>
     field_of d ''nonce'' = JStr nonce \<and> nonce \<noteq> [] \<and>
     parse_timestamp_ms (field_of d ''timestamp'') = Inr (Some timestamp_ms) \<and>
     timestamp_ms \<le> t_check ts \<and> t_check ts \<le> timestamp_ms + CHALLENGE_MAX_AGE_MS \<and>
     \<not> dhas (live_nonces (t_nonce ts) p) (nonce_key n a nonce) \<and>
     (\<forall>message. field_of d ''message'' = JStr message \<longrightarrow>
        str_in nonce message \<and> str_in (string_of_int timestamp_ms) message)"

lemma enforce_yields:
  assumes "yields (enforce_nonce_timestamp ts d a n) p u q"
  obtains nonce timestamp_ms where "fresh_challenge ts p d a n nonce timestamp_ms"
    and "q = p\<lparr>used_challenge_nonces :=
      dset (nonce_key n a nonce) (t_nonce ts + CHALLENGE_MAX_AGE_MS) (live_nonces (t_nonce ts) p)\<rparr>"
proof -
  obtain nonce where nonce: "field_of d ''nonce'' = JStr nonce" "nonce \<noteq> []"
    using assms unfolding enforce_nonce_timestamp_def by (auto simp: eff_simps split: json.splits if_splits)
  obtain tm where t: "parse_timestamp_ms (field_of d ''timestamp'') = Inr (Some tm)"
    using assms nonce unfolding enforce_nonce_timestamp_def by (auto simp: eff_simps split: option.splits)
  show thesis
  proof (rule that[of nonce tm])
    show "fresh_challenge ts p d a n nonce tm"
      using assms nonce t unfolding enforce_nonce_timestamp_def fresh_challenge_def
      by (auto simp: eff_simps consume_nonce_yields)
    show "q = p\<lparr>used_challenge_nonces :=
      dset (nonce_key n a nonce) (t_nonce ts + CHALLENGE_MAX_AGE_MS) (live_nonces (t_nonce ts) p)\<rparr>"
      using assms nonce t unfolding enforce_nonce_timestamp_def
      by (auto simp: eff_simps consume_nonce_yields split: json.splits)
  qed
qed

section \<open>The signature\<close>

text \<open>The message of the challenge, signed by a key from which the address derives.\<close>

definition signs_message :: "xrpl_lib \<Rightarrow> json_dict \<Rightarrow> string \<Rightarrow> string \<Rightarrow> string \<Rightarrow> bool" where
  "signs_message lib d a signature message \<longleftrightarrow>
     (\<exists>key sig. field_of d ''public_key'' = JStr key \<and> field_of d ''message'' = JStr message \<and>
        derive_classic_address lib key = Some a \<and> bytes_fromhex signature = Inr sig \<and>
        is_valid_message lib (utf8_encode message) sig (py_upper key) = Some True)"

lemma check_signed_message_ok:
  assumes "check_signed_message env client d a signature = Inr u"
  shows "\<exists>message url. signs_message (pe_lib env) d a signature message \<and> client = Some url \<and>
    pe_account_info env url a = Some True"
  using assms unfolding check_signed_message_def signs_message_def decode_signature_def
  by (auto split: json.splits option.splits sum.splits)

lemma verify_xrpl_signature_yields:
  assumes "yields (verify_xrpl_signature env ts a signature ch n) p u q"
  obtains d nonce timestamp_ms message url where "parse_challenge (pe_json_loads env) ch = Some d"
    and "fresh_challenge ts p d a n nonce timestamp_ms" and "signs_message (pe_lib env) d a signature message"
    and "dget (clients_by_network p) n = Some url" and "pe_account_info env url a = Some True"
    and "q = p\<lparr>used_challenge_nonces :=
      dset (nonce_key n a nonce) (t_nonce ts + CHALLENGE_MAX_AGE_MS) (live_nonces (t_nonce ts) p)\<rparr>"
proof -
  obtain d where d: "parse_challenge (pe_json_loads env) ch = Some d"
    and e: "yields (enforce_nonce_timestamp ts d a n) p () q"
    and c: "check_signed_message env (dget (clients_by_network p) n) d a signature = Inr u"
    using assms unfolding verify_xrpl_signature_def by (auto simp: eff_simps split: option.splits)
  from check_signed_message_ok[OF c] obtain message url where
    "signs_message (pe_lib env) d a signature message" "dget (clients_by_network p) n = Some url"
    "pe_account_info env url a = Some True" by blast
  moreover obtain nonce tm where "fresh_challenge ts p d a n nonce tm" "q = p\<lparr>used_challenge_nonces :=
      dset (nonce_key n a nonce) (t_nonce ts + CHALLENGE_MAX_AGE_MS) (live_nonces (t_nonce ts) p)\<rparr>"
    using enforce_yields[OF e] by blast
  ultimately show thesis using that d by blast
qed

lemma check_login_fields_ok:
  "check_login_fields p d = Inr (a, signature, ch, n) \<Longrightarrow>
     field_of d ''wallet_address'' = JStr a \<and> a \<noteq> [] \<and> field_of d ''signature'' = JStr signature \<and>
     ch = field_of d ''challenge'' \<and> n \<in> set (allowed_networks p)"
  unfolding check_login_fields_def by (auto split: json.splits if_splits)

section \<open>The user\<close>

lemma check_user_exists_in: "check_user_exists u s = Some v \<Longrightarrow> v \<in> set (users s)"
  by (auto simp: check_user_exists_def get_users_by_id_case_insensitive_def
      split: list.splits if_splits dest!: arg_cong[where f = set])

text \<open>
  The user is new, or one that has come to exist since the localpart was found to be free.
\<close>

lemma choose_localpart_available:
  "choose_localpart env s bases = Some l \<Longrightarrow> provider_localpart_available env l s"
  by (induction bases) (auto simp: find_Some_iff simp del: upto_rec_numeral split: if_splits option.splits)

lemma starts_with_at: "starts_with ''@'' l \<Longrightarrow> contains_invalid_mxid_characters l"
  by (cases l) (auto simp: starts_with_def contains_invalid_mxid_characters_def mxid_char_def is_lower_def is_digit_def)

lemma register_user_adds:
  assumes "register_user env l d s = (r, t)"
  shows "t = s \<and> (\<exists>e. r = Inl e) \<or>
    registered (to_user_id env l) s t \<and> (r = Inr (to_user_id env l) \<or> (\<exists>e. r = Inl e)) \<and>
    check_user_exists (qualified_user_id env l) t = Some (to_user_id env l)"
proof (cases "check_username env l s")
  case (Inl e)
  then have "t = s \<and> (\<exists>e. r = Inl e)"
    using assms unfolding register_user_def Let_def by (cases r) (auto simp: eff_simps)
  then show ?thesis by simp
next
  case (Inr u)
  then have "get_users_by_id_case_insensitive (to_user_id env l) s = []" "\<not> contains_invalid_mxid_characters l"
    by (auto simp: check_username_def)
  then have "check_user_exists (qualified_user_id env l) t = Some (to_user_id env l)"
    if "registered (to_user_id env l) s t"
    using that starts_with_at[of l]
    by (auto simp: registered_def check_user_exists_def get_users_by_id_case_insensitive_def qualified_user_id_def)
  then show ?thesis using register_user_outcome[OF assms] by blast
qed

text \<open>The user is new, or was already there when the registration was refused.\<close>

lemma register_or_adopt_yields:
  assumes "yields (register_or_adopt env l) s u t"
  shows "registered u s t \<or> t = s \<and> check_user_exists (qualified_user_id (pe_server env) l) s = Some u"
proof -
  obtain r t' where reg: "register_user (pe_server env) l None s = (r, t')"
    by (cases "register_user (pe_server env) l None s")
  from register_user_adds[OF reg] show ?thesis
    using assms reg unfolding register_or_adopt_def by (auto simp: eff_simps split: option.splits)
qed

text \<open>
  How the provider finds the user of a wallet: the linked one, or a new one, or one that has come to
  exist while the registration waited.
\<close>

definition user_found :: "provider_env \<Rightarrow> server_state \<Rightarrow> string \<Rightarrow> string \<Rightarrow> string \<Rightarrow> server_state \<Rightarrow> bool" where
  "user_found env s a n u t \<longleftrightarrow> (case dget (wallet_links s) (a, n) of
       Some link \<Rightarrow> u = wl_user_id link \<and> t = s
     | None \<Rightarrow> registered u (pe_meanwhile env s) t \<or>
         t = pe_meanwhile env s \<and> u \<in> set (users t) \<and>
         (\<exists>l. provider_localpart_available (pe_server env) l s \<and> \<not> provider_localpart_available (pe_server env) l t))"

lemma wallet_user_yields:
  assumes "yields (wallet_user env username a n) w u w'"
  shows "user_found env (pw_server w) a n u (pw_server w') \<and>
    pw_provider w' = (pw_provider w)\<lparr>wallet_table_ready := True\<rparr>"
proof (cases "dget (wallet_links (pw_server w)) (a, n)")
  case (Some link)
  then show ?thesis
    using assms unfolding wallet_user_def get_user_by_wallet_def ensure_wallet_links_table_def user_found_def
    by (auto simp: eff_simps)
next
  case None
  then have *: "yields (new_wallet_user env username a) (pw_server w) u (pw_server w')"
    "pw_provider w' = (pw_provider w)\<lparr>wallet_table_ready := True\<rparr>"
    using assms unfolding wallet_user_def get_user_by_wallet_def ensure_wallet_links_table_def
    by (auto simp: eff_simps)
  obtain l where l: "provider_localpart_available (pe_server env) l (pw_server w)"
    "yields (register_or_adopt env l) (pe_meanwhile env (pw_server w)) u (pw_server w')"
    using *(1) unfolding new_wallet_user_def
    by (auto simp: eff_simps split: option.splits dest: choose_localpart_available)
  show ?thesis
    using register_or_adopt_yields[OF l(2)] None l(1) *(2) check_user_exists_in
    unfolding user_found_def provider_localpart_available_def by fastforce
qed

section \<open>One login\<close>

lemma check_rate_limit_yields:
  "yields (check_rate_limit ts a n) p u q \<Longrightarrow> \<exists>e. q = p\<lparr>wallet_rate_limits := e\<rparr>"
  unfolding check_rate_limit_def Let_def by (auto simp: eff_simps)

text \<open>The parts of a login that succeeds.\<close>

lemma provider_login_yields:
  assumes "yields (provider_login env ts username d) w u w'"
  obtains a signature n s1 limits where
    "check_login_fields (pw_provider w) d = Inr (a, signature, field_of d ''challenge'', n)"
    "\<exists>q. yields (verify_xrpl_signature env ts a signature (field_of d ''challenge'') n)
       ((pw_provider w)\<lparr>wallet_rate_limits := limits\<rparr>) () q \<and>
       used_challenge_nonces (pw_provider w') = used_challenge_nonces q"
    "user_found env (pw_server w) a n u s1"
    "yields (upsert_wallet_mapping u a n (t_link ts)) s1 () (pw_server w')"
proof -
  obtain x where x: "check_login_fields (pw_provider w) d = Inr x"
    using assms by (cases "check_login_fields (pw_provider w) d") (simp_all add: provider_login_def eff_run)
  obtain a signature ch n where f: "check_login_fields (pw_provider w) d = Inr (a, signature, ch, n)"
    using x by (cases x) auto
  then have "yields (ebind (on_provider (check_rate_limit ts a n)) (\<lambda>_.
     ebind (on_provider (verify_xrpl_signature env ts a signature ch n)) (\<lambda>_.
     ebind (wallet_user env username a n) (\<lambda>user_id.
     ebind (store_wallet_mapping ts user_id a n) (\<lambda>_.
     ebind (on_provider (clear_rate_limit a n)) (\<lambda>_. eret user_id)))))) w u w'"
    using assms by (simp add: provider_login_def eff_run)
  then obtain w1 w2 w3 w4 where r: "yields (on_provider (check_rate_limit ts a n)) w () w1"
      "yields (on_provider (verify_xrpl_signature env ts a signature ch n)) w1 () w2"
      "yields (wallet_user env username a n) w2 u w3" "yields (store_wallet_mapping ts u a n) w3 () w4"
      "yields (on_provider (clear_rate_limit a n)) w4 () w'"
    unfolding yields_ebind yields_simps by (elim exE conjE) simp
  have ch: "ch = field_of d ''challenge''" using check_login_fields_ok[OF f] by simp
  from r(1,2) obtain p1 p2 where y: "yields (check_rate_limit ts a n) (pw_provider w) () p1"
      "yields (verify_xrpl_signature env ts a signature ch n) p1 () p2" and w2: "w2 = w\<lparr>pw_provider := p2\<rparr>"
    by (auto simp: yields_ezoom)
  have w': "yields (upsert_wallet_mapping u a n (t_link ts)) (pw_server w3) () (pw_server w')"
      "used_challenge_nonces (pw_provider w') = used_challenge_nonces (pw_provider w3)"
    using r(4,5) unfolding store_wallet_mapping_def clear_rate_limit_def ensure_wallet_links_table_def
    by (auto simp: eff_simps)
  obtain limits where "p1 = (pw_provider w)\<lparr>wallet_rate_limits := limits\<rparr>"
    using check_rate_limit_yields[OF y(1)] by blast
  with y(2) have "yields (verify_xrpl_signature env ts a signature (field_of d ''challenge'') n)
       ((pw_provider w)\<lparr>wallet_rate_limits := limits\<rparr>) () p2" by (simp add: ch)
  moreover have "used_challenge_nonces (pw_provider w') = used_challenge_nonces p2"
    and uf: "user_found env (pw_server w) a n u (pw_server w3)"
    using wallet_user_yields[OF r(3)] w'(2) w2 by simp_all
  ultimately show thesis using that[OF f[unfolded ch] _ uf w'(1)] by blast
qed

end
