(* ===== verification/Wallet_Provider_Theorems.thy ===== *)
theory Wallet_Provider_Theorems
  imports Wallet_Provider_Props
begin

text \<open>
  The properties of the wallet provider: an accepted login is backed by a signature, and a challenge
  is accepted once in the minute after its first use.
\<close>

section \<open>One login\<close>


section \<open>What the provider remembers\<close>

text \<open>Nonces that have not expired by the time \<open>T\<close> are kept.\<close>

definition keeps_nonces :: "int \<Rightarrow> WalletProvider \<Rightarrow> WalletProvider \<Rightarrow> bool" where
  "keeps_nonces T p q \<longleftrightarrow> (\<forall>k e. dget (used_challenge_nonces p) k = Some e \<longrightarrow> T < e \<longrightarrow>
     dget (used_challenge_nonces q) k = Some e)"

definition world_keeps_nonces :: "int \<Rightarrow> provider_world \<Rightarrow> provider_world \<Rightarrow> bool" where
  "world_keeps_nonces T w w' \<longleftrightarrow> keeps_nonces T (pw_provider w) (pw_provider w')"

interpretation memory: evolution "keeps_nonces T" for T
  by unfold_locales (auto simp: keeps_nonces_def)

interpretation world_memory: evolution "world_keeps_nonces T" for T
  by unfold_locales (auto simp: world_keeps_nonces_def keeps_nonces_def)

lemma evolves_on_provider [evolves_intros]:
  assumes "evolves (keeps_nonces T) m"
  shows "evolves (world_keeps_nonces T) (on_provider m)"
  unfolding evolves_def
proof
  fix w :: provider_world
  have "keeps_nonces T (pw_provider w) (snd (m (pw_provider w)))" using assms by (simp add: evolves_def)
  then show "world_keeps_nonces T w (snd (on_provider m w))"
    by (simp add: world_keeps_nonces_def ezoom_def split_beta Let_def)
qed

lemma evolves_on_server [evolves_intros]: "evolves (world_keeps_nonces T) (on_server m)"
  by (simp add: evolves_def ezoom_def world_keeps_nonces_def keeps_nonces_def split_beta Let_def)

lemma keeps_nonces_frame [evolves_intros]:
  "used_challenge_nonces q = used_challenge_nonces p \<Longrightarrow> keeps_nonces T p q"
  by (simp add: keeps_nonces_def)

lemma evolves_json_cases [evolves_intros]:
  "(\<And>s. v = JStr s \<Longrightarrow> evolves R (f s)) \<Longrightarrow> evolves R m \<Longrightarrow>
     evolves R (case v of JStr s \<Rightarrow> f s | _ \<Rightarrow> m)"
  by (cases v) auto

lemma consume_nonce_keeps:
  assumes "t_nonce ts \<le> T"
  shows "evolves (keeps_nonces T) (consume_nonce ts n a x)"
  unfolding evolves_def keeps_nonces_def
proof (intro allI impI)
  fix p :: WalletProvider and k e assume k: "dget (used_challenge_nonces p) k = Some e" "T < e"
  obtain r q where c: "consume_nonce ts n a x p = (r, q)" by (cases "consume_nonce ts n a x p")
  then obtain fresh where y: "yields (consume_nonce ts n a x) p fresh q"
    using consume_nonce_never_fails by (cases r) auto
  have "dget (live_nonces (t_nonce ts) p) k = Some e"
    using dget_live[OF k(1)] k(2) assms by (simp add: live_nonces_def)
  then have "dget (used_challenge_nonces q) k = Some e"
    using y[unfolded consume_nonce_yields] by (auto simp: dhas_def)
  then show "dget (used_challenge_nonces (snd (consume_nonce ts n a x p))) k = Some e" by (simp add: c)
qed

lemma enforce_keeps:
  assumes "t_nonce ts \<le> T"
  shows "evolves (keeps_nonces T) (enforce_nonce_timestamp ts d a n)"
  unfolding enforce_nonce_timestamp_def by (intro evolves_intros consume_nonce_keeps[OF assms])

lemma verify_keeps:
  assumes "t_nonce ts \<le> T"
  shows "evolves (keeps_nonces T) (verify_xrpl_signature env ts a signature ch n)"
  unfolding verify_xrpl_signature_def by (intro evolves_intros enforce_keeps[OF assms])

lemma check_auth_keeps:
  assumes "t_nonce ts \<le> T"
  shows "evolves (world_keeps_nonces T) (check_auth env ts username login_type d)"
proof -
  have "evolves (world_keeps_nonces T) (wallet_user env username a n)" for a n
    unfolding wallet_user_def get_user_by_wallet_def ensure_wallet_links_table_def
    by (intro evolves_intros) simp_all
  moreover have "evolves (world_keeps_nonces T) (store_wallet_mapping ts u a n)" for u a n
    unfolding store_wallet_mapping_def ensure_wallet_links_table_def by (intro evolves_intros) simp_all
  moreover have "evolves (keeps_nonces T) (check_rate_limit ts a n)" "evolves (keeps_nonces T) (clear_rate_limit a n)" for a n
    unfolding check_rate_limit_def clear_rate_limit_def Let_def by (intro evolves_intros; simp)+
  ultimately show ?thesis
    unfolding check_auth_def provider_login_def
    by (intro evolves_intros verify_keeps[OF assms]) simp_all
qed

section \<open>Sequences of logins\<close>

text \<open>What an accepted login leaves in the provider's memory.\<close>

lemma accepted_login_effect:
  assumes "yields (check_auth env ts username login_type d) w (Some u) w'"
    and f: "check_login_fields (pw_provider w) d = Inr (a, signature, ch, n)"
    and c: "parse_challenge (pe_json_loads env) ch = Some c" and "field_of c ''nonce'' = JStr nonce"
    and "parse_timestamp_ms (field_of c ''timestamp'') = Inr (Some timestamp_ms)"
  shows "fresh_challenge ts (pw_provider w) c a n nonce timestamp_ms"
    and "used_challenge_nonces (pw_provider w') =
      dset (nonce_key n a nonce) (t_nonce ts + CHALLENGE_MAX_AGE_MS) (live_nonces (t_nonce ts) (pw_provider w))"
proof -
  have y: "yields (provider_login env ts username d) w u w'"
    using assms(1) by (auto simp: check_auth_def eff_simps split: if_splits)
  obtain a' signature' n' limits where
    f': "check_login_fields (pw_provider w) d = Inr (a', signature', field_of d ''challenge'', n')" and
    "\<exists>q. yields (verify_xrpl_signature env ts a' signature' (field_of d ''challenge'') n')
       ((pw_provider w)\<lparr>wallet_rate_limits := limits\<rparr>) () q \<and>
       used_challenge_nonces (pw_provider w') = used_challenge_nonces q"
    by (rule provider_login_yields[OF y])
  then obtain q where v: "yields (verify_xrpl_signature env ts a signature ch n)
       ((pw_provider w)\<lparr>wallet_rate_limits := limits\<rparr>) () q"
      and q: "used_challenge_nonces (pw_provider w') = used_challenge_nonces q"
    using f by auto
  obtain nonce' tm where "fresh_challenge ts ((pw_provider w)\<lparr>wallet_rate_limits := limits\<rparr>) c a n nonce' tm"
    "q = (pw_provider w)\<lparr>wallet_rate_limits := limits, used_challenge_nonces := dset (nonce_key n a nonce')
       (t_nonce ts + CHALLENGE_MAX_AGE_MS) (live_nonces (t_nonce ts) (pw_provider w))\<rparr>"
    by (rule verify_xrpl_signature_yields[OF v]) (use c in \<open>auto simp: live_nonces_def\<close>)
  moreover from this(1) have "nonce' = nonce" "tm = timestamp_ms"
    using assms(4,5) by (simp_all add: fresh_challenge_def)
  ultimately show "fresh_challenge ts (pw_provider w) c a n nonce timestamp_ms"
    "used_challenge_nonces (pw_provider w') =
      dset (nonce_key n a nonce) (t_nonce ts + CHALLENGE_MAX_AGE_MS) (live_nonces (t_nonce ts) (pw_provider w))"
    using q by (simp_all add: fresh_challenge_def live_nonces_def)
qed

text \<open>
  Runs of the provider: logins one after the other, accepted ones recorded with what their challenge
  carried, and between them whatever the rest of the server does to its tables.
\<close>

datatype provider_event =
    Accepted provider_times string string string int string
  | Refused provider_times

inductive provider_run ::
    "provider_env \<Rightarrow> provider_world \<Rightarrow> provider_event list \<Rightarrow> int \<Rightarrow> provider_world \<Rightarrow> bool" for env w0 where
  run_start: "provider_run env w0 [] now w0"
| run_accepted: "provider_run env w0 (evs @ [Accepted ts n a nonce timestamp_ms u]) (t_nonce ts) w'"
    if "provider_run env w0 evs now w" and "now \<le> t_check ts" and "t_check ts \<le> t_nonce ts"
      and "yields (check_auth (env\<lparr>pe_meanwhile := m\<rparr>) ts username login_type d) w (Some u) w'"
      and "check_login_fields (pw_provider w) d = Inr (a, signature, ch, n)"
      and "parse_challenge (pe_json_loads env) ch = Some c" and "field_of c ''nonce'' = JStr nonce"
      and "parse_timestamp_ms (field_of c ''timestamp'') = Inr (Some timestamp_ms)"
| run_refused: "provider_run env w0 (evs @ [Refused ts]) (t_nonce ts) w'"
    if "provider_run env w0 evs now w" and "now \<le> t_check ts" and "t_check ts \<le> t_nonce ts"
      and "yields (check_auth (env\<lparr>pe_meanwhile := m\<rparr>) ts username login_type d) w None w'"
| run_other: "provider_run env w0 evs now (w\<lparr>pw_server := s\<rparr>)" if "provider_run env w0 evs now w"

lemma check_auth_remembers:
  assumes "yields (check_auth env ts username login_type d) w r w'" and "t_nonce ts < e"
    and "dget (used_challenge_nonces (pw_provider w)) k = Some e"
  shows "dget (used_challenge_nonces (pw_provider w')) k = Some e"
  using evolvesD[OF check_auth_keeps[OF order_refl] assms(1)] assms(2,3)
  by (simp add: world_keeps_nonces_def keeps_nonces_def)

text \<open>The nonce of an accepted login is remembered for a minute, whatever happens in between.\<close>

lemma nonce_remembered:
  assumes "provider_run env w0 evs now w" and "Accepted ts n a nonce timestamp_ms u \<in> set evs"
    and "now < t_nonce ts + CHALLENGE_MAX_AGE_MS"
  shows "dget (used_challenge_nonces (pw_provider w)) (nonce_key n a nonce) = Some (t_nonce ts + CHALLENGE_MAX_AGE_MS)"
  using assms
proof (induction rule: provider_run.induct)
  case (run_accepted evs now w ts' m username login_type d u' w' a' signature ch n' c nonce' tm)
  have c: "parse_challenge (pe_json_loads (env\<lparr>pe_meanwhile := m\<rparr>)) ch = Some c"
    using run_accepted.hyps(6) by simp
  note eff = accepted_login_effect[OF run_accepted.hyps(4,5) c run_accepted.hyps(7,8)]
  show ?case
  proof (cases "Accepted ts n a nonce timestamp_ms u \<in> set evs")
    case True
    with run_accepted have "dget (used_challenge_nonces (pw_provider w)) (nonce_key n a nonce) =
        Some (t_nonce ts + CHALLENGE_MAX_AGE_MS)" by linarith
    then show ?thesis
      using check_auth_remembers[OF run_accepted.hyps(4) run_accepted.prems(2)] by blast
  next
    case False
    then show ?thesis using run_accepted.prems(1) run_accepted.hyps(3) eff by (simp add: fresh_challenge_def)
  qed
next
  case (run_refused evs now w ts' m username login_type d w')
  then have "dget (used_challenge_nonces (pw_provider w)) (nonce_key n a nonce) =
      Some (t_nonce ts + CHALLENGE_MAX_AGE_MS)" by auto
  then show ?case
    using check_auth_remembers[OF run_refused.hyps(4) run_refused.prems(2)] by blast
qed auto

lemma nonce_time:
  assumes "provider_run env w0 evs now w" and "Accepted ts n a nonce timestamp_ms u \<in> set evs"
  shows "timestamp_ms \<le> t_nonce ts"
  using assms
proof (induction rule: provider_run.induct)
  case (run_accepted evs now w ts' m username login_type d u' w' a' signature ch n' c nonce' tm)
  have c: "parse_challenge (pe_json_loads (env\<lparr>pe_meanwhile := m\<rparr>)) ch = Some c"
    using run_accepted.hyps(6) by simp
  show ?case
    using accepted_login_effect(1)[OF run_accepted.hyps(4,5) c run_accepted.hyps(7,8)] run_accepted
    by (auto simp: fresh_challenge_def)
qed auto

text \<open>The login that the last event of a run records.\<close>

lemma run_last_accepted:
  assumes "provider_run env w0 es now w" and "es = evs @ [Accepted ts n a nonce timestamp_ms u]"
  shows "\<exists>now' w' c. provider_run env w0 evs now' w' \<and> now' \<le> t_check ts \<and> t_check ts \<le> t_nonce ts \<and>
    fresh_challenge ts (pw_provider w') c a n nonce timestamp_ms"
  using assms
proof (induction arbitrary: rule: provider_run.induct)
  case (run_accepted evs' now w ts' m username login_type d u' w' a' signature ch n' c nonce' tm)
  have c: "parse_challenge (pe_json_loads (env\<lparr>pe_meanwhile := m\<rparr>)) ch = Some c"
    using run_accepted.hyps(6) by simp
  from run_accepted.prems have "evs' = evs" "ts' = ts" "n' = n" "a' = a" "nonce' = nonce" "tm = timestamp_ms" by simp_all
  then show ?case
    using run_accepted.hyps(1-3) accepted_login_effect(1)[OF run_accepted.hyps(4,5) c run_accepted.hyps(7,8)] by blast
qed auto

text \<open>
  C12. In every run of the provider: if a login is accepted with the network, address and nonce of an
  earlier accepted one, at least a minute has passed since that one; and if the two carry the same
  timestamp, the later one was checked no later than a minute after. So the same challenge can be
  used twice only in the very millisecond in which a minute has passed.
\<close>

theorem challenge_accepted_once:
  assumes "provider_run env w0 (evs @ [Accepted ts2 n a nonce timestamp2 u2]) now w"
    and "Accepted ts1 n a nonce timestamp1 u1 \<in> set evs"
  shows "t_nonce ts1 + CHALLENGE_MAX_AGE_MS \<le> t_nonce ts2 \<and>
    (timestamp2 = timestamp1 \<longrightarrow> t_check ts2 \<le> t_nonce ts1 + CHALLENGE_MAX_AGE_MS)"
proof -
  obtain now' w' c where r: "provider_run env w0 evs now' w'" "now' \<le> t_check ts2" "t_check ts2 \<le> t_nonce ts2"
    and f: "fresh_challenge ts2 (pw_provider w') c a n nonce timestamp2"
    using run_last_accepted[OF assms(1) refl] by blast
  have "t_nonce ts1 + CHALLENGE_MAX_AGE_MS \<le> t_nonce ts2"
  proof (rule ccontr)
    assume "\<not> t_nonce ts1 + CHALLENGE_MAX_AGE_MS \<le> t_nonce ts2"
    with r nonce_remembered[OF r(1) assms(2)]
    have "dget (live_nonces (t_nonce ts2) (pw_provider w')) (nonce_key n a nonce) = Some (t_nonce ts1 + CHALLENGE_MAX_AGE_MS)"
      unfolding live_nonces_def by (intro dget_live) auto
    with f show False by (simp add: fresh_challenge_def dhas_def)
  qed
  moreover have "timestamp1 \<le> t_nonce ts1" using nonce_time[OF r(1) assms(2)] .
  ultimately show ?thesis using f by (simp add: fresh_challenge_def)
qed

end
