(* ===== verification/Wallet_Provider_Samples.thy ===== *)
theory Wallet_Provider_Samples
  imports Wallet_Provider_Theorems Xrpl_Auth_Samples
begin

text \<open>
  A provider on which the theorems apply, with the examples behind three observations: a signed
  message can be sent again with a part of its nonce as the nonce, the same challenge can be sent
  again when exactly a minute has passed, and an account that appears while a registration waits is
  handed to the wallet.
\<close>

definition sample_provider :: WalletProvider where
  "sample_provider = (case provider_new (\<lambda>_. []) [(''allowed_networks'', JList [JStr ''xrpl'']),
       (''xrpl'', JDict [(''jsonrpc_url'', JStr ''u'')])] of
     Inr p \<Rightarrow> p | Inl _ \<Rightarrow> \<lparr>allowed_networks = [], default_network = [], jsonrpc_urls_by_network = [],
       clients_by_network = [], wallet_table_ready = False, used_challenge_nonces = [], wallet_rate_limits = []\<rparr>)"

definition sample_world :: provider_world where
  "sample_world = \<lparr>pw_provider = sample_provider, pw_server = sample_start\<rparr>"

definition sample_provider_env :: provider_env where
  "sample_provider_env = \<lparr>pe_lib = sample_lib, pe_json_loads = (\<lambda>_. None), pe_account_info = (\<lambda>_ _. Some True),
     pe_server = sample_server_env, pe_meanwhile = (\<lambda>s. s)\<rparr>"

definition times_at :: "int \<Rightarrow> provider_times" where
  "times_at t = \<lparr>t_limit = t, t_check = t, t_nonce = t, t_link = t\<rparr>"

definition signed_login :: "string \<Rightarrow> json_dict" where
  "signed_login nonce = [(''wallet_address'', JStr ''rAlice''), (''signature'', JStr ''114b4559''),
     (''challenge'', JDict [(''nonce'', JStr nonce), (''timestamp'', JInt 1700000000000),
        (''public_key'', JStr ''KEY''), (''message'', JStr ''n12 1700000000000'')])]"

definition first_login :: "string option res \<times> provider_world" where
  "first_login = check_auth sample_provider_env (times_at 1700000000000) ''bob'' LOGIN_TYPE (signed_login ''n12'') sample_world"

definition second_login :: "int \<Rightarrow> string \<Rightarrow> string option res \<times> provider_world" where
  "second_login t nonce =
     check_auth sample_provider_env (times_at t) ''bob'' LOGIN_TYPE (signed_login nonce) (snd first_login)"

text \<open>
  The first login is accepted; sending it again a millisecond before the minute is over is refused;
  sending it again when the minute is over is accepted; and so is sending the signed message again
  one millisecond after its first use with another nonce that occurs in it.
\<close>

lemma signed_message_replays:
  "fst first_login = Inr (Some ''@bob:hs'') \<and>
   fst (second_login 1700000059999 ''n12'') = Inr None \<and>
   fst (second_login 1700000060000 ''n12'') = Inr (Some ''@bob:hs'') \<and>
   fst (second_login 1700000000001 ''n1'') = Inr (Some ''@bob:hs'')"
  by code_simp

text \<open>An account made by someone else while the registration waits becomes the account of the wallet.\<close>

lemma waiting_registration_adopts:
  "fst (check_auth (sample_provider_env\<lparr>pe_meanwhile := (\<lambda>s. s\<lparr>users := [''@bob:hs'']\<rparr>)\<rparr>) (times_at 1700000000000)
     ''bob'' LOGIN_TYPE (signed_login ''n12'') sample_world) = Inr (Some ''@bob:hs'')"
  by code_simp

section \<open>Instances of the theorems\<close>

lemma sample_logins:
  "yields (check_auth sample_provider_env (times_at 1700000000000) ''bob'' LOGIN_TYPE (signed_login ''n12''))
     sample_world (Some ''@bob:hs'') (snd first_login)"
  "yields (check_auth sample_provider_env (times_at 1700000060000) ''bob'' LOGIN_TYPE (signed_login ''n12''))
     (snd first_login) (Some ''@bob:hs'') (snd (second_login 1700000060000 ''n12''))"
  using signed_message_replays unfolding first_login_def second_login_def by (simp_all add: prod_eq_iff)


lemma sample_fields:
  "check_login_fields (pw_provider sample_world) (signed_login ''n12'') =
     Inr (''rAlice'', ''114b4559'', field_of (signed_login ''n12'') ''challenge'', ''xrpl'') \<and>
   check_login_fields (pw_provider (snd first_login)) (signed_login ''n12'') =
     Inr (''rAlice'', ''114b4559'', field_of (signed_login ''n12'') ''challenge'', ''xrpl'')"
  by code_simp

lemma sample_challenge_fields:
  "parse_challenge (pe_json_loads sample_provider_env) (field_of (signed_login ''n12'') ''challenge'') =
     Some [(''nonce'', JStr ''n12''), (''timestamp'', JInt 1700000000000),
        (''public_key'', JStr ''KEY''), (''message'', JStr ''n12 1700000000000'')]"
  "field_of [(''nonce'', JStr ''n12''), (''timestamp'', JInt 1700000000000),
        (''public_key'', JStr ''KEY''), (''message'', JStr ''n12 1700000000000'')] ''nonce'' = JStr ''n12''"
  "parse_timestamp_ms (field_of [(''nonce'', JStr ''n12''), (''timestamp'', JInt 1700000000000),
        (''public_key'', JStr ''KEY''), (''message'', JStr ''n12 1700000000000'')] ''timestamp'') = Inr (Some 1700000000000)"
  by (simp_all add: signed_login_def to_ms_def dget_or_def)

lemma sample_meanwhile: "sample_provider_env\<lparr>pe_meanwhile := \<lambda>s. s\<rparr> = sample_provider_env"
  by (simp add: sample_provider_env_def)

lemma sample_provider_run:
  "provider_run sample_provider_env sample_world
     ([Accepted (times_at 1700000000000) ''xrpl'' ''rAlice'' ''n12'' 1700000000000 ''@bob:hs'']
      @ [Accepted (times_at 1700000060000) ''xrpl'' ''rAlice'' ''n12'' 1700000000000 ''@bob:hs''])
     (t_nonce (times_at 1700000060000)) (snd (second_login 1700000060000 ''n12''))"
proof -
  have 1: "provider_run sample_provider_env sample_world
     ([] @ [Accepted (times_at 1700000000000) ''xrpl'' ''rAlice'' ''n12'' 1700000000000 ''@bob:hs''])
     (t_nonce (times_at 1700000000000)) (snd first_login)"
    by (rule run_accepted[OF run_start _ _ _ sample_fields[THEN conjunct1] sample_challenge_fields,
          where m = "\<lambda>s. s" and now = 0, unfolded sample_meanwhile, OF _ _ sample_logins(1)]) (simp_all add: times_at_def)
  show ?thesis
    by (rule run_accepted[OF 1[unfolded append_Nil] _ _ _ sample_fields[THEN conjunct2] sample_challenge_fields,
          where m = "\<lambda>s. s", unfolded sample_meanwhile, OF _ _ sample_logins(2)]) (simp_all add: times_at_def)
qed

theorem challenge_accepted_once_witness:
  "t_nonce (times_at 1700000000000) + CHALLENGE_MAX_AGE_MS \<le> t_nonce (times_at 1700000060000) \<and>
   t_check (times_at 1700000060000) \<le> t_nonce (times_at 1700000000000) + CHALLENGE_MAX_AGE_MS"
  using challenge_accepted_once[OF sample_provider_run] by simp

end
