(* ===== verification/Trust.thy ===== *)
theory Trust
  imports Accounts Events
begin

text \<open>
  The trust network of wallets (\<open>handlers/verification.py\<close>): payments are allowed between users
  whose wallets trust each other by the metadata of an identity token on the ledger, and
  verification events are recorded in account data and announced in rooms. The ledger, the web, the
  hash function and JSON text are fields of \<open>ledger_env\<close>, one environment for each moment; the
  awaits of one call are taken to happen at one moment. The external cache
  (\<open>replication/tcp/external_cache.py\<close>) is a table whose entries expire, and does nothing when it is
  not enabled.
\<close>

section \<open>Environment and state\<close>

record ledger_env =
  le_account_nfts :: "string \<Rightarrow> json \<Rightarrow> json_dict option"
  le_tx :: "string \<Rightarrow> json_dict option"
  le_nft_modify :: "json_dict \<Rightarrow> (string \<times> string option \<times> string option) option"
  le_http_get :: "string \<Rightarrow> string option"
  le_unquote :: "string \<Rightarrow> string"
  le_sha256 :: "string \<Rightarrow> string"
  le_json_loads :: "string \<Rightarrow> json option"
  le_json_dumps :: "json \<Rightarrow> string"
  le_float_repr :: "rat \<Rightarrow> string"
  le_cache_enabled :: bool
  le_server_name :: string
  le_rooms_of :: "string \<Rightarrow> string list"
  le_room_accepts :: "string \<Rightarrow> bool"

record trust_state =
  tr_cache :: "(string \<times> string, json \<times> int) dict"
  tr_account_data :: "(string \<times> string, json) dict"
  tr_sent :: "(string \<times> string \<times> json) list"

abbreviation VERIFY_REQUEST_EVENT :: string where "VERIFY_REQUEST_EVENT \<equiv> ''m.user.verify.request''"
abbreviation VERIFY_ACCEPT_EVENT :: string where "VERIFY_ACCEPT_EVENT \<equiv> ''m.user.verify.accept''"
abbreviation VERIFIED_EVENT :: string where "VERIFIED_EVENT \<equiv> ''m.user.verified''"
abbreviation CHAT_PAY_EVENT :: string where "CHAT_PAY_EVENT \<equiv> ''m.chat.pay''"
abbreviation XRPL_IDENTITY_ACCOUNT_DATA_EVENT :: string where
  "XRPL_IDENTITY_ACCOUNT_DATA_EVENT \<equiv> ''io.textrp.xrpl.identity_nft''"
abbreviation TRUST_CACHE_NAME :: string where "TRUST_CACHE_NAME \<equiv> ''xrpl_trust''"
abbreviation URI_METADATA_CACHE_NAME :: string where "URI_METADATA_CACHE_NAME \<equiv> ''xrpl_uri_metadata''"

text \<open>\<open>str(v).strip()\<close> of a field with a default of the empty string.\<close>

definition text_field :: "ledger_env \<Rightarrow> json_dict \<Rightarrow> string \<Rightarrow> string" where
  "text_field env d k = py_strip (py_str (le_float_repr env) (dget_or d k (JStr [])))"

section \<open>The external cache\<close>

definition cache_get :: "ledger_env \<Rightarrow> int \<Rightarrow> string \<Rightarrow> string \<Rightarrow> (trust_state, json option) eff" where
  "cache_get env now cache_name key = egets (\<lambda>s.
     if \<not> le_cache_enabled env then None
     else (case dget (tr_cache s) (cache_name, key) of
             Some (v, expiry) \<Rightarrow> if now < expiry then Some v else None
           | None \<Rightarrow> None))"

definition cache_set :: "ledger_env \<Rightarrow> int \<Rightarrow> string \<Rightarrow> string \<Rightarrow> json \<Rightarrow> int \<Rightarrow> (trust_state, unit) eff" where
  "cache_set env now cache_name key v expiry_ms = emodify (\<lambda>s.
     if \<not> le_cache_enabled env then s
     else s\<lparr>tr_cache := dset (cache_name, key) (v, now + expiry_ms) (tr_cache s)\<rparr>)"

section \<open>Identity tokens\<close>

text \<open>\<open>bytes.decode("utf-8")\<close>, for the characters of the model.\<close>

fun utf8_decode :: "string \<Rightarrow> string option" where
  "utf8_decode [] = Some []"
| "utf8_decode (b # bs) =
     (if icode b < 128 then map_option ((#) b) (utf8_decode bs)
      else (case bs of
          c # cs \<Rightarrow>
            if (icode b = 194 \<or> icode b = 195) \<and> 128 \<le> icode c \<and> icode c < 192
            then map_option ((#) (char_of ((icode b - 192) * 64 + (icode c - 128)))) (utf8_decode cs)
            else None
        | [] \<Rightarrow> None))"

definition is_hex :: "char \<Rightarrow> bool" where
  "is_hex c \<longleftrightarrow> c \<in> set ''0123456789abcdefABCDEF''"

definition decode_xrpl_uri :: "string \<Rightarrow> string" where
  "decode_xrpl_uri encoded =
     (let v = py_strip encoded in
      if v = [] then []
      else if even (length v) \<and> list_all is_hex v then
        (case bytes_fromhex v of
           Inr bytes \<Rightarrow> (case utf8_decode bytes of Some s \<Rightarrow> s | None \<Rightarrow> v)
         | Inl _ \<Rightarrow> v)
      else v)"

definition extract_verifiers_from_metadata :: "json \<Rightarrow> string list" where
  "extract_verifiers_from_metadata metadata = (case metadata of
       JDict d \<Rightarrow> (case dget d ''verifiers'' of
           Some (JList vs) \<Rightarrow> map (\<lambda>v. py_lower (py_strip v))
             (filter (\<lambda>v. py_strip v \<noteq> []) (somes (map (\<lambda>v. case v of JStr s \<Rightarrow> Some s | _ \<Rightarrow> None) vs)))
         | _ \<Rightarrow> [])
     | _ \<Rightarrow> [])"

definition matching_nft :: "ledger_env \<Rightarrow> string option \<Rightarrow> json \<Rightarrow> json_dict option" where
  "matching_nft env expected entry = (case entry of
       JDict d \<Rightarrow> (case expected of
           Some token \<Rightarrow> if py_lower (text_field env d ''NFTokenID'') = token then Some d else None
         | None \<Rightarrow> if text_field env d ''URI'' \<noteq> [] then Some d else None)
     | _ \<Rightarrow> None)"

text \<open>At most two pages of the account's tokens are read.\<close>

fun fetch_nft_pages :: "nat \<Rightarrow> ledger_env \<Rightarrow> string \<Rightarrow> string option \<Rightarrow> json \<Rightarrow> json_dict res" where
  "fetch_nft_pages 0 env xrpl_address expected marker = Inl ValueError"
| "fetch_nft_pages (Suc n) env xrpl_address expected marker =
     (case le_account_nfts env xrpl_address marker of
        None \<Rightarrow> Inl (OtherException ''request'')
      | Some result \<Rightarrow>
          (case dget_or result ''account_nfts'' (JList []) of
             JList nfts \<Rightarrow> (case somes (map (matching_nft env expected) nfts) of
                 entry # _ \<Rightarrow> Inr entry
               | [] \<Rightarrow> if field_of result ''marker'' = JNull then Inl ValueError
                       else fetch_nft_pages n env xrpl_address expected (field_of result ''marker''))
           | _ \<Rightarrow> if field_of result ''marker'' = JNull then Inl ValueError
                  else fetch_nft_pages n env xrpl_address expected (field_of result ''marker'')))"

definition fetch_identity_nft :: "ledger_env \<Rightarrow> string \<Rightarrow> string option \<Rightarrow> json_dict res" where
  "fetch_identity_nft env xrpl_address expected_nft_token_id =
     fetch_nft_pages 2 env xrpl_address
       (case expected_nft_token_id of None \<Rightarrow> None | Some t \<Rightarrow> if t = [] then None else Some (py_lower t)) JNull"

fun dict_or_empty :: "json \<Rightarrow> json_dict" where
  "dict_or_empty (JDict d) = d"
| "dict_or_empty _ = []"

definition loads_dict :: "ledger_env \<Rightarrow> string \<Rightarrow> json_dict res" where
  "loads_dict env text = (case le_json_loads env text of
       None \<Rightarrow> Inl ValueError | Some v \<Rightarrow> Inr (dict_or_empty v))"

definition fetch_uri_metadata :: "ledger_env \<Rightarrow> string \<Rightarrow> json_dict res" where
  "fetch_uri_metadata env uri =
     (if starts_with ''{'' uri then loads_dict env uri
      else if starts_with ''data:application/json,'' uri then
        loads_dict env (le_unquote env (last (split_once CHR '','' uri)))
      else if starts_with ''ipfs://'' uri then
        (case le_http_get env (''https://ipfs.io/ipfs/'' @ drop 7 uri) of
           None \<Rightarrow> Inl (OtherException ''urlopen'')
         | Some raw \<Rightarrow> loads_dict env raw)
      else Inr [])"

definition load_verifiers_from_uri :: "ledger_env \<Rightarrow> int \<Rightarrow> string \<Rightarrow> (trust_state, string list) eff" where
  "load_verifiers_from_uri env now uri =
     (if uri = [] then eret []
      else
        (let cache_key = le_sha256 env (utf8_encode uri) in
         ebind (cache_get env now URI_METADATA_CACHE_NAME cache_key) (\<lambda>cached.
         case (case cached of Some (JStr text) \<Rightarrow> le_json_loads env text | _ \<Rightarrow> None) of
           Some metadata \<Rightarrow> eret (extract_verifiers_from_metadata metadata)
         | None \<Rightarrow>
             ebind (elift (fetch_uri_metadata env uri)) (\<lambda>metadata.
             ebind (cache_set env now URI_METADATA_CACHE_NAME cache_key (JStr (le_json_dumps env (JDict metadata))) 60000) (\<lambda>_.
               eret (extract_verifiers_from_metadata (JDict metadata)))))))"

section \<open>Trust between wallets\<close>

definition trust_cache_key :: "ledger_env \<Rightarrow> string \<Rightarrow> string \<Rightarrow> string" where
  "trust_cache_key env payer_xrpl payee_xrpl =
     le_sha256 env (utf8_encode (py_lower payer_xrpl @ ''|'' @ py_lower payee_xrpl))"

definition has_directional_trust :: "ledger_env \<Rightarrow> int \<Rightarrow> string \<Rightarrow> string \<Rightarrow> (trust_state, bool) eff" where
  "has_directional_trust env now issuer_xrpl subject_xrpl =
     ebind (elift (fetch_identity_nft env issuer_xrpl None)) (\<lambda>identity_nft.
     ebind (load_verifiers_from_uri env now (decode_xrpl_uri (text_field env identity_nft ''URI''))) (\<lambda>verifiers.
       eret (py_lower subject_xrpl \<in> set verifiers)))"

definition has_direct_trust :: "ledger_env \<Rightarrow> int \<Rightarrow> string \<Rightarrow> string \<Rightarrow> (trust_state, bool) eff" where
  "has_direct_trust env now payer_xrpl payee_xrpl = has_directional_trust env now payer_xrpl payee_xrpl"

definition check_mutual_directions :: "ledger_env \<Rightarrow> int \<Rightarrow> string \<Rightarrow> string \<Rightarrow> (trust_state, bool \<times> bool) eff" where
  "check_mutual_directions env now payer_xrpl payee_xrpl =
     ebind (has_directional_trust env now payer_xrpl payee_xrpl) (\<lambda>payer_to_payee.
     ebind (has_directional_trust env now payee_xrpl payer_xrpl) (\<lambda>payee_to_payer.
       eret (payer_to_payee, payee_to_payer)))"

definition check_trust :: "ledger_env \<Rightarrow> int \<Rightarrow> string \<Rightarrow> string \<Rightarrow> (trust_state, bool) eff" where
  "check_trust env now payer_xrpl payee_xrpl =
     (let cache_key = trust_cache_key env payer_xrpl payee_xrpl in
      ebind (cache_get env now TRUST_CACHE_NAME cache_key) (\<lambda>cached.
      case (case cached of Some (JBool b) \<Rightarrow> Some b | _ \<Rightarrow> None) of
        Some b \<Rightarrow> eret b
      | None \<Rightarrow>
          ebind (has_direct_trust env now payer_xrpl payee_xrpl) (\<lambda>direct.
          ebind (if direct then eret True
                 else ebind (check_mutual_directions env now payer_xrpl payee_xrpl) (\<lambda>(a, b). eret (a \<and> b))) (\<lambda>trusted.
          ebind (cache_set env now TRUST_CACHE_NAME cache_key (JBool trusted) 60000) (\<lambda>_.
            eret trusted)))))"

text \<open>The answer of \<open>rest/client/trust.py\<close>: a score and the verdict.\<close>

definition trust_response :: "ledger_env \<Rightarrow> int \<Rightarrow> string \<Rightarrow> string \<Rightarrow> (trust_state, int \<times> json_dict) eff" where
  "trust_response env now payer payee =
     ebind (check_trust env now payer payee) (\<lambda>trusted.
       eret (200, [(''score'', JInt (if trusted then 1 else 0)), (''trusted'', JBool trusted)]))"

section \<open>Payments\<close>

definition resolve_xrpl_address_for_user :: "string \<Rightarrow> trust_state \<Rightarrow> string option" where
  "resolve_xrpl_address_for_user user_id s =
     (case dget (tr_account_data s) (user_id, XRPL_IDENTITY_ACCOUNT_DATA_EVENT) of
        Some (JDict d) \<Rightarrow> (case dget d ''xrplAddress'' of
            Some (JStr a) \<Rightarrow> if a = [] then None else Some a
          | _ \<Rightarrow> None)
      | _ \<Rightarrow> None)"

fun joined_other :: "string \<Rightarrow> ((string \<times> string) \<times> EventBase) list \<Rightarrow> string option res" where
  "joined_other payer_user_id [] = Inr None"
| "joined_other payer_user_id (((event_type, key), state_event) # rest) =
     (if event_type \<noteq> EventTypes_Member \<or> key = payer_user_id then joined_other payer_user_id rest
      else rbind (membership state_event) (\<lambda>m.
        if m = Membership_JOIN then Inr (Some key) else joined_other payer_user_id rest))"

definition extract_payee_user_id ::
    "json_dict \<Rightarrow> ((string \<times> string) \<times> EventBase) list \<Rightarrow> string \<Rightarrow> string option res" where
  "extract_payee_user_id content state_events payer_user_id =
     (case somes (map (\<lambda>k. case dget content k of
          Some (JStr v) \<Rightarrow> if starts_with ''@'' v then Some v else None | _ \<Rightarrow> None)
        [''payee_user_id'', ''recipient_user_id'', ''to_user_id'', ''payee'']) of
       v # _ \<Rightarrow> Inr (Some v)
     | [] \<Rightarrow> joined_other payer_user_id state_events)"

abbreviation not_in_trust_network :: py_error where
  "not_in_trust_network \<equiv> SynapseError 403 ''not_in_trust_network''"

definition check_event_allowed ::
    "ledger_env \<Rightarrow> int \<Rightarrow> EventBase \<Rightarrow> ((string \<times> string) \<times> EventBase) list \<Rightarrow> (trust_state, bool) eff" where
  "check_event_allowed env now event state_events =
     (if ev_type event \<noteq> CHAT_PAY_EVENT then eret True
      else
        ebind (elift (extract_payee_user_id (ev_content event) state_events (ev_sender event))) (\<lambda>payee.
        case payee of
          None \<Rightarrow> eraise not_in_trust_network
        | Some payee_user_id \<Rightarrow>
            if payee_user_id = [] then eraise not_in_trust_network
            else
              ebind (egets (resolve_xrpl_address_for_user (ev_sender event))) (\<lambda>payer_xrpl.
              ebind (egets (resolve_xrpl_address_for_user payee_user_id)) (\<lambda>payee_xrpl.
              case (payer_xrpl, payee_xrpl) of
                (Some a, Some b) \<Rightarrow>
                  ebind (check_trust env now a b) (\<lambda>trusted.
                  ebind (eguard (\<not> trusted) not_in_trust_network) (\<lambda>_. eret True))
              | _ \<Rightarrow> eraise not_in_trust_network))))"

section \<open>Verification events\<close>

definition is_mine_id :: "ledger_env \<Rightarrow> string \<Rightarrow> bool" where
  "is_mine_id env user_id = (case split_once CHR '':'' user_id of
       [_, host] \<Rightarrow> host = le_server_name env | _ \<Rightarrow> False)"

definition persist_verified_account_data :: "string \<Rightarrow> json_dict \<Rightarrow> (trust_state, unit) eff" where
  "persist_verified_account_data user_id verified_content =
     ebind (egets (\<lambda>s. dget (tr_account_data s) (user_id, VERIFIED_EVENT))) (\<lambda>existing.
       if (case existing of Some (JDict d) \<Rightarrow> field_of d ''tx_hash'' = field_of verified_content ''tx_hash'' | _ \<Rightarrow> False)
       then eret ()
       else emodify (\<lambda>s. s\<lparr>tr_account_data :=
              dset (user_id, VERIFIED_EVENT) (JDict verified_content) (tr_account_data s)\<rparr>))"

definition to_public_verified_content :: "json_dict \<Rightarrow> json_dict" where
  "to_public_verified_content verified_content =
     map (\<lambda>k. (k, field_of verified_content k))
       [''status'', ''trust_model'', ''tx_hash'', ''validated'', ''transaction_type'']"

text \<open>One announcement for each room of the user and the room of the event, in no particular order.\<close>

definition notify_rooms :: "ledger_env \<Rightarrow> string \<Rightarrow> json_dict \<Rightarrow> string \<Rightarrow> (trust_state, unit) eff" where
  "notify_rooms env user_id verified_content origin_room_id =
     emodify (\<lambda>s. s\<lparr>tr_sent := tr_sent s @
       map (\<lambda>room. (room, user_id, JDict verified_content))
         (filter (le_room_accepts env)
           (remdups (le_rooms_of env user_id @ (if origin_room_id = [] then [] else [origin_room_id]))))\<rparr>)"

definition handle_verify_request :: "ledger_env \<Rightarrow> EventBase \<Rightarrow> (trust_state, unit) eff" where
  "handle_verify_request env event =
     (let content = ev_content event; issuer = text_field env content ''issuer_xrpl_address'';
          target = text_field env content ''target_xrpl_address'' in
      if issuer = [] \<or> target = [] then eret ()
      else
        ebind (elift (fetch_identity_nft env issuer None)) (\<lambda>_.
        ebind (elift (fetch_identity_nft env target None)) (\<lambda>_.
        let verified_content =
          [(''status'', JStr ''requested''), (''trust_model'', JStr ''nft_metadata''),
           (''tx_hash'', JStr (text_field env content ''tx_hash'')),
           (''requester_user_id'', JStr (ev_sender event)), (''issuer_xrpl_address'', JStr issuer),
           (''target_xrpl_address'', JStr target), (''validated'', JBool True),
           (''transaction_type'', JStr ''NFTokenModify'')] in
        ebind (persist_verified_account_data (ev_sender event) verified_content) (\<lambda>_.
        ebind (elift (room_id event)) (\<lambda>room.
          notify_rooms env (ev_sender event) (to_public_verified_content verified_content) room)))))"

definition fetch_validated_tx :: "ledger_env \<Rightarrow> string \<Rightarrow> json_dict res" where
  "fetch_validated_tx env tx_hash = (case le_tx env tx_hash of
       None \<Rightarrow> Inl (OtherException ''request'')
     | Some result \<Rightarrow>
         if \<not> truthy (field_of result ''validated'') then Inl ValueError
         else if truthy (field_of result ''tx_json'') then
           (case field_of result ''tx_json'' of JDict d \<Rightarrow> Inr d | _ \<Rightarrow> Inl ValueError)
         else Inr result)"

abbreviation opt_text :: "string option \<Rightarrow> string" where
  "opt_text x \<equiv> (case x of None \<Rightarrow> [] | Some s \<Rightarrow> s)"

definition accept_uri :: "ledger_env \<Rightarrow> string option \<Rightarrow> json_dict \<Rightarrow> string" where
  "accept_uri env tx_uri identity_nft =
     (if opt_text tx_uri \<noteq> [] then py_strip (opt_text tx_uri)
      else if truthy (field_of identity_nft ''URI'')
      then py_strip (py_str (le_float_repr env) (field_of identity_nft ''URI'')) else [])"

definition validate_nft_modify_accept ::
    "ledger_env \<Rightarrow> int \<Rightarrow> string \<Rightarrow> string \<Rightarrow> string \<Rightarrow> (trust_state, json_dict \<times> string \<times> string) eff" where
  "validate_nft_modify_accept env now tx_hash expected_account expected_verifier =
     ebind (elift (fetch_validated_tx env tx_hash)) (\<lambda>tx_json.
     case le_nft_modify env tx_json of
       None \<Rightarrow> eraise (OtherException ''from_xrpl'')
     | Some (account, nftoken_id, tx_uri) \<Rightarrow>
         ebind (eguard (account \<noteq> expected_account) ValueError) (\<lambda>_.
         let nft_token_id = py_strip (opt_text nftoken_id) in
         ebind (eguard (nft_token_id = []) ValueError) (\<lambda>_.
         ebind (elift (fetch_identity_nft env expected_account (Some nft_token_id))) (\<lambda>identity_nft.
         let uri = decode_xrpl_uri (accept_uri env tx_uri identity_nft) in
         ebind (load_verifiers_from_uri env now uri) (\<lambda>verifiers.
         ebind (eguard (py_lower expected_verifier \<notin> set verifiers) ValueError) (\<lambda>_.
           eret (tx_json, nft_token_id, uri)))))))"

definition handle_verify_accept :: "ledger_env \<Rightarrow> int \<Rightarrow> EventBase \<Rightarrow> (trust_state, unit) eff" where
  "handle_verify_accept env now event =
     (let content = ev_content event; tx_hash = text_field env content ''tx_hash'';
          issuer = text_field env content ''issuer_xrpl_address'';
          accepter = text_field env content ''accepter_xrpl_address'' in
      if tx_hash = [] \<or> issuer = [] \<or> accepter = [] then eret ()
      else
        ebind (validate_nft_modify_accept env now tx_hash issuer accepter) (\<lambda>(tx_json, nft_token_id, uri).
        let verified_content =
          [(''status'', JStr ''verified''), (''trust_model'', JStr ''nft_metadata''), (''tx_hash'', JStr tx_hash),
           (''user_id'', JStr (ev_sender event)), (''issuer_xrpl_address'', JStr issuer),
           (''accepter_xrpl_address'', JStr accepter), (''nft_token_id'', JStr nft_token_id),
           (''ipfs_uri'', JStr uri), (''validated'', JBool True),
           (''transaction_type'', field_of tx_json ''TransactionType'')] in
        ebind (persist_verified_account_data (ev_sender event) verified_content) (\<lambda>_.
        ebind (elift (room_id event)) (\<lambda>room.
          notify_rooms env (ev_sender event) (to_public_verified_content verified_content) room))))"

definition on_new_event :: "ledger_env \<Rightarrow> int \<Rightarrow> EventBase \<Rightarrow> (trust_state, unit) eff" where
  "on_new_event env now event =
     (if ev_type event \<noteq> VERIFY_REQUEST_EVENT \<and> ev_type event \<noteq> VERIFY_ACCEPT_EVENT then eret ()
      else if \<not> is_mine_id env (ev_sender event) then eret ()
      else ecatch (if ev_type event = VERIFY_REQUEST_EVENT then handle_verify_request env event
                   else handle_verify_accept env now event) (\<lambda>_. eret ()))"

end
