(* ===== verification/Trust_Props.thy ===== *)
theory Trust_Props
  imports Trust
begin

text \<open>
  Payments need trust that is recent: whatever the caches hold, a payment is allowed only when, within
  the last minute, the identity token of the payer's wallet led to metadata, at most a minute old
  then, that lists the payee. The ledger and the web change over time: \<open>L t\<close> is what they answer at
  the time \<open>t\<close>.
\<close>

section \<open>What the model takes for granted of JSON and of the hash\<close>

text \<open>Metadata that was fetched and encoded is read back as it was, and no two texts have the same hash.\<close>

definition stable_codec :: "(int \<Rightarrow> ledger_env) \<Rightarrow> bool" where
  "stable_codec L \<longleftrightarrow>
     (\<forall>t t' uri m. fetch_uri_metadata (L t') uri = Inr m \<longrightarrow>
        le_json_loads (L t) (le_json_dumps (L t') (JDict m)) = Some (JDict m)) \<and>
     (\<forall>t t' x y. le_sha256 (L t) x = le_sha256 (L t') y \<longrightarrow> x = y)"

lemma utf8_decode_pair:
  "icode b = 194 \<or> icode b = 195 \<Longrightarrow> 128 \<le> icode d \<Longrightarrow> icode d < 192 \<Longrightarrow>
     utf8_decode (b # d # bs) = map_option ((#) (char_of ((icode b - 192) * 64 + (icode d - 128)))) (utf8_decode bs)"
  by auto

lemma utf8_decode_char: "utf8_decode (utf8_char c @ bs) = map_option ((#) c) (utf8_decode bs)"
proof (cases "icode c < 128")
  case True
  then show ?thesis by (simp add: utf8_char_code Let_def)
next
  case False
  define b d where "b = 192 + icode c div 64" and "d = 128 + icode c mod 64"
  have "icode c < 256" using nat_of_char_less_256[of c] by (simp add: char_code_int)
  then have "icode c div 64 = 2 \<or> icode c div 64 = 3" using False by linarith
  then have b: "b = 194 \<or> b = 195" by (auto simp: b_def)
  have d: "128 \<le> d" "d < 192" by (simp_all add: d_def)
  have i: "icode (char_of b) = b" "icode (char_of d) = d"
    using b d by (auto simp: of_char_of take_bit_eq_mod)
  have "(b - 192) * 64 + (d - 128) = icode c" by (simp add: b_def d_def)
  moreover have "utf8_char c = [char_of b, char_of d]"
    using False by (simp add: utf8_char_code Let_def b_def d_def)
  ultimately show ?thesis using utf8_decode_pair[of "char_of b" "char_of d" bs] b d i by simp
qed

lemma utf8_decode_encode: "utf8_decode (utf8_encode s) = Some s"
  by (induction s) (simp_all add: utf8_encode_def utf8_decode_char)

lemma utf8_encode_inj: "utf8_encode s = utf8_encode t \<longleftrightarrow> s = t"
  by (metis option.inject utf8_decode_encode)

section \<open>The caches\<close>

lemma cache_get_yields:
  "yields (cache_get env now c k) s v t \<longleftrightarrow> t = s \<and> v = (if le_cache_enabled env
     then (case dget (tr_cache s) (c, k) of Some (x, e) \<Rightarrow> if now < e then Some x else None | None \<Rightarrow> None) else None)"
  by (auto simp: cache_get_def eff_simps)

lemma cache_get_hit:
  "yields (cache_get env now c k) s (Some v) t \<Longrightarrow> t = s \<and> (\<exists>e. dget (tr_cache s) (c, k) = Some (v, e) \<and> now < e)"
  by (auto simp: cache_get_yields split: if_splits option.splits prod.splits)

lemma cache_set_yields:
  "yields (cache_set env now c k v x) s u t \<longleftrightarrow> t = (if le_cache_enabled env
     then s\<lparr>tr_cache := dset (c, k) (v, now + x) (tr_cache s)\<rparr> else s)"
  by (simp add: cache_set_def eff_simps)

lemma cache_never_fails: "\<not> fails (cache_get env now c k) s e t" "\<not> fails (cache_set env now c k v x) s e t"
  by (simp_all add: cache_get_def cache_set_def eff_simps)

text \<open>The issuer's token, at the time \<open>t\<close>, points to metadata fetched at most a minute before, which lists the subject.\<close>

definition trusts :: "(int \<Rightarrow> ledger_env) \<Rightarrow> int \<Rightarrow> string \<Rightarrow> string \<Rightarrow> bool" where
  "trusts L t issuer subject \<longleftrightarrow> (\<exists>nft m t'. fetch_identity_nft (L t) issuer None = Inr nft \<and>
     t' \<le> t \<and> t < t' + 60000 \<and>
     fetch_uri_metadata (L t') (decode_xrpl_uri (text_field (L t) nft ''URI'')) = Inr m \<and>
     py_lower subject \<in> set (extract_verifiers_from_metadata (JDict m)))"

definition metadata_sound :: "(int \<Rightarrow> ledger_env) \<Rightarrow> int \<Rightarrow> trust_state \<Rightarrow> bool" where
  "metadata_sound L now s \<longleftrightarrow> (\<forall>k text e. dget (tr_cache s) (URI_METADATA_CACHE_NAME, k) = Some (JStr text, e) \<longrightarrow>
     (\<exists>t uri m. t \<le> now \<and> e = t + 60000 \<and> k = le_sha256 (L t) (utf8_encode uri) \<and>
        text = le_json_dumps (L t) (JDict m) \<and> fetch_uri_metadata (L t) uri = Inr m))"

definition verdicts_sound :: "(int \<Rightarrow> ledger_env) \<Rightarrow> int \<Rightarrow> trust_state \<Rightarrow> bool" where
  "verdicts_sound L now s \<longleftrightarrow> (\<forall>k e. dget (tr_cache s) (TRUST_CACHE_NAME, k) = Some (JBool True, e) \<longrightarrow>
     (\<exists>t issuer subject. t \<le> now \<and> e = t + 60000 \<and> k = trust_cache_key (L t) issuer subject \<and>
        trusts L t issuer subject))"

abbreviation caches_sound :: "(int \<Rightarrow> ledger_env) \<Rightarrow> int \<Rightarrow> trust_state \<Rightarrow> bool" where
  "caches_sound L now s \<equiv> metadata_sound L now s \<and> verdicts_sound L now s"

lemma caches_sound_later: "caches_sound L now s \<Longrightarrow> now \<le> now' \<Longrightarrow> caches_sound L now' s"
  unfolding metadata_sound_def verdicts_sound_def by (meson order_trans)

lemma caches_sound_frame: "tr_cache t = tr_cache s \<Longrightarrow> caches_sound L now t \<longleftrightarrow> caches_sound L now s"
  by (simp add: metadata_sound_def verdicts_sound_def)

text \<open>A sequence of steps, whether or not it ends in an exception.\<close>

definition keeps_sound :: "(int \<Rightarrow> ledger_env) \<Rightarrow> int \<Rightarrow> trust_state \<Rightarrow> trust_state \<Rightarrow> bool" where
  "keeps_sound L now s t \<longleftrightarrow> (caches_sound L now s \<longrightarrow> caches_sound L now t)"

interpretation caches: evolution "keeps_sound L now" for L now
  by unfold_locales (auto simp: keeps_sound_def)

lemma keeps_sound_frame [evolves_intros]: "tr_cache t = tr_cache s \<Longrightarrow> keeps_sound L now s t"
  by (simp add: keeps_sound_def metadata_sound_def verdicts_sound_def)

lemma cache_get_keeps [evolves_intros]: "evolves (keeps_sound L now) (cache_get env t c k)"
  by (simp add: cache_get_def evolves_def egets_def keeps_sound_def)

lemma store_metadata_keeps:
  assumes "fetch_uri_metadata (L now) uri = Inr m"
  shows "evolves (keeps_sound L now) (cache_set (L now) now URI_METADATA_CACHE_NAME (le_sha256 (L now) (utf8_encode uri))
    (JStr (le_json_dumps (L now) (JDict m))) 60000)"
  using assms unfolding evolves_def keeps_sound_def cache_set_def emodify_def metadata_sound_def verdicts_sound_def
  by auto

lemma store_verdict_keeps:
  assumes "v \<longrightarrow> trusts L now issuer subject"
  shows "evolves (keeps_sound L now) (cache_set (L now) now TRUST_CACHE_NAME (trust_cache_key (L now) issuer subject)
    (JBool v) 60000)"
  using assms unfolding evolves_def keeps_sound_def cache_set_def emodify_def metadata_sound_def verdicts_sound_def
  by auto

section \<open>Looking up trust\<close>

lemma load_verifiers_keeps: "evolves (keeps_sound L now) (load_verifiers_from_uri (L now) now uri)"
  unfolding load_verifiers_from_uri_def Let_def
  by (intro evolves_if evolves_case_option caches.evolves_basic caches.evolves_ebind cache_get_keeps
      caches.evolves_elift_bind store_metadata_keeps)

lemma directional_keeps: "evolves (keeps_sound L now) (has_directional_trust (L now) now i j)"
  unfolding has_directional_trust_def by (intro evolves_intros load_verifiers_keeps)

lemma directions_keep: "evolves (keeps_sound L now) (check_mutual_directions (L now) now i j)"
  unfolding check_mutual_directions_def by (intro evolves_intros directional_keeps)

lemma evolves_sound: "evolves (keeps_sound L now) m \<Longrightarrow> caches_sound L now s \<Longrightarrow> caches_sound L now (snd (m s))"
  by (simp add: evolves_def keeps_sound_def)

text \<open>The verifiers come from metadata that is at most a minute old.\<close>

lemma cached_metadata:
  assumes "metadata_sound L now s" and "stable_codec L"
    and "dget (tr_cache s) (URI_METADATA_CACHE_NAME, le_sha256 (L now) (utf8_encode uri)) = Some (JStr text, e)"
    and "now < e" and "le_json_loads (L now) text = Some v"
  shows "\<exists>t m. t \<le> now \<and> now < t + 60000 \<and> v = JDict m \<and> fetch_uri_metadata (L t) uri = Inr m"
proof -
  obtain t uri' m where *: "t \<le> now" "e = t + 60000" "text = le_json_dumps (L t) (JDict m)"
      "le_sha256 (L now) (utf8_encode uri) = le_sha256 (L t) (utf8_encode uri')" "fetch_uri_metadata (L t) uri' = Inr m"
    using assms(1,3) unfolding metadata_sound_def by blast
  have "utf8_encode uri = utf8_encode uri'" and "v = JDict m"
    using *(3,4,5) assms(2,5) by (auto simp: stable_codec_def)
  then show ?thesis using *(1,2,5) assms(4) by (auto simp: utf8_encode_inj)
qed

lemma load_verifiers_result:
  assumes "yields (load_verifiers_from_uri (L now) now uri) s vs t" and "metadata_sound L now s" and "stable_codec L"
    and "v \<in> set vs"
  shows "\<exists>t m. t \<le> now \<and> now < t + 60000 \<and> fetch_uri_metadata (L t) uri = Inr m \<and>
    v \<in> set (extract_verifiers_from_metadata (JDict m))"
proof -
  let ?k = "le_sha256 (L now) (utf8_encode uri)"
  have ne: "uri \<noteq> []" using assms(1,4) by (auto simp: load_verifiers_from_uri_def eff_simps)
  obtain cached where c: "yields (cache_get (L now) now URI_METADATA_CACHE_NAME ?k) s cached s"
    by (auto simp: cache_get_yields)
  note run = ebind_apply(1)[where m = "cache_get (L now) now URI_METADATA_CACHE_NAME ?k" and s = s and u = s, OF c]
  show ?thesis
  proof (cases "case cached of Some (JStr body) \<Rightarrow> le_json_loads (L now) body | _ \<Rightarrow> None")
    case None
    then obtain m where "fetch_uri_metadata (L now) uri = Inr m" "vs = extract_verifiers_from_metadata (JDict m)"
      using assms(1) ne by (auto simp: load_verifiers_from_uri_def Let_def run eff_simps)
    then show ?thesis using assms(4) by (intro exI[of _ now] exI[of _ m]) simp
  next
    case (Some v')
    then have vs: "vs = extract_verifiers_from_metadata v'"
      using assms(1) ne by (simp add: load_verifiers_from_uri_def Let_def run eff_simps)
    from Some obtain body where "cached = Some (JStr body)" and l: "le_json_loads (L now) body = Some v'"
      by (auto split: option.splits json.splits)
    with cache_get_hit c obtain e where "dget (tr_cache s) (URI_METADATA_CACHE_NAME, ?k) = Some (JStr body, e)" "now < e"
      by blast
    from cached_metadata[OF assms(2,3) this l] vs assms(4) show ?thesis by blast
  qed
qed

lemma directional_result:
  assumes "yields (has_directional_trust (L now) now i j) s True t" and "caches_sound L now s" and "stable_codec L"
  shows "trusts L now i j"
proof -
  obtain nft vs where *: "fetch_identity_nft (L now) i None = Inr nft"
      "yields (load_verifiers_from_uri (L now) now (decode_xrpl_uri (text_field (L now) nft ''URI''))) s vs t"
      "py_lower j \<in> set vs"
    using assms(1) by (auto simp: has_directional_trust_def eff_simps)
  from load_verifiers_result[OF *(2) _ assms(3) *(3)] assms(2) *(1) show ?thesis
    unfolding trusts_def by blast
qed

text \<open>A lookup that is not answered by the cache, and what it stores.\<close>

lemma fresh_verdict:
  assumes "yields (ebind (has_direct_trust (L now) now a b) (\<lambda>direct.
      if direct then eret True
      else ebind (check_mutual_directions (L now) now a b) (\<lambda>(a, b). eret (a \<and> b)))) s v t"
    and "caches_sound L now s" and "stable_codec L"
  shows "caches_sound L now t \<and> (v \<longrightarrow> trusts L now a b)"
proof -
  obtain direct s1 where d: "yields (has_directional_trust (L now) now a b) s direct s1"
    and r: "yields (if direct then eret True
      else ebind (check_mutual_directions (L now) now a b) (\<lambda>(a, b). eret (a \<and> b))) s1 v t"
    using assms(1) by (auto simp: has_direct_trust_def eff_simps)
  have s1: "caches_sound L now s1"
    using evolves_sound[OF directional_keeps assms(2), of a b] d by simp
  show ?thesis
  proof (cases direct)
    case True
    with d r s1 directional_result[OF _ assms(2,3)] show ?thesis by (simp add: eff_simps)
  next
    case False
    with r obtain x y where m: "yields (check_mutual_directions (L now) now a b) s1 (x, y) t" "v \<longleftrightarrow> x \<and> y"
      by (auto simp: eff_simps)
    then obtain s2 where "yields (has_directional_trust (L now) now a b) s1 x s2"
      by (auto simp: check_mutual_directions_def eff_simps)
    with directional_result[OF _ s1 assms(3)] have "x \<longrightarrow> trusts L now a b" by auto
    moreover have "caches_sound L now t"
      using evolves_sound[OF directions_keep s1, of a b] m(1) by simp
    ultimately show ?thesis using m(2) by simp
  qed
qed

lemma check_trust_result:
  assumes "check_trust (L now) now a b s = (r, t)" and "caches_sound L now s" and "stable_codec L"
  shows "caches_sound L now t \<and> (r = Inr True \<longrightarrow> (\<exists>t' i j. t' \<le> now \<and> now < t' + 60000 \<and>
    py_lower i @ ''|'' @ py_lower j = py_lower a @ ''|'' @ py_lower b \<and> trusts L t' i j))"
proof -
  let ?k = "trust_cache_key (L now) a b"
  obtain cached where c: "yields (cache_get (L now) now TRUST_CACHE_NAME ?k) s cached s"
    by (auto simp: cache_get_yields)
  note run = ebind_apply(1)[where m = "cache_get (L now) now TRUST_CACHE_NAME ?k" and s = s and u = s, OF c]
  show ?thesis
  proof (cases "case cached of Some (JBool b) \<Rightarrow> Some b | _ \<Rightarrow> None")
    case (Some v)
    then have r: "r = Inr v" "t = s"
      using assms(1) by (simp_all add: check_trust_def Let_def run eret_def)
    from Some have "cached = Some (JBool v)" by (auto split: option.splits json.splits)
    with cache_get_hit c obtain e where e: "dget (tr_cache s) (TRUST_CACHE_NAME, ?k) = Some (JBool v, e)" "now < e"
      by blast
    have "\<exists>t' i j. t' \<le> now \<and> now < t' + 60000 \<and>
      py_lower i @ ''|'' @ py_lower j = py_lower a @ ''|'' @ py_lower b \<and> trusts L t' i j" if v
    proof -
      have e1: "dget (tr_cache s) (TRUST_CACHE_NAME, ?k) = Some (JBool True, e)" using e(1) that by simp
      obtain t' i j where *: "t' \<le> now" "e = t' + 60000" "?k = trust_cache_key (L t') i j" "trusts L t' i j"
        using assms(2) e1 unfolding verdicts_sound_def by blast
      have "py_lower i @ ''|'' @ py_lower j = py_lower a @ ''|'' @ py_lower b"
        using *(3) assms(3) unfolding stable_codec_def trust_cache_key_def by (metis utf8_encode_inj)
      with *(1,2,4) e(2) show ?thesis by blast
    qed
    with r assms(2) show ?thesis by blast
  next
    case None
    let ?look = "ebind (has_direct_trust (L now) now a b) (\<lambda>direct. if direct then eret True
        else ebind (check_mutual_directions (L now) now a b) (\<lambda>(a, b). eret (a \<and> b)))"
    have body: "(r, t) = ebind ?look (\<lambda>trusted. ebind (cache_set (L now) now TRUST_CACHE_NAME ?k (JBool trusted) 60000)
        (\<lambda>_. eret trusted)) s"
      using assms(1) None by (simp add: check_trust_def Let_def run ebind_assoc)
    have keep: "evolves (keeps_sound L now) ?look"
      unfolding has_direct_trust_def by (intro evolves_intros directional_keeps directions_keep)
    obtain r1 t1 where l: "?look s = (r1, t1)" by (cases "?look s")
    show ?thesis
    proof (cases r1)
      case (Inl e)
      then have "r = Inl e" "t = t1" using body l by (simp_all add: ebind_def)
      then show ?thesis using evolves_sound[OF keep assms(2)] l by simp
    next
      case (Inr v)
      then have v: "caches_sound L now t1" "v \<longrightarrow> trusts L now a b"
        using fresh_verdict[OF _ assms(2,3)] l by auto
      have "r = Inr v" "t = snd (cache_set (L now) now TRUST_CACHE_NAME ?k (JBool v) 60000 t1)"
        using body l Inr by (simp_all add: ebind_def cache_set_def emodify_def eret_def)
      then show ?thesis using evolves_sound[OF store_verdict_keeps[OF v(2)] v(1)] v(2) by fastforce
    qed
  qed
qed

section \<open>Payments\<close>

lemma check_event_allowed_cases:
  assumes "check_event_allowed env now e st s = (r, t)"
  shows "t = s \<and> (ev_type e = CHAT_PAY_EVENT \<longrightarrow> \<not> ok r) \<or>
    (\<exists>payee a b r'. extract_payee_user_id (ev_content e) st (ev_sender e) = Inr (Some payee) \<and>
       resolve_xrpl_address_for_user (ev_sender e) s = Some a \<and> resolve_xrpl_address_for_user payee s = Some b \<and>
       check_trust env now a b s = (r', t) \<and> (ok r \<longrightarrow> r' = Inr True))"
proof (cases "ev_type e = CHAT_PAY_EVENT")
  case False
  then show ?thesis using assms by (simp add: check_event_allowed_def eret_def)
next
  case True
  show ?thesis
  proof (cases "extract_payee_user_id (ev_content e) st (ev_sender e)")
    case (Inl x)
    then show ?thesis using assms True by (auto simp: check_event_allowed_def eff_run)
  next
    case (Inr payee)
    show ?thesis
    proof (cases "\<exists>p a b. payee = Some p \<and> p \<noteq> [] \<and> resolve_xrpl_address_for_user (ev_sender e) s = Some a \<and>
        resolve_xrpl_address_for_user p s = Some b")
      case False
      then have "t = s \<and> \<not> ok r" using assms True Inr
        by (auto simp: check_event_allowed_def eff_run eff_apply split: option.splits if_splits)
      then show ?thesis by simp
    next
      case True': True
      then obtain p a b where p: "payee = Some p" "p \<noteq> []" "resolve_xrpl_address_for_user (ev_sender e) s = Some a"
        "resolve_xrpl_address_for_user p s = Some b" by blast
      obtain r' t' where c: "check_trust env now a b s = (r', t')" by (cases "check_trust env now a b s")
      have "(r, t) = ebind (check_trust env now a b) (\<lambda>trusted.
          ebind (eguard (\<not> trusted) not_in_trust_network) (\<lambda>_. eret True)) s"
        using assms True Inr p by (simp add: check_event_allowed_def eff_run)
      then have "t = t' \<and> (ok r \<longrightarrow> r' = Inr True)"
        using c by (cases r') (auto simp: ebind_def elift_def eret_def raise_if_def split: if_splits)
      then show ?thesis using Inr p c by blast
    qed
  qed
qed

lemma on_new_event_keeps: "evolves (keeps_sound L now) (on_new_event (L now) now e)"
proof -
  have 1: "evolves (keeps_sound L now) (persist_verified_account_data u c)"
    "evolves (keeps_sound L now) (notify_rooms env u c rid)" for u c env rid
    unfolding persist_verified_account_data_def notify_rooms_def by (intro evolves_intros; simp)+
  have 2: "evolves (keeps_sound L now) (validate_nft_modify_accept (L now) now x a b)" for x a b
    unfolding validate_nft_modify_accept_def Let_def by (intro evolves_intros load_verifiers_keeps)
  show ?thesis
    unfolding on_new_event_def handle_verify_request_def handle_verify_accept_def Let_def
    by (intro evolves_intros 1 2)
qed

text \<open>Everything that reads or writes the caches, in order of time; other tables may change freely.\<close>

inductive trust_run :: "(int \<Rightarrow> ledger_env) \<Rightarrow> int \<Rightarrow> trust_state \<Rightarrow> bool" for L where
  trust_start: "trust_run L now s" if "tr_cache s = []"
| trust_lookup: "trust_run L now' t"
    if "trust_run L now s" and "now \<le> now'" and "trust_response (L now') now' a b s = (r, t)"
| trust_payment: "trust_run L now' t"
    if "trust_run L now s" and "now \<le> now'" and "check_event_allowed (L now') now' e st s = (r, t)"
| trust_event: "trust_run L now' t"
    if "trust_run L now s" and "now \<le> now'" and "on_new_event (L now') now' e s = (r, t)"
| trust_other: "trust_run L now t" if "trust_run L now s" and "tr_cache t = tr_cache s"

lemma trust_run_sound:
  assumes "trust_run L now s" and "stable_codec L"
  shows "caches_sound L now s"
  using assms(1)
proof induction
  case (trust_start s now)
  then show ?case by (simp add: metadata_sound_def verdicts_sound_def)
next
  case (trust_lookup now s now' a b r t)
  obtain r' t' where c: "check_trust (L now') now' a b s = (r', t')" by (cases "check_trust (L now') now' a b s")
  then have "t = t'" using trust_lookup.hyps(3) by (cases r') (auto simp: trust_response_def ebind_def eret_def)
  then show ?case
    using check_trust_result[OF c caches_sound_later[OF trust_lookup.IH trust_lookup.hyps(2)] assms(2)] by simp
next
  case (trust_payment now s now' e st r t)
  note s = caches_sound_later[OF trust_payment.IH trust_payment.hyps(2)]
  from check_event_allowed_cases[OF trust_payment.hyps(3)] show ?case
  proof (elim disjE exE conjE)
    fix payee a b r' assume "check_trust (L now') now' a b s = (r', t)"
    from check_trust_result[OF this s assms(2)] show ?case by (rule conjunct1)
  qed (use s in simp)
next
  case (trust_event now s now' e r t)
  note s = caches_sound_later[OF trust_event.IH trust_event.hyps(2)]
  from evolves_sound[OF on_new_event_keeps s, of e] trust_event.hyps(3) show ?case by simp
next
  case (trust_other now s t)
  then show ?case using caches_sound_frame by blast
qed


end
