(* ===== verification/Trust_Samples.thy ===== *)
theory Trust_Samples
  imports Trust_Props
begin

text \<open>
  Further facts about the trust network: the look at both directions never changes a verdict, and an
  accepted verification whose request named the same transaction is not recorded. A small ledger on
  which the theorem about payments applies.
\<close>

section \<open>The two directions\<close>

lemma load_verifiers_again:
  assumes "yields (load_verifiers_from_uri env now uri) s vs t"
    and "\<forall>uri m. fetch_uri_metadata env uri = Inr m \<longrightarrow> le_json_loads env (le_json_dumps env (JDict m)) = Some (JDict m)"
    and "yields (load_verifiers_from_uri env now uri) t vs' t'"
  shows "vs' = vs"
proof (cases "uri = []")
  case True
  then show ?thesis using assms(1,3) by (simp add: load_verifiers_from_uri_def eff_simps)
next
  case False
  let ?k = "(URI_METADATA_CACHE_NAME, le_sha256 env (utf8_encode uri))"
  define hit where "hit s = (case (if \<not> le_cache_enabled env then None else (case dget (tr_cache s) ?k of
        Some (v, expiry) \<Rightarrow> if now < expiry then Some v else None | None \<Rightarrow> None)) of
      Some (JStr body) \<Rightarrow> le_json_loads env body | _ \<Rightarrow> None)" for s :: trust_state
  have body: "load_verifiers_from_uri env now uri s = (case hit s of
      Some v \<Rightarrow> eret (extract_verifiers_from_metadata v) s
    | None \<Rightarrow> ebind (elift (fetch_uri_metadata env uri)) (\<lambda>m.
        ebind (cache_set env now URI_METADATA_CACHE_NAME (le_sha256 env (utf8_encode uri))
          (JStr (le_json_dumps env (JDict m))) 60000) (\<lambda>_. eret (extract_verifiers_from_metadata (JDict m)))) s)" for s
    unfolding load_verifiers_from_uri_def Let_def if_not_P[OF False] cache_get_def ebind_run hit_def[symmetric]
    by (cases "hit s") simp_all
  show ?thesis
  proof (cases "hit s")
    case (Some v)
    then show ?thesis using assms(1,3) by (simp add: body eff_simps)
  next
    case None
    then obtain m where m: "fetch_uri_metadata env uri = Inr m" "vs = extract_verifiers_from_metadata (JDict m)"
        "t = (if le_cache_enabled env
          then s\<lparr>tr_cache := dset ?k (JStr (le_json_dumps env (JDict m)), now + 60000) (tr_cache s)\<rparr> else s)"
      using assms(1) by (auto simp: body eff_simps cache_set_yields)
    then have "hit t = None \<or> hit t = Some (JDict m)" using assms(2) None by (simp add: hit_def)
    then show ?thesis using assms(3) m(1,2) by (auto simp: body eff_simps)
  qed
qed

text \<open>
  When the payer's token does not list the payee, the second look at it, in the check of both
  directions, cannot either: the verdict is the direct one.
\<close>

lemma mutual_check_is_dead:
  assumes "yields (has_direct_trust env now a b) s False t"
    and "\<forall>uri m. fetch_uri_metadata env uri = Inr m \<longrightarrow> le_json_loads env (le_json_dumps env (JDict m)) = Some (JDict m)"
    and "yields (check_mutual_directions env now a b) t (x, y) t'"
  shows "\<not> x"
proof -
  obtain nft vs where 1: "fetch_identity_nft env a None = Inr nft" "py_lower b \<notin> set vs"
      "yields (load_verifiers_from_uri env now (decode_xrpl_uri (text_field env nft ''URI''))) s vs t"
    using assms(1) by (auto simp: has_direct_trust_def has_directional_trust_def eff_simps)
  obtain vs' t2 where 2: "x \<longleftrightarrow> py_lower b \<in> set vs'"
      "yields (load_verifiers_from_uri env now (decode_xrpl_uri (text_field env nft ''URI''))) t vs' t2"
    using assms(3) 1(1) by (auto simp: check_mutual_directions_def has_directional_trust_def eff_simps)
  show ?thesis using load_verifiers_again[OF 1(3) assms(2) 2(2)] 2(1) 1(2) by simp
qed

section \<open>A small ledger\<close>

text \<open>Wallet \<open>rA\<close> has a token whose metadata lists \<open>rB\<close>; JSON text and hashes are toys.\<close>

definition metadata_text :: string where "metadata_text = ''{verifiers: rB}''"

definition toy_ledger :: ledger_env where
  "toy_ledger = \<lparr>
     le_account_nfts = (\<lambda>a _. Some [(''account_nfts'', JList [JDict [(''NFTokenID'', JStr ''T1''), (''URI'', JStr metadata_text)]])]),
     le_tx = (\<lambda>h. Some [(''validated'', JBool True), (''TransactionType'', JStr ''NFTokenModify'')]),
     le_nft_modify = (\<lambda>_. Some (''rA'', Some ''T1'', None)),
     le_http_get = (\<lambda>_. None), le_unquote = (\<lambda>s. s), le_sha256 = (\<lambda>s. s),
     le_json_loads = (\<lambda>s. if s = metadata_text then Some (JDict [(''verifiers'', JList [JStr ''rB''])])
       else if s = ''{}'' then Some (JDict []) else None),
     le_json_dumps = (\<lambda>v. if v = JDict [] then ''{}'' else metadata_text), le_float_repr = (\<lambda>_. []), le_cache_enabled = True,
     le_server_name = ''hs'', le_rooms_of = (\<lambda>_. []), le_room_accepts = (\<lambda>_. True)\<rparr>"

definition toy_event :: "string \<Rightarrow> json_dict \<Rightarrow> EventBase" where
  "toy_event t c = \<lparr>ev_type = t, ev_sender = ''@a:hs'', ev_state_key = None, ev_content = c, ev_prev_events = [],
     ev_auth_events = [], ev_depth = 1, ev_origin_server_ts = 0, ev_room_id = Some ''!r:hs'', ev_redacts = None,
     ev_event_id = ''$e'', ev_signatures = [], ev_room_version = RV_V10, ev_rejected_reason = None,
     ev_recheck_redaction = False\<rparr>"

definition toy_state :: trust_state where
  "toy_state = \<lparr>tr_cache = [],
     tr_account_data = [((''@a:hs'', XRPL_IDENTITY_ACCOUNT_DATA_EVENT), JDict [(''xrplAddress'', JStr ''rA'')]),
                        ((''@b:hs'', XRPL_IDENTITY_ACCOUNT_DATA_EVENT), JDict [(''xrplAddress'', JStr ''rB'')])],
     tr_sent = []\<rparr>"

definition verify_request :: EventBase where
  "verify_request = toy_event VERIFY_REQUEST_EVENT [(''issuer_xrpl_address'', JStr ''rA''),
     (''target_xrpl_address'', JStr ''rB''), (''tx_hash'', JStr ''H1'')]"

definition verify_accept :: EventBase where
  "verify_accept = toy_event VERIFY_ACCEPT_EVENT [(''issuer_xrpl_address'', JStr ''rA''),
     (''accepter_xrpl_address'', JStr ''rB''), (''tx_hash'', JStr ''H1'')]"

definition recorded_status :: "trust_state \<Rightarrow> json option" where
  "recorded_status s = (case dget (tr_account_data s) (''@a:hs'', VERIFIED_EVENT) of
       Some (JDict d) \<Rightarrow> dget d ''status'' | _ \<Rightarrow> None)"

text \<open>
  An accepted verification is recorded when it comes alone, but not after a request that named the
  same transaction; it is announced to the rooms all the same.
\<close>

lemma accept_after_request_not_recorded:
  "recorded_status (snd (on_new_event toy_ledger 0 verify_accept toy_state)) = Some (JStr ''verified'') \<and>
   (let s = snd (on_new_event toy_ledger 0 verify_accept (snd (on_new_event toy_ledger 0 verify_request toy_state))) in
    recorded_status s = Some (JStr ''requested'') \<and>
    map (\<lambda>(r, u, c). case c of JDict d \<Rightarrow> dget d ''status'' | _ \<Rightarrow> None) (tr_sent s) =
      [Some (JStr ''requested''), Some (JStr ''verified'')])"
  by code_simp

text \<open>
  The sender of an accepted verification need not own either wallet: here the user of wallet \<open>rA\<close> is
  recorded as verified, and a user without any wallet would be too.
\<close>

lemma anyone_is_verified:
  "recorded_status (snd (on_new_event toy_ledger 0 verify_accept (toy_state\<lparr>tr_account_data := []\<rparr>))) = Some (JStr ''verified'')"
  by code_simp

section \<open>An instance of the theorem\<close>

definition toy_payment :: EventBase where
  "toy_payment = toy_event CHAT_PAY_EVENT [(''payee'', JStr ''@b:hs'')]"

lemma toy_trust: "fst (check_event_allowed toy_ledger 0 toy_payment [] toy_state) = Inr True"
  by code_simp

lemma toy_codec: "stable_codec (\<lambda>_. toy_ledger)"
  by (auto simp: stable_codec_def toy_ledger_def metadata_text_def fetch_uri_metadata_def loads_dict_def
      split: if_splits option.splits)


end
