(* ===== verification/Event_Format.thy ===== *)
theory Event_Format
  imports Ratelimiter Events
begin

text \<open>
  \<open>events/utils.py\<close>: pruning of redacted events, selection of fields, the formats in which clients
  get events, the fixing of power levels, canonical JSON and stripped state. An event dictionary is
  a JSON dictionary; content is a JSON value and every access to it follows Python.
\<close>

section \<open>Redaction\<close>

text \<open>\<open>d[k] = v\<close> for a value that should be a dictionary.\<close>

fun json_set :: "string \<Rightarrow> json \<Rightarrow> json \<Rightarrow> json res" where
  "json_set k v (JDict d) = Inr (JDict (dset k v d))"
| "json_set k v _ = Inl TypeError"

text \<open>One field of \<open>add_fields\<close>; the content of the event is looked up each time.\<close>

definition add_field :: "json res \<Rightarrow> string \<Rightarrow> json \<Rightarrow> json res" where
  "add_field content field new_content =
     rbind content (\<lambda>c. rbind (json_in field c) (\<lambda>present.
       if present then rbind (json_sub c field) (\<lambda>v. json_set field v new_content) else Inr new_content))"

definition kept_fields :: "RoomVersion \<Rightarrow> json \<Rightarrow> string list" where
  "kept_fields rv event_type =
     (if event_type = JStr EventTypes_Member then
        ''membership'' # (if restricted_join_rule_fix rv then [F_AUTHORISING_USER] else [])
      else if event_type = JStr EventTypes_Create then
        (if \<not> implicit_room_creator rv then [F_ROOM_CREATOR] else [])
      else if event_type = JStr EventTypes_JoinRules then
        ''join_rule'' # (if restricted_join_rule rv then [''allow''] else [])
      else if event_type = JStr EventTypes_PowerLevels then
        [''users'', ''users_default'', ''events'', ''events_default'', ''state_default'', ''ban'', ''kick'', ''redact'']
          @ (if updated_redaction_rules rv then [''invite''] else [])
      else if event_type = JStr EventTypes_Aliases \<and> special_case_aliases_auth rv then [''aliases'']
      else if event_type = JStr EventTypes_RoomHistoryVisibility then [''history_visibility'']
      else if event_type = JStr EventTypes_Redaction \<and> updated_redaction_rules rv then [''redacts'']
      else [])"

definition keep_third_party_invite :: "json res \<Rightarrow> json \<Rightarrow> json res" where
  "keep_third_party_invite content new_content =
     rbind content (\<lambda>c. rbind (json_get c ''third_party_invite'') (\<lambda>tpi. case tpi of
         Some (JDict t) \<Rightarrow> json_set ''third_party_invite''
           (JDict (case dget t ''signed'' of None \<Rightarrow> [] | Some signed \<Rightarrow> [(''signed'', signed)])) new_content
       | _ \<Rightarrow> Inr new_content))"

definition present_fields :: "string list \<Rightarrow> json_dict \<Rightarrow> json_dict" where
  "present_fields fs d = somes (map (\<lambda>f. map_option (Pair f) (dget d f)) fs)"

definition keep_relates_to :: "json res \<Rightarrow> json \<Rightarrow> json res" where
  "keep_relates_to content new_content =
     rbind content (\<lambda>c. rbind (json_get c ''m.relates_to'') (\<lambda>rel. case rel of
         Some (JDict r) \<Rightarrow>
           (let new_relates_to = present_fields [''rel_type'', ''event_id''] r in
            if new_relates_to \<noteq> [] then json_set ''m.relates_to'' (JDict new_relates_to) new_content
            else Inr new_content)
       | _ \<Rightarrow> Inr new_content))"

definition prune_content :: "RoomVersion \<Rightarrow> json \<Rightarrow> json res \<Rightarrow> json res" where
  "prune_content rv event_type content =
     rbind (if event_type = JStr EventTypes_Create \<and> updated_redaction_rules rv then content else Inr (JDict [])) (\<lambda>start.
     rbind (rfold (add_field content) (kept_fields rv event_type) start) (\<lambda>kept.
     rbind (if event_type = JStr EventTypes_Member \<and> updated_redaction_rules rv
            then keep_third_party_invite content kept else Inr kept) (\<lambda>kept'.
       if msc3389_relation_redactions rv then keep_relates_to content kept' else Inr kept')))"

definition allowed_keys :: "RoomVersion \<Rightarrow> json \<Rightarrow> string list" where
  "allowed_keys rv event_type =
     filter (\<lambda>k. \<not> (event_type = JStr EventTypes_Create \<and> msc4291_room_ids_as_hashes rv \<and> k = ''room_id''))
       ([''event_id'', ''sender'', ''room_id'', ''hashes'', ''signatures'', ''content'', ''type'', ''state_key'',
         ''depth'', ''prev_events'', ''auth_events'', ''origin_server_ts''] @
        (if updated_redaction_rules rv then [] else [''prev_state'', ''membership'', ''origin'']))"

text \<open>Two fields of \<open>unsigned\<close> survive.\<close>

definition prune_unsigned :: "json \<Rightarrow> json_dict res" where
  "prune_unsigned event_unsigned =
     rfold (\<lambda>f acc. rbind (json_in f event_unsigned) (\<lambda>present.
       if present then rbind (json_sub event_unsigned f) (\<lambda>v. Inr (dset f v acc)) else Inr acc))
     [''age_ts'', ''replaces_state''] []"

definition prune_event_dict :: "RoomVersion \<Rightarrow> json_dict \<Rightarrow> json_dict res" where
  "prune_event_dict room_version event_dict =
     rbind (dsub event_dict ''type'') (\<lambda>event_type.
     rbind (prune_content room_version event_type (dsub event_dict ''content'')) (\<lambda>new_content.
     rbind (prune_unsigned (dget_or event_dict ''unsigned'' (JDict []))) (\<lambda>unsigned.
       Inr (dset ''unsigned'' (JDict unsigned)
             (dset ''content'' new_content
               (filter (\<lambda>(k, _). k \<in> set (allowed_keys room_version event_type)) event_dict))))))"

fun content_dict :: "json \<Rightarrow> json_dict" where
  "content_dict (JDict d) = d"
| "content_dict _ = []"

text \<open>
  The same on events: the event made of the pruned dictionary has no top-level \<open>redacts\<close>, no room
  identifier where it is derived from the create event, and no reason of rejection, which
  \<open>make_event_from_dict\<close> is not given.
\<close>

definition prune_event :: "EventBase \<Rightarrow> EventBase res" where
  "prune_event event =
     rbind (prune_content (ev_room_version event) (JStr (ev_type event)) (Inr (JDict (ev_content event)))) (\<lambda>c.
       Inr (event\<lparr>ev_content := content_dict c, ev_redacts := None,
         ev_room_id := (if ev_type event = EventTypes_Create \<and> msc4291_room_ids_as_hashes (ev_room_version event)
           then None else ev_room_id event),
         ev_rejected_reason := None\<rparr>))"

section \<open>Selecting fields\<close>

abbreviation backslash :: char where "backslash \<equiv> CHR 0x5C"

text \<open>
  The parts of a path between dots with an even number of backslashes before them: \<open>n\<close> counts the
  backslashes right before the current place and \<open>part\<close> is what has been read of the current part.
\<close>

fun split_dots :: "string \<Rightarrow> nat \<Rightarrow> string \<Rightarrow> string list" where
  "split_dots part n [] = [part]"
| "split_dots part n (c # cs) =
     (if c = CHR ''.'' then (if even n then part # split_dots [] 0 cs else split_dots (part @ [c]) 0 cs)
      else split_dots (part @ [c]) (if c = backslash then Suc n else 0) cs)"

text \<open>\<open>re.sub\<close> with the pattern of a backslash and any character but a newline.\<close>

fun unescape :: "string \<Rightarrow> string" where
  "unescape [] = []"
| "unescape [c] = [c]"
| "unescape (c # d # cs) =
     (if c = backslash \<and> d \<noteq> CHR 0x0A then
        (if d = backslash \<or> d = CHR ''.'' then d # unescape cs else c # d # unescape cs)
      else c # unescape (d # cs))"

definition split_field :: "string \<Rightarrow> string list" where
  "split_field field = map unescape (split_dots [] 0 field)"

text \<open>Following all keys but the last, through dictionaries only.\<close>

fun drill_down :: "json_dict \<Rightarrow> string list \<Rightarrow> json option" where
  "drill_down src [] = None"
| "drill_down src [k] = dget src k"
| "drill_down src (k # l # ks) = (case dget src k of Some (JDict d) \<Rightarrow> drill_down d (l # ks) | _ \<Rightarrow> None)"

text \<open>
  Writing at a path, making dictionaries on the way: \<open>setdefault\<close> on a value that is there but is not
  a dictionary raises.
\<close>

fun put_at :: "string list \<Rightarrow> json \<Rightarrow> json_dict \<Rightarrow> json_dict res" where
  "put_at [] v dst = Inr dst"
| "put_at [k] v dst = Inr (dset k v dst)"
| "put_at (k # l # ks) v dst = (case dget_or dst k (JDict []) of
       JDict d \<Rightarrow> rbind (put_at (l # ks) v d) (\<lambda>d'. Inr (dset k (JDict d') dst))
     | _ \<Rightarrow> Inl (if ks = [] then TypeError else AttributeError))"

definition copy_field :: "json_dict \<Rightarrow> string list \<Rightarrow> json_dict \<Rightarrow> json_dict res" where
  "copy_field src field dst = (case drill_down src field of None \<Rightarrow> Inr dst | Some v \<Rightarrow> put_at field v dst)"

definition only_fields :: "json_dict \<Rightarrow> string list \<Rightarrow> json_dict res" where
  "only_fields dictionary fs =
     (if fs = [] then Inr dictionary
      else rfold (\<lambda>f out. copy_field dictionary (split_field f) out) fs [])"

section \<open>Formats for clients\<close>

definition format_event_raw :: "json_dict \<Rightarrow> json_dict res" where
  "format_event_raw d = Inr d"

definition format_event_for_client_v2 :: "json_dict \<Rightarrow> json_dict res" where
  "format_event_for_client_v2 d =
     Inr (fold dpop [''auth_events'', ''prev_events'', ''hashes'', ''signatures'', ''depth'', ''origin'', ''prev_state''] d)"

definition format_event_for_client_v1 :: "json_dict \<Rightarrow> json_dict res" where
  "format_event_for_client_v1 d0 =
     rbind (format_event_for_client_v2 d0) (\<lambda>d1.
     let d = (case dget d1 ''sender'' of None \<Rightarrow> d1 | Some JNull \<Rightarrow> d1 | Some s \<Rightarrow> dset ''user_id'' s d1) in
     rfold (\<lambda>key d. rbind (dsub d ''unsigned'') (\<lambda>u. rbind (json_in key u) (\<lambda>present.
         if present then rbind (json_sub u key) (\<lambda>v. Inr (dset key v d)) else Inr d)))
       [''age'', ''redacted_because'', ''replaces_state'', ''prev_content'', ''invite_room_state'', ''knock_room_state''] d)"

definition format_event_for_client_v2_without_room_id :: "json_dict \<Rightarrow> json_dict res" where
  "format_event_for_client_v2_without_room_id d =
     rbind (format_event_for_client_v2 d) (\<lambda>d. Inr (dpop ''room_id'' d))"

record SerializeEventConfig =
  as_client_event :: bool
  client_format :: "json_dict \<Rightarrow> json_dict res"
  requester :: "Requester option"
  only_event_fields :: "string list"
  include_stripped_room_state :: bool
  include_admin_metadata :: bool

definition make_config_for_admin :: "SerializeEventConfig \<Rightarrow> SerializeEventConfig" where
  "make_config_for_admin existing = existing\<lparr>include_admin_metadata := True\<rparr>"

text \<open>The internal metadata that serialisation reads.\<close>

record EventMetadata =
  md_txn_id :: "string option"
  md_device_id :: "string option"
  md_token_id :: "int option"
  md_soft_failed :: bool
  md_policy_server_spammy :: bool

text \<open>
  An event as it is held in memory: its typed fields, its dictionary without \<open>unsigned\<close>, its
  \<open>unsigned\<close> dictionary and metadata, and the redaction event that \<open>unsigned.redacted_because\<close> may be.
\<close>

datatype full_event = FullEvent EventBase json_dict json_dict EventMetadata "full_event option"

text \<open>Whether the requester is the session that sent the event.\<close>

definition sent_by_requester :: "SerializeEventConfig \<Rightarrow> EventBase \<Rightarrow> EventMetadata \<Rightarrow> bool" where
  "sent_by_requester config e md = (case requester config of
       None \<Rightarrow> False
     | Some r \<Rightarrow> req_user r = ev_sender e \<and>
         (case md_device_id md of
            Some device \<Rightarrow> req_device_id r = Some device
          | None \<Rightarrow> md_token_id md \<noteq> None \<and> req_access_token_id r \<noteq> None \<and> md_token_id md = req_access_token_id r
              \<or> req_is_guest r \<or> req_app_service r \<noteq> None))"

definition age_unsigned :: "int \<Rightarrow> json_dict \<Rightarrow> json_dict res" where
  "age_unsigned time_now_ms u = (case dget u ''age_ts'' of
       None \<Rightarrow> Inr u
     | Some v \<Rightarrow>
         (case v of
            JInt t \<Rightarrow> Inr (dpop ''age_ts'' (dset ''age'' (JInt (time_now_ms - t)) u))
          | JBool b \<Rightarrow> Inr (dpop ''age_ts'' (dset ''age'' (JInt (time_now_ms - (if b then 1 else 0))) u))
          | JFloat r \<Rightarrow> Inr (dpop ''age_ts'' (dset ''age'' (JFloat (of_int time_now_ms - r)) u))
          | _ \<Rightarrow> Inl TypeError))"

text \<open>The fields that depend on who asks, added to \<open>unsigned\<close>, and stripped state taken out.\<close>

definition session_unsigned :: "SerializeEventConfig \<Rightarrow> EventBase \<Rightarrow> EventMetadata \<Rightarrow> json_dict \<Rightarrow> json_dict" where
  "session_unsigned config e md u =
     (let u1 = (case md_txn_id md of
            Some txn_id \<Rightarrow> if sent_by_requester config e md then dset ''transaction_id'' (JStr txn_id) u else u
          | None \<Rightarrow> u)
      in if include_stripped_room_state config then u1
         else dpop ''knock_room_state'' (dpop ''invite_room_state'' u1))"

definition admin_fields :: "SerializeEventConfig \<Rightarrow> EventMetadata \<Rightarrow> json_dict \<Rightarrow> json_dict res" where
  "admin_fields config md d =
     rfold (\<lambda>f d. rbind (dsub d ''unsigned'') (\<lambda>u. rbind (json_set f (JBool True) u) (\<lambda>u'. Inr (dset ''unsigned'' u' d))))
       (if include_admin_metadata config then
          (if md_soft_failed md then [''io.element.synapse.soft_failed''] else []) @
          (if md_policy_server_spammy md then [''io.element.synapse.policy_server_spammy''] else [])
        else []) d"

text \<open>The compatibility fields of create and redaction events.\<close>

definition compat_fields :: "EventBase \<Rightarrow> json_dict \<Rightarrow> json_dict res" where
  "compat_fields e d =
     rbind (if ev_type e = EventTypes_Create \<and> msc4291_room_ids_as_hashes (ev_room_version e)
            then rbind (room_id e) (\<lambda>rid. Inr (dset ''room_id'' (JStr rid) d)) else Inr d) (\<lambda>d1.
     if ev_type e \<noteq> EventTypes_Redaction then Inr d1
     else (case redacts e of
         None \<Rightarrow> Inr d1
       | Some JNull \<Rightarrow> Inr d1
       | Some r \<Rightarrow>
           if updated_redaction_rules (ev_room_version e) then Inr (dset ''redacts'' r d1)
           else rbind (dsub d1 ''content'') (\<lambda>c. rbind (json_set ''redacts'' r c) (\<lambda>c'.
                  Inr (dset ''content'' c' d1)))))"

text \<open>\<open>unsigned\<close> is kept apart from the rest of the dictionary until it is put in for the format.\<close>

fun serialize_event :: "SerializeEventConfig \<Rightarrow> int \<Rightarrow> full_event \<Rightarrow> json_dict res" where
  "serialize_event config time_now_ms (FullEvent e dict unsigned md redacted_because) =
     rbind (age_unsigned time_now_ms unsigned) (\<lambda>u0.
     rbind (case redacted_because of
              None \<Rightarrow> Inr u0
            | Some r \<Rightarrow> rbind (serialize_event config time_now_ms r) (\<lambda>s. Inr (dset ''redacted_because'' (JDict s) u0))) (\<lambda>u1.
     let d = dset ''event_id'' (JStr (ev_event_id e)) (dset ''unsigned'' (JDict (session_unsigned config e md u1)) dict) in
     rbind (if as_client_event config then client_format config d else Inr d) (\<lambda>d1.
     rbind (compat_fields e d1) (\<lambda>d2.
     rbind (admin_fields config md d2) (\<lambda>d3.
       if only_event_fields config = [] then Inr d3 else only_fields d3 (only_event_fields config))))))"

section \<open>Power levels, canonical JSON and stripped state\<close>

text \<open>\<open>int(s, base=10)\<close> reads what \<open>int(s)\<close> reads.\<close>

definition copy_power_level_value_as_integer :: "json \<Rightarrow> json_dict \<Rightarrow> string \<Rightarrow> json_dict res" where
  "copy_power_level_value_as_integer old_value power_levels key = (case old_value of
       JInt i \<Rightarrow> Inr (dset key (JInt i) power_levels)
     | JStr s \<Rightarrow> (case py_int_str s of Inr i \<Rightarrow> Inr (dset key (JInt i) power_levels) | Inl _ \<Rightarrow> Inl TypeError)
     | _ \<Rightarrow> Inl TypeError)"

definition copy_and_fixup_power_levels_contents :: "json \<Rightarrow> json_dict res" where
  "copy_and_fixup_power_levels_contents old_power_levels = (case old_power_levels of
       JDict old \<Rightarrow>
         rfold (\<lambda>(k, v) power_levels. case v of
             JDict d \<Rightarrow> rbind (rfold (\<lambda>(k1, v1) h. copy_power_level_value_as_integer v1 h k1) d [])
                         (\<lambda>h. Inr (dset k (JDict h) power_levels))
           | _ \<Rightarrow> copy_power_level_value_as_integer v power_levels k) old []
     | _ \<Rightarrow> Inl TypeError)"

fun validate_canonicaljson :: "json \<Rightarrow> unit res" where
  "validate_canonicaljson (JInt i) =
     raise_if (i < CANONICALJSON_MIN_INT \<or> CANONICALJSON_MAX_INT < i) (SynapseError 400 ''JSON integer out of range'')"
| "validate_canonicaljson (JFloat r) = Inl (SynapseError 400 ''Bad JSON value: float'')"
| "validate_canonicaljson (JDict d) = riter (\<lambda>p. validate_canonicaljson (snd p)) d"
| "validate_canonicaljson (JList xs) = riter validate_canonicaljson xs"
| "validate_canonicaljson _ = Inr ()"

text \<open>
  The upsert of a field of a container of the event: \<open>pdu_size\<close> is the length of the canonical JSON of
  the event with the given container.
\<close>

definition maybe_upsert_event_field :: "(json_dict \<Rightarrow> nat) \<Rightarrow> json_dict \<Rightarrow> string \<Rightarrow> json \<Rightarrow> bool \<times> json_dict" where
  "maybe_upsert_event_field pdu_size container key v =
     (if pdu_size (dset key v container) \<le> MAX_PDU_SIZE then (True, dset key v container)
      else (False, case dget container key of
              Some old_value \<Rightarrow> dset key old_value (dset key v container)
            | None \<Rightarrow> dpop key (dset key v container)))"

record StrippedStateEvent =
  se_type :: string
  se_state_key :: string
  se_sender :: string
  se_content :: json_dict

definition strip_event :: "(EventBase \<Rightarrow> json_dict) \<Rightarrow> EventBase \<Rightarrow> json_dict res" where
  "strip_event get_pdu_json event =
     (if msc4291_room_ids_as_hashes (ev_room_version event) \<and> ev_type event = EventTypes_Create
         \<and> get_state_key event = Some []
      then Inr (get_pdu_json event)
      else rbind (state_key event) (\<lambda>sk.
        Inr [(''type'', JStr (ev_type event)), (''state_key'', JStr sk), (''content'', JDict (ev_content event)),
             (''sender'', JStr (ev_sender event))]))"

definition parse_stripped_state_event :: "json \<Rightarrow> StrippedStateEvent option" where
  "parse_stripped_state_event raw = (case raw of
       JDict d \<Rightarrow> (case (dget d ''type'', dget d ''state_key'', dget d ''sender'', dget d ''content'') of
           (Some (JStr t), Some (JStr k), Some (JStr s), Some (JDict c)) \<Rightarrow>
             Some \<lparr>se_type = t, se_state_key = k, se_sender = s, se_content = c\<rparr>
         | _ \<Rightarrow> None)
     | _ \<Rightarrow> None)"

end
