(* ===== verification/Redaction_Props.thy ===== *)
theory Redaction_Props
  imports Event_Format Event_Auth_Rules
begin

text \<open>
  What redaction keeps and what it removes: pruning twice is pruning once, nothing but the listed
  fields survives, and in the room versions with the updated rules the authorisation rules decide
  alike whether or not the state they look at has been redacted.
\<close>

section \<open>The content that survives\<close>

lemma add_field_dict:
  "add_field (Inr (JDict c)) f (JDict acc) =
     Inr (JDict (case dget c f of Some v \<Rightarrow> dset f v acc | None \<Rightarrow> acc))"
  by (cases "dget c f") (simp_all add: add_field_def dhas_def dsub_def)

definition add_fields :: "json_dict \<Rightarrow> string list \<Rightarrow> json_dict \<Rightarrow> json_dict" where
  "add_fields c fs acc = fold (\<lambda>f acc. case dget c f of Some v \<Rightarrow> dset f v acc | None \<Rightarrow> acc) fs acc"

lemma rfold_add_field:
  "rfold (add_field (Inr (JDict c))) fs (JDict acc) = Inr (JDict (add_fields c fs acc))"
  by (induction fs arbitrary: acc) (simp_all add: add_field_dict add_fields_def)

lemma dget_add_fields:
  "dget (add_fields c fs acc) k = (if k \<in> set fs \<and> dget c k \<noteq> None then dget c k else dget acc k)"
  unfolding add_fields_def by (induction fs arbitrary: acc) (auto split: option.splits)

lemma dget_present_fields: "dget (present_fields fs c) k = (if k \<in> set fs then dget c k else None)"
proof (induction fs)
  case (Cons f fs)
  then show ?case by (cases "dget c f") (simp_all add: present_fields_def somes_def)
qed (simp add: present_fields_def somes_def)

lemma add_fields_present:
  "distinct fs \<Longrightarrow> (\<And>f. f \<in> set fs \<Longrightarrow> dget acc f = None) \<Longrightarrow> add_fields c fs acc = acc @ present_fields fs c"
proof (induction fs arbitrary: acc)
  case (Cons f fs)
  have "dset f v acc = acc @ [(f, v)]" for v
    using Cons.prems(2) by (intro dset_fresh) (auto simp: dhas_def)
  moreover have "dget (acc @ [(f, v)]) g = None" if "g \<in> set fs" for g v
    using Cons.prems that by (auto simp: map_add_def split: option.splits)
  ultimately show ?case
    using Cons.IH[of acc] Cons.IH[of "acc @ [(f, v)]" for v] Cons.prems
    by (cases "dget c f") (auto simp: add_fields_def present_fields_def somes_def)
qed (simp add: add_fields_def present_fields_def somes_def)

abbreviation TPI :: string where "TPI \<equiv> ''third_party_invite''"
abbreviation REL :: string where "REL \<equiv> ''m.relates_to''"

definition kept_invite :: "RoomVersion \<Rightarrow> json \<Rightarrow> json_dict \<Rightarrow> json_dict" where
  "kept_invite rv t c = (if t = JStr EventTypes_Member \<and> updated_redaction_rules rv
     then (case dget c TPI of Some (JDict x) \<Rightarrow> [(TPI, JDict (present_fields [''signed''] x))] | _ \<Rightarrow> []) else [])"

definition kept_relation :: "RoomVersion \<Rightarrow> json_dict \<Rightarrow> json_dict" where
  "kept_relation rv c = (if msc3389_relation_redactions rv
     then (case dget c REL of
         Some (JDict r) \<Rightarrow> (let n = present_fields [''rel_type'', ''event_id''] r in if n \<noteq> [] then [(REL, JDict n)] else [])
       | _ \<Rightarrow> []) else [])"

text \<open>The content of a create event is kept as a whole by the updated rules.\<close>

definition keeps_all :: "RoomVersion \<Rightarrow> json \<Rightarrow> bool" where
  "keeps_all rv t \<longleftrightarrow> t = JStr EventTypes_Create \<and> updated_redaction_rules rv"

definition pruned_content :: "RoomVersion \<Rightarrow> json \<Rightarrow> json_dict \<Rightarrow> json_dict" where
  "pruned_content rv t c =
     (if keeps_all rv t then dupdate c (kept_relation rv c)
      else present_fields (kept_fields rv t) c @ kept_invite rv t c @ kept_relation rv c)"

lemma kept_fields_distinct: "distinct (kept_fields rv t)" "TPI \<notin> set (kept_fields rv t)" "REL \<notin> set (kept_fields rv t)"
  by (simp_all add: kept_fields_def)

lemma present_fields_single: "present_fields [f] d = (case dget d f of None \<Rightarrow> [] | Some v \<Rightarrow> [(f, v)])"
  by (simp add: present_fields_def somes_def split: option.split)

lemma keep_third_party_invite_dict:
  assumes "t = JStr EventTypes_Member \<and> updated_redaction_rules rv" and "dget acc TPI = None"
  shows "keep_third_party_invite (Inr (JDict c)) (JDict acc) = Inr (JDict (acc @ kept_invite rv t c))"
  using assms dset_fresh[of acc TPI]
  by (cases "dget c TPI")
     (auto simp: keep_third_party_invite_def kept_invite_def present_fields_single dhas_def split: json.split option.split)

lemma keep_relates_to_dict:
  assumes "msc3389_relation_redactions rv"
  shows "keep_relates_to (Inr (JDict c)) (JDict acc) = Inr (JDict (dupdate acc (kept_relation rv c)))"
  using assms by (cases "dget c REL") (auto simp: keep_relates_to_def kept_relation_def Let_def split: json.split)

lemma kept_relation_off: "\<not> msc3389_relation_redactions rv \<Longrightarrow> kept_relation rv c = []"
  by (simp add: kept_relation_def)

lemma kept_relation_append: "dget acc REL = None \<Longrightarrow> dupdate acc (kept_relation rv c) = acc @ kept_relation rv c"
  using dset_fresh[of acc REL] by (auto simp: kept_relation_def Let_def dhas_def split: option.split json.split)

lemma dget_append: "dget (a @ b) k = (case dget a k of None \<Rightarrow> dget b k | Some v \<Rightarrow> Some v)"
  by (simp add: map_add_def split: option.split)

lemma kept_invite_cases: "kept_invite rv t c = [] \<or> (\<exists>v. kept_invite rv t c = [(TPI, v)])"
  unfolding kept_invite_def by (simp split: option.split json.split)

lemma kept_relation_cases: "kept_relation rv c = [] \<or> (\<exists>v. kept_relation rv c = [(REL, v)])"
  unfolding kept_relation_def Let_def by (simp split: option.split json.split)

lemma dget_kept_invite: "k \<noteq> TPI \<Longrightarrow> dget (kept_invite rv t c) k = None"
  using kept_invite_cases[of rv t c] by (elim disjE exE) simp_all

lemma dget_kept_relation: "k \<noteq> REL \<Longrightarrow> dget (kept_relation rv c) k = None"
  using kept_relation_cases[of rv c] by (elim disjE exE) simp_all

lemma prune_content_dict: "prune_content rv t (Inr (JDict c)) = Inr (JDict (pruned_content rv t c))"
proof (cases "keeps_all rv t")
  case True
  then have t: "t = JStr EventTypes_Create" "updated_redaction_rules rv" by (simp_all add: keeps_all_def)
  have "add_fields c fs c = c" for fs
    unfolding add_fields_def by (induction fs) (auto simp: dset_same split: option.split)
  then show ?thesis
    using t True
    by (cases "msc3389_relation_redactions rv")
       (simp_all add: prune_content_def rfold_add_field keep_relates_to_dict kept_relation_off pruned_content_def)
next
  case False
  let ?a = "present_fields (kept_fields rv t) c"
  have a: "rfold (add_field (Inr (JDict c))) (kept_fields rv t) (JDict []) = Inr (JDict ?a)"
    using kept_fields_distinct(1) by (simp add: rfold_add_field add_fields_present)
  have n: "dget ?a TPI = None" "dget (?a @ kept_invite rv t c) REL = None"
    using kept_fields_distinct(2,3)[of rv t] by (simp_all add: dget_append dget_present_fields dget_kept_invite)
  have i: "(if t = JStr EventTypes_Member \<and> updated_redaction_rules rv
      then keep_third_party_invite (Inr (JDict c)) (JDict ?a) else Inr (JDict ?a)) = Inr (JDict (?a @ kept_invite rv t c))"
    using keep_third_party_invite_dict[OF _ n(1)] by (auto simp: kept_invite_def)
  have start: "(if t = JStr EventTypes_Create \<and> updated_redaction_rules rv then Inr (JDict c) else Inr (JDict []))
      = (Inr (JDict []) :: json res)"
    using False by (auto simp: keeps_all_def)
  have "prune_content rv t (Inr (JDict c)) = (if msc3389_relation_redactions rv
      then keep_relates_to (Inr (JDict c)) (JDict (?a @ kept_invite rv t c)) else Inr (JDict (?a @ kept_invite rv t c)))"
    unfolding prune_content_def start rbind.simps a i ..
  also have "\<dots> = Inr (JDict (?a @ kept_invite rv t c @ kept_relation rv c))"
    using kept_relation_append[OF n(2), of rv c] by (simp add: keep_relates_to_dict kept_relation_off)
  finally show ?thesis using False by (simp add: pruned_content_def)
qed

lemma present_fields_cong: "(\<And>f. f \<in> set fs \<Longrightarrow> dget c f = dget d f) \<Longrightarrow> present_fields fs c = present_fields fs d"
  unfolding present_fields_def by (intro arg_cong[where f = somes] map_cong) auto

lemma present_fields_again: "present_fields fs (present_fields fs c) = present_fields fs c"
  by (rule present_fields_cong) (simp add: dget_present_fields)

lemma kept_relation_shape:
  "kept_relation rv c = [] \<or> (\<exists>n. kept_relation rv c = [(REL, JDict n)] \<and> msc3389_relation_redactions rv
     \<and> present_fields [''rel_type'', ''event_id''] n = n \<and> n \<noteq> [])"
  unfolding kept_relation_def Let_def
  by (simp add: present_fields_again split: option.split json.split)

lemma kept_relation_again:
  assumes "dget d REL = dget (kept_relation rv c) REL"
  shows "kept_relation rv d = kept_relation rv c"
  using kept_relation_shape[of rv c]
proof (elim disjE exE conjE)
  assume "kept_relation rv c = []"
  with assms show ?thesis by (simp add: kept_relation_def)
next
  fix n assume "kept_relation rv c = [(REL, JDict n)]" "msc3389_relation_redactions rv"
    "present_fields [''rel_type'', ''event_id''] n = n" "n \<noteq> []"
  with assms show ?thesis by (simp add: kept_relation_def[of rv d])
qed

lemma kept_invite_again:
  assumes "dget d TPI = dget (kept_invite rv t c) TPI"
  shows "kept_invite rv t d = kept_invite rv t c"
proof -
  have "kept_invite rv t c = [] \<or> (\<exists>x. kept_invite rv t c = [(TPI, JDict x)] \<and> present_fields [''signed''] x = x
      \<and> t = JStr EventTypes_Member \<and> updated_redaction_rules rv)"
    unfolding kept_invite_def by (simp add: present_fields_again split: option.split json.split)
  then show ?thesis using assms by (elim disjE exE conjE) (simp_all add: kept_invite_def[of rv t d] kept_invite_def[of rv "JStr EventTypes_Member" d])
qed

lemma pruned_content_again: "pruned_content rv t (pruned_content rv t c) = pruned_content rv t c"
proof (cases "keeps_all rv t")
  case True
  show ?thesis
  proof (cases "kept_relation rv c = []")
    case False
    then obtain n where n: "kept_relation rv c = [(REL, JDict n)]" using kept_relation_shape[of rv c] by blast
    have "kept_relation rv (dset REL (JDict n) c) = kept_relation rv c" by (rule kept_relation_again) (simp add: n)
    then show ?thesis using True n by (simp add: pruned_content_def dset_same)
  qed (use True in \<open>simp add: pruned_content_def\<close>)
next
  case False
  let ?p = "pruned_content rv t c"
  have p: "?p = present_fields (kept_fields rv t) c @ kept_invite rv t c @ kept_relation rv c"
    using False by (simp add: pruned_content_def)
  have at: "dget ?p k = (case dget (present_fields (kept_fields rv t) c) k of Some v \<Rightarrow> Some v
      | None \<Rightarrow> (case dget (kept_invite rv t c) k of Some v \<Rightarrow> Some v | None \<Rightarrow> dget (kept_relation rv c) k))" for k
    by (simp add: p map_add_def split: option.split)
  have "dget ?p f = dget c f" if "f \<in> set (kept_fields rv t)" for f
  proof -
    have "f \<noteq> TPI" "f \<noteq> REL" using that kept_fields_distinct(2,3)[of rv t] by auto
    then show ?thesis
      using that by (simp add: at dget_present_fields dget_kept_invite dget_kept_relation split: option.split)
  qed
  then have fields: "present_fields (kept_fields rv t) ?p = present_fields (kept_fields rv t) c"
    by (rule present_fields_cong)
  have "dget ?p TPI = dget (kept_invite rv t c) TPI" "dget ?p REL = dget (kept_relation rv c) REL"
    using kept_fields_distinct(2,3)[of rv t] dget_kept_invite[of REL rv t c] dget_kept_relation[of TPI rv c]
    by (simp_all add: at dget_present_fields split: option.split)
  note again = kept_invite_again[OF this(1)] kept_relation_again[OF this(2)]
  have "pruned_content rv t ?p = present_fields (kept_fields rv t) ?p @ kept_invite rv t ?p @ kept_relation rv ?p"
    unfolding pruned_content_def[of rv t ?p] by (rule if_not_P[OF False])
  also have "\<dots> = ?p" unfolding fields again by (rule p[symmetric])
  finally show ?thesis .
qed

section \<open>Redacted events\<close>

definition pruned :: "EventBase \<Rightarrow> EventBase" where
  "pruned e = e\<lparr>ev_content := pruned_content (ev_room_version e) (JStr (ev_type e)) (ev_content e), ev_redacts := None,
     ev_room_id := (if ev_type e = EventTypes_Create \<and> msc4291_room_ids_as_hashes (ev_room_version e)
       then None else ev_room_id e),
     ev_rejected_reason := None\<rparr>"

lemma prune_event_pruned: "prune_event e = Inr (pruned e)"
  by (simp add: prune_event_def prune_content_dict pruned_def)

lemma pruned_simps [simp]:
  "ev_type (pruned e) = ev_type e" "ev_sender (pruned e) = ev_sender e" "ev_state_key (pruned e) = ev_state_key e"
  "ev_room_version (pruned e) = ev_room_version e" "ev_event_id (pruned e) = ev_event_id e"
  "ev_content (pruned e) = pruned_content (ev_room_version e) (JStr (ev_type e)) (ev_content e)"
  by (simp_all add: pruned_def)

lemma dget_pruned_kept: "k \<in> set (kept_fields rv t) \<Longrightarrow> dget (pruned_content rv t c) k = dget c k"
proof -
  assume k: "k \<in> set (kept_fields rv t)"
  then have "k \<noteq> TPI" "k \<noteq> REL" using kept_fields_distinct(2,3)[of rv t] by auto
  then show ?thesis
    using k kept_relation_cases[of rv c]
    by (elim disjE exE)
       (simp_all add: pruned_content_def map_add_def dget_present_fields dget_kept_invite split: option.split)
qed

lemma dget_pruned_create: "keeps_all rv t \<Longrightarrow> k \<noteq> REL \<Longrightarrow> dget (pruned_content rv t c) k = dget c k"
  using kept_relation_cases[of rv c] by (elim disjE exE) (simp_all add: pruned_content_def)

lemma dget_or_pruned_create:
  "keeps_all rv t \<Longrightarrow> k \<noteq> REL \<Longrightarrow> dget_or (pruned_content rv t c) k d = dget_or c k d"
  by (simp add: dget_or_def dget_pruned_create)

lemma dget_or_pruned_kept:
  "k \<in> set (kept_fields rv t) \<Longrightarrow> dget_or (pruned_content rv t c) k d = dget_or c k d"
  by (simp add: dget_or_def dget_pruned_kept)

section \<open>Rules over redacted state\<close>

text \<open>
  A state map whose events stand at their own types and follow the updated redaction rules, and the
  map of the same events redacted.
\<close>

definition redactable :: "state_map \<Rightarrow> bool" where
  "redactable m \<longleftrightarrow> (\<forall>k e. m k = Some e \<longrightarrow> ev_type e = fst k \<and> updated_redaction_rules (ev_room_version e))"

definition redacted :: "state_map \<Rightarrow> state_map" where
  "redacted m k = map_option pruned (m k)"

lemma redactableD:
  "redactable m \<Longrightarrow> m k = Some e \<Longrightarrow> ev_type e = fst k"
  "redactable m \<Longrightarrow> m k = Some e \<Longrightarrow> updated_redaction_rules (ev_room_version e)"
  unfolding redactable_def by blast+

lemma redactable_create: "redactable m \<Longrightarrow> m CREATE_KEY = Some e \<Longrightarrow> keeps_all (ev_room_version e) (JStr (ev_type e))"
  by (auto simp: keeps_all_def dest: redactableD)

lemma level_fields_kept:
  assumes "redactable m" "m (EventTypes_PowerLevels, []) = Some e"
    and "k \<in> {''users'', ''users_default'', ''events'', ''events_default'', ''state_default'', ''ban'', ''kick'',
      ''redact'', ''invite''}"
  shows "k \<in> set (kept_fields (ev_room_version e) (JStr (ev_type e)))"
  using redactableD[OF assms(1,2)] assms(3) by (auto simp: kept_fields_def)

lemmas level_reads = level_fields_kept[THEN dget_pruned_kept] level_fields_kept[THEN dget_or_pruned_kept]

lemma is_creator_redacted:
  assumes "keeps_all (ev_room_version e) (JStr (ev_type e))" shows "is_creator (pruned e) u = is_creator e u"
proof -
  have "dget_or (ev_content (pruned e)) F_ADDITIONAL_CREATORS d = dget_or (ev_content e) F_ADDITIONAL_CREATORS d" for d
    using dget_or_pruned_create[OF assms] by simp
  then show ?thesis unfolding is_creator_def by (simp only: pruned_simps(1,2,4))
qed

lemma get_user_power_level_redacted:
  assumes "redactable m" shows "get_user_power_level u (redacted m) = get_user_power_level u m"
proof (cases "m CREATE_KEY")
  case (Some c)
  note k = redactable_create[OF assms Some]
  have creator: "room_creator (pruned c) = room_creator c"
    using k by (simp add: room_creator_def dget_pruned_create dsub_def)
  have content: "level_in_content (ev_content (pruned p)) u = level_in_content (ev_content p) u"
    if "m (EventTypes_PowerLevels, []) = Some p" for p
  proof -
    have "dget_or (ev_content (pruned p)) ''users'' d = dget_or (ev_content p) ''users'' d"
      "dget_or (ev_content (pruned p)) ''users_default'' d = dget_or (ev_content p) ''users_default'' d" for d
      using level_reads(2)[OF assms that] by simp_all
    then show ?thesis unfolding level_in_content_def by (simp only:)
  qed
  have "(case map_option pruned (m (EventTypes_PowerLevels, [])) of Some p \<Rightarrow> level_in_content (ev_content p) u
        | None \<Rightarrow> rbind (room_creator c) (\<lambda>creator. Inr (if creator = JStr u then 100 else 0)))
      = (case m (EventTypes_PowerLevels, []) of Some p \<Rightarrow> level_in_content (ev_content p) u
        | None \<Rightarrow> rbind (room_creator c) (\<lambda>creator. Inr (if creator = JStr u then 100 else 0)))"
    using content by (cases "m (EventTypes_PowerLevels, [])") (simp_all del: pruned_simps)
  then show ?thesis
    unfolding get_user_power_level_def get_power_level_event_def redacted_def Some option.map option.case
      pruned_simps(4) is_creator_redacted[OF k] creator by (simp only:)
qed (simp add: get_user_power_level_def redacted_def)

lemma get_named_level_redacted:
  assumes "redactable m" "n \<in> {''ban'', ''kick'', ''redact'', ''invite''}"
  shows "get_named_level (redacted m) n d = get_named_level m n d"
proof -
  have "dget (ev_content (pruned p)) n = dget (ev_content p) n" if "m (EventTypes_PowerLevels, []) = Some p" for p
    using assms(2) by (auto simp: level_reads[OF assms(1) that])
  then show ?thesis by (simp add: get_named_level_def get_power_level_event_def redacted_def split: option.split)
qed

lemma get_send_level_redacted:
  assumes "redactable m"
  shows "get_send_level t sk (get_power_level_event (redacted m)) = get_send_level t sk (get_power_level_event m)"
proof (cases "m (EventTypes_PowerLevels, [])")
  case (Some p)
  have "dget_or (ev_content (pruned p)) ''events'' d = dget_or (ev_content p) ''events'' d"
    "dget_or (ev_content (pruned p)) ''events_default'' d = dget_or (ev_content p) ''events_default'' d"
    "dget_or (ev_content (pruned p)) ''state_default'' d = dget_or (ev_content p) ''state_default'' d" for d
    using level_reads(2)[OF assms Some] by simp_all
  then show ?thesis
    unfolding get_send_level_def get_power_level_event_def redacted_def Some option.map option.case Let_def
    by (simp only:)
qed (simp add: get_send_level_def get_power_level_event_def redacted_def)

lemma can_federate_redacted:
  assumes "redactable m" shows "can_federate (redacted m) = can_federate m"
proof (cases "m CREATE_KEY")
  case (Some c)
  then show ?thesis
    using redactable_create[OF assms Some] by (simp add: can_federate_def redacted_def dget_or_pruned_create)
qed (simp add: can_federate_def redacted_def)

lemma membership_redacted:
  assumes "redactable m" shows "membership_of (redacted m (EventTypes_Member, u)) = membership_of (m (EventTypes_Member, u))"
proof (cases "m (EventTypes_Member, u)")
  case (Some e)
  have "dget (ev_content (pruned e)) ''membership'' = dget (ev_content e) ''membership''"
    using redactableD(1)[OF assms Some] by (simp add: dget_pruned_kept kept_fields_def)
  then show ?thesis using Some by (simp add: membership_of_def redacted_def membership_def dsub_def)
qed (simp add: membership_of_def redacted_def)

lemma join_rule_redacted:
  assumes "redactable m" shows "join_rule_of (redacted m) = join_rule_of m"
proof (cases "m (EventTypes_JoinRules, [])")
  case (Some e)
  have "''join_rule'' \<in> set (kept_fields (ev_room_version e) (JStr (ev_type e)))"
    using redactableD(1)[OF assms Some] by (simp add: kept_fields_def)
  then show ?thesis using Some by (simp add: join_rule_of_def redacted_def dget_or_pruned_kept)
qed (simp add: join_rule_of_def redacted_def)

lemma gather_redacted:
  assumes "redactable m" shows "gather_membership_facts event (redacted m) = gather_membership_facts event m"
proof (cases "m CREATE_KEY")
  case (Some c)
  then have c: "redacted m CREATE_KEY = Some (pruned c)" by (simp add: redacted_def)
  show ?thesis
    unfolding gather_membership_facts_def join_rule_of_def[symmetric] Some c option.case
    by (simp add: can_federate_redacted[OF assms] membership_redacted[OF assms] join_rule_redacted[OF assms]
        get_user_power_level_redacted[OF assms] get_named_level_redacted[OF assms])
qed (simp add: gather_membership_facts_def redacted_def)

lemma creator_joining_redacted:
  assumes "redactable m" shows "creator_joining rv event (redacted m) ms = creator_joining rv event m ms"
proof (cases "m CREATE_KEY")
  case (Some c)
  then show ?thesis
    using redactable_create[OF assms Some]
    by (simp add: creator_joining_def redacted_def dsub_def dget_pruned_create split: list.split)
qed (simp add: creator_joining_def redacted_def split: list.split)

lemma check_authorised_join_redacted:
  assumes "redactable m" shows "check_authorised_join event (redacted m) f = check_authorised_join event m f"
proof (cases "not_none (dget (ev_content event) F_AUTHORISING_USER)")
  case (Some u)
  have "rbind (state_get (redacted m) EventTypes_Member u) (\<lambda>e. rbind (room_id event) (\<lambda>_. rbind (check_joined_room e) k))
      = rbind (state_get m EventTypes_Member u) (\<lambda>e. rbind (room_id event) (\<lambda>_. rbind (check_joined_room e) k))" for k
    by (cases u) (simp_all add: check_joined_room_def membership_redacted[OF assms])
  then show ?thesis unfolding check_authorised_join_def Some option.case get_user_power_level_redacted[OF assms] .
qed (simp add: check_authorised_join_def)

lemma check_join_redacted:
  assumes "redactable m" shows "check_join rv event (redacted m) f = check_join rv event m f"
  unfolding check_join_def check_authorised_join_redacted[OF assms] ..

lemma named_levels_redacted:
  assumes "redactable m"
  shows "get_named_level (redacted m) ''kick'' d = get_named_level m ''kick'' d"
    "get_named_level (redacted m) ''redact'' d = get_named_level m ''redact'' d"
    "get_named_level (redacted m) ''invite'' d = get_named_level m ''invite'' d"
  by (rule get_named_level_redacted[OF assms]; simp)+

lemma check_leave_redacted:
  assumes "redactable m" shows "check_leave event (redacted m) f = check_leave event m f"
  unfolding check_leave_def named_levels_redacted[OF assms] ..

definition third_party_claim :: "EventBase \<Rightarrow> bool" where
  "third_party_claim event \<longleftrightarrow> ev_type event = EventTypes_Member
     \<and> dget (ev_content event) ''membership'' = Some Membership_INVITE \<and> dhas (ev_content event) ''third_party_invite''"

lemma membership_change_redacted:
  assumes "redactable m" "\<not> third_party_claim event" "ev_type event = EventTypes_Member"
  shows "is_membership_change_allowed env rv event (redacted m) = is_membership_change_allowed env rv event m"
proof (cases "membership event")
  case (Inr ms)
  then have "\<not> (ms = Membership_INVITE \<and> dhas (ev_content event) ''third_party_invite'')"
    using assms(2,3) by (auto simp: third_party_claim_def)
  then show ?thesis
    unfolding is_membership_change_allowed_def Inr rbind.simps gather_redacted[OF assms(1)]
      creator_joining_redacted[OF assms(1)] check_join_redacted[OF assms(1)] check_leave_redacted[OF assms(1)]
    by (simp only: if_False)
qed (simp add: is_membership_change_allowed_def)

lemma can_send_redacted:
  assumes "redactable m" shows "can_send_event env event (redacted m) = can_send_event env event m"
  unfolding can_send_event_def get_send_level_redacted[OF assms] get_user_power_level_redacted[OF assms] ..

lemma check_redaction_redacted:
  assumes "redactable m" shows "check_redaction rv event (redacted m) = check_redaction rv event m"
  unfolding check_redaction_def get_user_power_level_redacted[OF assms] named_levels_redacted[OF assms] ..

lemma sender_in_room_redacted:
  "redactable m \<Longrightarrow> check_event_sender_in_room event (redacted m) = check_event_sender_in_room event m"
  by (simp add: check_event_sender_in_room_def check_joined_room_def membership_redacted)

lemma check_against_redacted:
  assumes "redactable m" "\<not> third_party_claim event" "ev_type event \<noteq> EventTypes_PowerLevels"
  shows "check_against_state env event (redacted m) = check_against_state env event m"
proof (cases "m CREATE_KEY")
  case (Some c)
  then have c: "redacted m CREATE_KEY = Some (pruned c)" by (simp add: redacted_def)
  show ?thesis
    unfolding check_against_state_def Some c option.case pruned_simps can_federate_redacted[OF assms(1)]
      sender_in_room_redacted[OF assms(1)] can_send_redacted[OF assms(1)] check_redaction_redacted[OF assms(1)]
      get_user_power_level_redacted[OF assms(1)] named_levels_redacted[OF assms(1)]
    using assms(3) membership_change_redacted[OF assms(1,2)]
    by (cases "ev_type event = EventTypes_Member") simp_all
qed (simp add: check_against_state_def redacted_def)

lemma state_dict_redacted:
  assumes "list_all (\<lambda>e. updated_redaction_rules (ev_room_version e)) es" "redactable m"
  shows "state_dict (map pruned es) (redacted m) = rbind (state_dict es m) (\<lambda>m'. Inr (redacted m'))
    \<and> (\<forall>m'. state_dict es m = Inr m' \<longrightarrow> redactable m')"
  using assms
proof (induction es arbitrary: m)
  case (Cons e es)
  show ?case
  proof (cases "ev_state_key e")
    case (Some k)
    have "redacted (m((ev_type e, k) \<mapsto> e)) = (redacted m)((ev_type e, k) \<mapsto> pruned e)"
      by (auto simp: redacted_def)
    moreover have "redactable (m((ev_type e, k) \<mapsto> e))" using Cons.prems by (auto simp: redactable_def)
    ultimately show ?thesis using Cons.IH[of "m((ev_type e, k) \<mapsto> e)"] Cons.prems Some by (simp add: state_key_def del: fun_upd_apply)
  qed (simp add: state_key_def)
qed simp

lemma rmap_prune: "rmap prune_event es = Inr (map pruned es)"
  by (induction es) (simp_all add: prune_event_pruned)

text \<open>
  C11. Redaction does not change who may do what: where every auth event follows the updated
  redaction rules, an event that is neither a change of power levels nor an invite claiming a
  third-party invite gets the same verdict, error included, against the redacted auth events as
  against the original ones.
\<close>

theorem redacted_state_decides_alike:
  assumes "list_all (\<lambda>e. updated_redaction_rules (ev_room_version e)) es" "rmap prune_event es = Inr redacted_es"
    and "ev_type event \<noteq> EventTypes_PowerLevels" "\<not> third_party_claim event"
  shows "check_state_dependent_auth_rules env event redacted_es = check_state_dependent_auth_rules env event es"
proof -
  have es: "redacted_es = map pruned es" using assms(2) by (simp add: rmap_prune)
  have "redactable (\<lambda>_. None)" "redacted (\<lambda>_. None) = (\<lambda>_. None)" by (simp_all add: redactable_def redacted_def fun_eq_iff)
  with state_dict_redacted[OF assms(1), of "\<lambda>_. None"]
  have d: "state_dict (map pruned es) (\<lambda>_. None) = rbind (state_dict es (\<lambda>_. None)) (\<lambda>m. Inr (redacted m))"
    and r: "\<And>m. state_dict es (\<lambda>_. None) = Inr m \<Longrightarrow> redactable m" by simp_all
  show ?thesis
    unfolding check_state_dependent_auth_rules_def es d
    by (cases "state_dict es (\<lambda>_. None)") (simp_all add: check_against_redacted[OF r assms(4,3)])
qed

section \<open>What is left of an event\<close>

lemma filter_dset: "P k \<Longrightarrow> filter (\<lambda>(k, _). P k) (dset k v d) = dset k v (filter (\<lambda>(k, _). P k) d)"
  by (induction d) auto

lemma prune_unsigned_dict: "prune_unsigned (JDict x) = Inr (present_fields [''age_ts'', ''replaces_state''] x)"
  by (cases "dget x ''age_ts''"; cases "dget x ''replaces_state''")
     (simp_all add: prune_unsigned_def present_fields_def somes_def dhas_def dsub_def)

lemma prune_unsigned_again: "prune_unsigned j = Inr u \<Longrightarrow> prune_unsigned (JDict u) = Inr u"
proof (cases j)
  case (JDict x)
  moreover assume "prune_unsigned j = Inr u"
  ultimately show ?thesis by (auto simp: prune_unsigned_dict present_fields_again)
qed (auto simp: prune_unsigned_def dhas_def split: if_splits)

lemma allowed_keys_base:
  "''content'' \<in> set (allowed_keys rv t)" "''type'' \<in> set (allowed_keys rv t)" "''unsigned'' \<notin> set (allowed_keys rv t)"
  by (simp_all add: allowed_keys_def)


section \<open>Samples\<close>

definition sample_pruned_room :: "EventBase list" where
  "sample_pruned_room = map pruned (sample_room RV_V11)"

theorem redacted_state_decides_alike_witness:
  "rmap prune_event (sample_room RV_V11) = Inr sample_pruned_room
   \<and> check_state_dependent_auth_rules sample_env (sample_ban RV_V11) sample_pruned_room
     = check_state_dependent_auth_rules sample_env (sample_ban RV_V11) (sample_room RV_V11)
   \<and> ok (check_state_dependent_auth_rules sample_env (sample_ban RV_V11) (sample_room RV_V11))"
proof (intro conjI)
  show "rmap prune_event (sample_room RV_V11) = Inr sample_pruned_room"
    by (simp add: rmap_prune sample_pruned_room_def)
  then show "check_state_dependent_auth_rules sample_env (sample_ban RV_V11) sample_pruned_room
     = check_state_dependent_auth_rules sample_env (sample_ban RV_V11) (sample_room RV_V11)"
    by (rule redacted_state_decides_alike[rotated]; code_simp)
qed code_simp

definition sample_membership_dict :: json_dict where
  "sample_membership_dict = [(''type'', JStr EventTypes_Member), (''sender'', JStr ''@u:h''), (''origin'', JStr ''h''),
     (''content'', JDict [(''membership'', Membership_JOIN), (''displayname'', JStr ''Mallory'')]),
     (''unsigned'', JDict [(''age'', JInt 7), (''age_ts'', JInt 3)])]"

definition sample_membership_pruned :: json_dict where
  "sample_membership_pruned = [(''type'', JStr EventTypes_Member), (''sender'', JStr ''@u:h''),
     (''content'', JDict [(''membership'', Membership_JOIN)]), (''unsigned'', JDict [(''age_ts'', JInt 3)])]"

lemma sample_membership_prune: "prune_event_dict RV_V11 sample_membership_dict = Inr sample_membership_pruned"
  by code_simp


text \<open>
  The older rules do not have this: redacting a create event of version 10 drops \<open>m.federate\<close>, and a
  room closed to other servers is open to them afterwards.
\<close>

lemma redacted_create_federates:
  "\<not> can_federate (state_of sample_unfederated_room)
   \<and> can_federate (state_of (map pruned sample_unfederated_room))"
  by code_simp

end
