(* ===== verification/Event_Format_Props.thy ===== *)
theory Event_Format_Props
  imports Event_Format Event_Auth_Rules
begin

text \<open>
  Field selection is exact: paths can be written for any keys, and the selected dictionary is a part
  of the given one that holds every requested field. Fixing the power levels of an old room keeps
  every level and yields content the strict rules accept.
\<close>

section \<open>Paths\<close>

definition escape_char :: "char \<Rightarrow> string" where
  "escape_char c = (if c = backslash \<or> c = CHR ''.'' then [backslash, c] else [c])"

definition escape :: "string \<Rightarrow> string" where
  "escape s = concat (map escape_char s)"

fun join_dots :: "string list \<Rightarrow> string" where
  "join_dots [] = []"
| "join_dots [p] = p"
| "join_dots (p # q # ps) = p @ CHR ''.'' # join_dots (q # ps)"

lemma escape_simps [simp]: "escape [] = []" "escape (c # s) = escape_char c @ escape s"
  by (simp_all add: escape_def)

lemma split_dots_escaped:
  "even n \<Longrightarrow> \<exists>m. even m \<and> split_dots part n (escape s @ rest) = split_dots (part @ escape s) m rest"
proof (induction s arbitrary: part n)
  case (Cons c s)
  consider "c = backslash" | "c = CHR ''.''" | "c \<noteq> backslash" "c \<noteq> CHR ''.''" by blast
  then show ?case
  proof cases
    case 1
    then show ?thesis using Cons.IH[of "Suc (Suc n)" "part @ [backslash, backslash]"] Cons.prems
      by (simp add: escape_char_def)
  next
    case 2
    then show ?thesis using Cons.IH[of 0 "part @ [backslash, CHR ''.'']"] Cons.prems by (simp add: escape_char_def)
  next
    case 3
    then show ?thesis using Cons.IH[of 0 "part @ [c]"] by (simp add: escape_char_def)
  qed
qed auto

lemma split_dots_join:
  "even n \<Longrightarrow> split_dots part n (escape p @ (if ps = [] then [] else CHR ''.'' # join_dots (map escape ps)))
     = (part @ escape p) # map escape ps"
proof (induction ps arbitrary: p part n)
  case Nil
  then show ?case using split_dots_escaped[OF Nil, of part p "[]"] by auto
next
  case (Cons q qs)
  obtain m where m: "even m" "split_dots part n (escape p @ CHR ''.'' # join_dots (map escape (q # qs)))
      = split_dots (part @ escape p) m (CHR ''.'' # join_dots (map escape (q # qs)))"
    using split_dots_escaped[OF Cons.prems] by blast
  have "join_dots (map escape (q # qs)) = escape q @ (if qs = [] then [] else CHR ''.'' # join_dots (map escape qs))"
    by (cases qs) simp_all
  then show ?case using m Cons.IH[of 0 "[]" q] by simp
qed

lemma unescape_cons: "c \<noteq> backslash \<Longrightarrow> unescape (c # s) = c # unescape s"
  by (cases s) simp_all

lemma unescape_escape: "unescape (escape s) = s"
  by (induction s) (auto simp: escape_char_def unescape_cons)

text \<open>
  C33. Every path can be written: the escaped keys of any non-empty path, joined by dots, are split
  back into exactly those keys, whatever characters they contain.
\<close>

theorem split_field_roundtrip: "split_field (join_dots (map escape (p # ps))) = p # ps"
proof -
  have "join_dots (map escape (p # ps)) = escape p @ (if ps = [] then [] else CHR ''.'' # join_dots (map escape ps))"
    by (cases ps) simp_all
  then show ?thesis
    using split_dots_join[of 0 "[]" p ps] by (simp add: split_field_def unescape_escape comp_def)
qed

section \<open>Selection\<close>

text \<open>A JSON value that is a part of another: the same, or a dictionary with some of its entries.\<close>

inductive part_of :: "json \<Rightarrow> json \<Rightarrow> bool" where
  same: "part_of v v"
| part: "(\<And>k v. dget a k = Some v \<Longrightarrow> \<exists>w. dget b k = Some w \<and> part_of v w) \<Longrightarrow> part_of (JDict a) (JDict b)"

inductive_cases part_of_dictE: "part_of (JDict a) (JDict b)"

lemma part_of_dget: "part_of (JDict a) (JDict b) \<Longrightarrow> dget a k = Some v \<Longrightarrow> \<exists>w. dget b k = Some w \<and> part_of v w"
  by (elim part_of_dictE) (auto intro: same)

lemma part_of_dset: "part_of (JDict a) (JDict b) \<Longrightarrow> dget b k = Some w \<Longrightarrow> part_of v w \<Longrightarrow> part_of (JDict (dset k v a)) (JDict b)"
  by (rule part) (auto dest: part_of_dget split: if_splits)

lemma part_of_dict: "part_of v (JDict b) \<Longrightarrow> \<exists>a. v = JDict a"
  by (erule part_of.cases) auto

lemma part_of_empty: "part_of (JDict []) (JDict b)"
  by (rule part) simp

text \<open>Writing a value where the whole has it succeeds, keeps the part a part, and is then found.\<close>

lemma put_at_part:
  "drill_down src path = Some v \<Longrightarrow> part_of (JDict dst) (JDict src) \<Longrightarrow>
     \<exists>dst'. put_at path v dst = Inr dst' \<and> part_of (JDict dst') (JDict src) \<and> drill_down dst' path = Some v"
proof (induction path v dst arbitrary: src rule: put_at.induct)
  case (2 k v dst)
  then show ?case by (simp add: part_of_dset[OF _ _ same])
next
  case (3 k l ks v dst)
  from 3(2) obtain d where d: "dget src k = Some (JDict d)" "drill_down d (l # ks) = Some v"
    by (auto split: option.splits json.splits)
  obtain e where e: "dget_or dst k (JDict []) = JDict e" "part_of (JDict e) (JDict d)"
  proof (cases "dget dst k")
    case None
    then show thesis using that[of "[]"] part_of_empty by (simp add: dget_or_def)
  next
    case (Some x)
    with part_of_dget[OF 3(3) Some] d(1) obtain a where "x = JDict a" "part_of (JDict a) (JDict d)"
      using part_of_dict by fastforce
    then show thesis using that[of a] Some by (simp add: dget_or_def)
  qed
  from 3(1)[OF e(1) d(2) e(2)] obtain e' where "put_at (l # ks) v e = Inr e'" "part_of (JDict e') (JDict d)"
    "drill_down e' (l # ks) = Some v" by blast
  then show ?case using e(1) d(1) part_of_dset[OF 3(3) d(1)] by simp
qed simp_all

lemma put_at_same: "drill_down d path = Some v \<Longrightarrow> put_at path v d = Inr d"
proof (induction path v d rule: put_at.induct)
  case (3 k l ks v dst)
  from 3(2) obtain d where d: "dget dst k = Some (JDict d)" "drill_down d (l # ks) = Some v"
    by (auto split: option.splits json.splits)
  with 3(1)[of d] show ?case by (simp add: dget_or_def dset_same)
qed (simp_all add: dset_same)

lemma drill_down_empty: "drill_down [] path = None"
  by (cases "([] :: json_dict, path)" rule: drill_down.cases) simp_all

lemma put_at_keeps:
  "drill_down src path = Some v \<Longrightarrow> part_of (JDict dst) (JDict src) \<Longrightarrow> drill_down dst p = drill_down src p \<Longrightarrow>
     put_at path v dst = Inr dst' \<Longrightarrow> drill_down dst' p = drill_down src p"
proof (induction path v dst arbitrary: src p dst' rule: put_at.induct)
  case (2 k v dst)
  then show ?case by (cases "(src, p)" rule: drill_down.cases) (auto split: if_splits)
next
  case (3 k l ks v dst)
  from 3(2) obtain d where d: "dget src k = Some (JDict d)" "drill_down d (l # ks) = Some v"
    by (auto split: option.splits json.splits)
  obtain e where e: "dget_or dst k (JDict []) = JDict e" "part_of (JDict e) (JDict d)"
    "dget dst k = None \<and> e = [] \<or> dget dst k = Some (JDict e)"
  proof (cases "dget dst k")
    case None
    then show thesis using that[of "[]"] part_of_empty by (simp add: dget_or_def)
  next
    case (Some x)
    with part_of_dget[OF 3(3) Some] d(1) obtain a where "x = JDict a" "part_of (JDict a) (JDict d)"
      using part_of_dict by fastforce
    then show thesis using that[of a] Some by (simp add: dget_or_def)
  qed
  from 3(5) e(1) obtain e' where e': "put_at (l # ks) v e = Inr e'" "dst' = dset k (JDict e') dst" by auto
  note IH = 3(1)[OF e(1) d(2) e(2) _ e'(1)]
  show ?case
  proof (cases "(src, p)" rule: drill_down.cases)
    case (2 _ k')
    then show ?thesis using 3(4) e(3) e' d put_at_same[OF d(2)] by (cases "k' = k") auto
  next
    case (3 _ k' l' ks')
    show ?thesis
    proof (cases "k' = k")
      case True
      have "drill_down e (l' # ks') = drill_down d (l' # ks')"
        using \<open>drill_down dst p = drill_down src p\<close> 3 True d(1) e(3) by (auto simp: drill_down_empty)
      from IH[OF this] show ?thesis using 3 True e'(2) d(1) by simp
    qed (use 3 \<open>drill_down dst p = drill_down src p\<close> e'(2) in simp)
  qed simp
qed simp

lemma drill_down_part:
  "part_of (JDict a) (JDict b) \<Longrightarrow> drill_down b path = None \<Longrightarrow> drill_down a path = None"
proof (induction a path arbitrary: b rule: drill_down.induct)
  case (2 a k)
  then show ?case by (cases "dget a k") (auto dest: part_of_dget)
next
  case (3 a k l ks)
  show ?case
  proof (cases "dget a k")
    case (Some x)
    with part_of_dget[OF 3(2)] obtain w where w: "dget b k = Some w" "part_of x w" by blast
    show ?thesis
    proof (cases x)
      case (JDict d)
      with w(2) obtain d' where "w = JDict d'" by cases auto
      then show ?thesis using 3(1)[OF Some JDict, of d'] 3(3) w Some JDict by simp
    qed (simp_all add: Some)
  qed simp
qed simp

lemma copy_fields_part:
  "part_of (JDict out) (JDict src) \<Longrightarrow> \<forall>p \<in> set done. drill_down out p = drill_down src p \<Longrightarrow>
     \<exists>out'. rfold (\<lambda>p out. copy_field src p out) ps out = Inr out' \<and> part_of (JDict out') (JDict src)
       \<and> (\<forall>p \<in> set (done @ ps). drill_down out' p = drill_down src p)"
proof (induction ps arbitrary: out "done")
  case (Cons p ps)
  show ?case
  proof (cases "drill_down src p")
    case None
    then have "drill_down out p = drill_down src p" using drill_down_part[OF Cons.prems(1)] by simp
    then show ?thesis using Cons.IH[OF Cons.prems(1), of "done @ [p]"] Cons.prems None by (simp add: copy_field_def)
  next
    case (Some v)
    from put_at_part[OF Some Cons.prems(1)] obtain out1 where o: "put_at p v out = Inr out1"
      "part_of (JDict out1) (JDict src)" "drill_down out1 p = Some v" by blast
    have "\<forall>q \<in> set (done @ [p]). drill_down out1 q = drill_down src q"
      using Cons.prems(2) put_at_keeps[OF Some Cons.prems(1) _ o(1)] o(3) Some by auto
    from Cons.IH[OF o(2) this] show ?thesis using Some o(1) by (simp add: copy_field_def)
  qed
qed simp

lemma only_fields_part:
  "\<exists>out. only_fields dictionary fs = Inr out \<and> part_of (JDict out) (JDict dictionary)
     \<and> list_all (\<lambda>f. drill_down out (split_field f) = drill_down dictionary (split_field f)) fs"
proof (cases "fs = []")
  case False
  have "rfold (\<lambda>f. copy_field dictionary (split_field f)) fs out = rfold (copy_field dictionary) (map split_field fs) out" for out
    by (induction fs arbitrary: out) (auto intro!: rbind_cong)
  then show ?thesis
    using copy_fields_part[OF part_of_empty, of "[]" dictionary "map split_field fs"] False
    by (auto simp: only_fields_def list_all_iff)
qed (simp add: only_fields_def list_all_iff same)


section \<open>Transaction identifiers\<close>

definition no_txn :: "json_dict \<Rightarrow> bool" where
  "no_txn d \<longleftrightarrow> drill_down d [''unsigned'', ''transaction_id''] = None"

lemma no_txn_dset: "k \<noteq> ''unsigned'' \<Longrightarrow> no_txn d \<Longrightarrow> no_txn (dset k v d)"
  by (simp add: no_txn_def)

lemma no_txn_pops: "no_txn d \<Longrightarrow> no_txn (fold dpop ks d)"
  by (induction ks arbitrary: d) (simp_all add: no_txn_def)

lemma no_txn_v2: "format_event_for_client_v2 d = Inr d' \<Longrightarrow> no_txn d \<Longrightarrow> no_txn d'"
  unfolding format_event_for_client_v2_def sum.inject using no_txn_pops by blast

lemma no_txn_copies:
  assumes "rfold (\<lambda>key d. rbind (dsub d ''unsigned'') (\<lambda>u. rbind (json_in key u) (\<lambda>present.
         if present then rbind (json_sub u key) (\<lambda>v. Inr (dset key v d)) else Inr d))) keys d = Inr d'"
    and "no_txn d" "''unsigned'' \<notin> set keys"
  shows "no_txn d'"
proof (rule rfold_invariant[where P = no_txn, OF assms(1,2)])
  fix key x y
  assume "key \<in> set keys" "no_txn x" "rbind (dsub x ''unsigned'') (\<lambda>u. rbind (json_in key u) (\<lambda>present.
         if present then rbind (json_sub u key) (\<lambda>v. Inr (dset key v x)) else Inr x)) = Inr y"
  with assms(3) show "no_txn y" using no_txn_dset[of key x] by (auto split: if_splits)
qed

lemma no_txn_v1:
  assumes "format_event_for_client_v1 d = Inr d'" "no_txn d" shows "no_txn d'"
proof -
  obtain d1 where d1: "format_event_for_client_v2 d = Inr d1" unfolding format_event_for_client_v2_def by blast
  have "no_txn (case dget d1 ''sender'' of None \<Rightarrow> d1 | Some JNull \<Rightarrow> d1 | Some s \<Rightarrow> dset ''user_id'' s d1)"
    using no_txn_v2[OF d1 assms(2)] no_txn_dset[of "''user_id''" d1] by (simp split: option.split json.split)
  from assms(1)[unfolded format_event_for_client_v1_def d1 rbind.simps Let_def] this
  show ?thesis by (rule no_txn_copies) simp
qed

lemma no_txn_compat: "compat_fields e d = Inr d' \<Longrightarrow> no_txn d \<Longrightarrow> no_txn d'"
  by (auto simp: compat_fields_def intro!: no_txn_dset split: if_splits option.splits json.splits)

lemma no_txn_admin:
  assumes "admin_fields config md d = Inr d'" "no_txn d" shows "no_txn d'"
proof (rule rfold_invariant[where P = no_txn, OF assms(1)[unfolded admin_fields_def] assms(2)])
  fix f x y
  assume f: "f \<in> set (if include_admin_metadata config then
          (if md_soft_failed md then [''io.element.synapse.soft_failed''] else []) @
          (if md_policy_server_spammy md then [''io.element.synapse.policy_server_spammy''] else [])
        else [])"
    and "rbind (dsub x ''unsigned'') (\<lambda>u. rbind (json_set f (JBool True) u) (\<lambda>u'. Inr (dset ''unsigned'' u' x))) = Inr y"
    and "no_txn x"
  then obtain u u' where u: "dget x ''unsigned'' = Some u" "json_set f (JBool True) u = Inr u'" "y = dset ''unsigned'' u' x"
    by (auto simp: dsub_def split: option.splits)
  moreover from f have "f \<noteq> ''transaction_id''" by (auto split: if_splits)
  ultimately show "no_txn y" using \<open>no_txn x\<close> by (cases u) (auto simp: no_txn_def)
qed

definition client_formats :: "(json_dict \<Rightarrow> json_dict res) set" where
  "client_formats = {format_event_raw, format_event_for_client_v1, format_event_for_client_v2,
     format_event_for_client_v2_without_room_id}"

lemma no_txn_format:
  assumes "fmt \<in> client_formats" "fmt d = Inr d'" "no_txn d" shows "no_txn d'"
proof -
  consider "fmt = format_event_raw" | "fmt = format_event_for_client_v1" | "fmt = format_event_for_client_v2"
    | "fmt = format_event_for_client_v2_without_room_id"
    using assms(1) unfolding client_formats_def by blast
  then show ?thesis
  proof cases
    case 4
    with assms(2) obtain x where "format_event_for_client_v2 d = Inr x" "d' = fold dpop [''room_id''] x"
      by (auto simp: format_event_for_client_v2_without_room_id_def)
    then show ?thesis using no_txn_v2 no_txn_pops assms(3) by blast
  qed (use assms no_txn_v1 no_txn_v2 in \<open>simp_all add: format_event_raw_def\<close>)
qed


section \<open>Fixed power levels\<close>

text \<open>The value a level is replaced by: its integer, or the dictionary of the integers of its entries.\<close>

definition fix_level :: "json \<Rightarrow> json res" where
  "fix_level v = (case v of JInt i \<Rightarrow> Inr v
     | JStr s \<Rightarrow> (case py_int_str s of Inr i \<Rightarrow> Inr (JInt i) | Inl _ \<Rightarrow> Inl TypeError) | _ \<Rightarrow> Inl TypeError)"

definition fix_entry :: "json \<Rightarrow> json res" where
  "fix_entry v = (case v of
       JDict d \<Rightarrow> rbind (rfold (\<lambda>(k, x) h. rbind (fix_level x) (\<lambda>y. Inr (dset k y h))) d []) (\<lambda>h. Inr (JDict h))
     | _ \<Rightarrow> fix_level v)"

lemma copy_level_fix: "copy_power_level_value_as_integer v h k = rbind (fix_level v) (\<lambda>w. Inr (dset k w h))"
  by (simp add: copy_power_level_value_as_integer_def fix_level_def split: json.split sum.split)

lemma fixup_fix:
  "copy_and_fixup_power_levels_contents (JDict c) = rfold (\<lambda>(k, v) p. rbind (fix_entry v) (\<lambda>w. Inr (dset k w p))) c []"
proof -
  have "(case v of JDict d \<Rightarrow> rbind (rfold (\<lambda>(k1, v1) h. copy_power_level_value_as_integer v1 h k1) d [])
          (\<lambda>h. Inr (dset k (JDict h) p)) | _ \<Rightarrow> copy_power_level_value_as_integer v p k)
      = rbind (fix_entry v) (\<lambda>w. Inr (dset k w p))" for k v p
    by (cases v) (simp_all add: fix_entry_def copy_level_fix rbind_assoc)
  then show ?thesis by (simp add: copy_and_fixup_power_levels_contents_def)
qed

lemma rfold_dset:
  assumes "rfold (\<lambda>(k, v) p. rbind (f v) (\<lambda>w. Inr (dset k w p))) c p = Inr c'" "wf_dict c"
  shows "(case dget c k of Some v \<Rightarrow> (\<exists>w. f v = Inr w \<and> dget c' k = Some w) | None \<Rightarrow> dget c' k = dget p k)"
  using assms
proof (induction c arbitrary: p)
  case (Cons x c)
  obtain l v where x: "x = (l, v)" by (cases x)
  from Cons.prems(1) obtain w where w: "f v = Inr w" "rfold (\<lambda>(k, v) p. rbind (f v) (\<lambda>w. Inr (dset k w p))) c (dset l w p) = Inr c'"
    by (auto simp: x)
  from Cons.prems(2) have "wf_dict c" "dget c l = None"
    by (auto simp: x wf_dict_def map_of_eq_None_iff)
  with Cons.IH[OF w(2)] show ?case by (cases "k = l") (auto simp: x w(1) split: option.splits)
qed simp

text \<open>Content whose dictionaries, at both levels, have no key twice, as every Python dictionary.\<close>

definition wf_levels :: "json_dict \<Rightarrow> bool" where
  "wf_levels c \<longleftrightarrow> wf_dict c \<and> list_all (\<lambda>(_, v). case v of JDict d \<Rightarrow> wf_dict d | _ \<Rightarrow> True) c"

lemma fix_level_ok: "fix_level v = Inr w \<Longrightarrow> \<exists>i. w = JInt i \<and> py_int v = Inr i \<and> v \<noteq> JNull \<and> (\<forall>d. v \<noteq> JDict d)"
  by (auto simp: fix_level_def split: json.splits sum.splits)

definition same_level :: "json option \<Rightarrow> json option \<Rightarrow> bool" where
  "same_level old new \<longleftrightarrow> old = None \<and> new = None
     \<or> (\<exists>x i. old = Some x \<and> new = Some (JInt i) \<and> py_int x = Inr i \<and> x \<noteq> JNull \<and> (\<forall>d. x \<noteq> JDict d))"

definition same_entry :: "json option \<Rightarrow> json option \<Rightarrow> bool" where
  "same_entry old new \<longleftrightarrow> same_level old new
     \<or> (\<exists>d h. old = Some (JDict d) \<and> new = Some (JDict h) \<and> (\<forall>u. same_level (dget d u) (dget h u)))"

lemma fixup_entry:
  assumes "copy_and_fixup_power_levels_contents (JDict c) = Inr c'" "wf_levels c"
  shows "same_entry (dget c k) (dget c' k)"
proof (cases "dget c k")
  case None
  then show ?thesis using rfold_dset[OF assms(1)[unfolded fixup_fix], of k] assms(2)
    by (simp add: same_entry_def same_level_def wf_levels_def)
next
  case (Some v)
  then obtain w where w: "fix_entry v = Inr w" "dget c' k = Some w"
    using rfold_dset[OF assms(1)[unfolded fixup_fix], of k] assms(2) by (auto simp: wf_levels_def)
  show ?thesis
  proof (cases "\<exists>d. v = JDict d")
    case True
    then obtain d where d: "v = JDict d" by blast
    with Some assms(2) have "wf_dict d" by (auto simp: wf_levels_def list_all_iff dest!: map_of_SomeD)
    from w(1) d obtain h where h: "w = JDict h"
      "rfold (\<lambda>(k, x) h. rbind (fix_level x) (\<lambda>y. Inr (dset k y h))) d [] = Inr h"
      by (auto simp: fix_entry_def)
    have "same_level (dget d u) (dget h u)" for u
      using rfold_dset[OF h(2) \<open>wf_dict d\<close>, of u] fix_level_ok
      by (cases "dget d u") (fastforce simp: same_level_def)+
    then show ?thesis using Some w(2) d h(1) by (simp add: same_entry_def)
  next
    case False
    then have "fix_level v = Inr w" using w(1) by (cases v) (simp_all add: fix_entry_def)
    from fix_level_ok[OF this] show ?thesis using Some w(2) by (auto simp: same_entry_def same_level_def)
  qed
qed

lemma not_none_other: "x \<noteq> JNull \<Longrightarrow> not_none (Some x) = Some x"
  by (cases x) simp_all

lemma same_level_read:
  "same_level old new \<Longrightarrow> (case not_none new of Some v \<Rightarrow> py_int v | None \<Rightarrow> D) = (case not_none old of Some v \<Rightarrow> py_int v | None \<Rightarrow> D)"
  by (auto simp: same_level_def not_none_other)

lemma same_entry_read:
  "same_entry old new \<Longrightarrow> (case not_none new of Some v \<Rightarrow> py_int v | None \<Rightarrow> D) = (case not_none old of Some v \<Rightarrow> py_int v | None \<Rightarrow> D)"
  using same_level_read by (auto simp: same_entry_def)

lemma same_entry_default:
  assumes "same_entry (dget c k) (dget c' k)"
  shows "py_int (dget_or c' k (JInt i)) = py_int (dget_or c k (JInt i))"
    and "(case not_none (Some (dget_or c' k (JInt i))) of Some v \<Rightarrow> py_int v | None \<Rightarrow> D)
       = (case not_none (Some (dget_or c k (JInt i))) of Some v \<Rightarrow> py_int v | None \<Rightarrow> D)"
  using assms by (auto simp: same_entry_def same_level_def dget_or_def not_none_other)

lemma same_entry_sub:
  assumes "same_entry (dget c k) (dget c' k)"
  shows "rbind (json_get (dget_or c' k (JDict [])) u) (\<lambda>l. case not_none l of Some v \<Rightarrow> py_int v | None \<Rightarrow> D)
       = rbind (json_get (dget_or c k (JDict [])) u) (\<lambda>l. case not_none l of Some v \<Rightarrow> py_int v | None \<Rightarrow> D)"
proof -
  have other: "json_get x u = Inl AttributeError" if "\<forall>d. x \<noteq> JDict d" for x using that by (cases x) simp_all
  show ?thesis
    using assms same_level_read by (auto simp: same_entry_def same_level_def dget_or_def other)
qed

text \<open>
  C32. Fixing the power levels of an old room for a new one keeps every level: each user, each kind
  of event and each named action needs the level it needed before, the errors of malformed content
  included, and all values of the result are integers or dictionaries of integers.
\<close>

theorem fixup_keeps_levels:
  assumes "copy_and_fixup_power_levels_contents (JDict c) = Inr c'" "wf_levels c"
  shows "level_in_content c' u = level_in_content c u
    \<and> get_send_level t sk (Some (e\<lparr>ev_content := c'\<rparr>)) = get_send_level t sk (Some (e\<lparr>ev_content := c\<rparr>))
    \<and> get_named_level (m((EventTypes_PowerLevels, []) \<mapsto> e\<lparr>ev_content := c'\<rparr>)) name d
       = get_named_level (m((EventTypes_PowerLevels, []) \<mapsto> e\<lparr>ev_content := c\<rparr>)) name d
    \<and> (\<forall>k v. dget c' k = Some v \<longrightarrow>
         type_is_int v \<or> (\<exists>h. v = JDict h \<and> (\<forall>k' x. dget h k' = Some x \<longrightarrow> type_is_int x)))"
proof (intro conjI)
  note same = fixup_entry[OF assms]
  have content: "ev_content (e\<lparr>ev_content := x\<rparr>) = x" for x by simp
  show "level_in_content c' u = level_in_content c u"
    unfolding level_in_content_def same_entry_default(2)[OF same] by (rule same_entry_sub[OF same])
  show "get_send_level t sk (Some (e\<lparr>ev_content := c'\<rparr>)) = get_send_level t sk (Some (e\<lparr>ev_content := c\<rparr>))"
    unfolding get_send_level_def Let_def option.case content same_entry_default(1)[OF same]
    by (rule same_entry_sub[OF same])
  show "get_named_level (m((EventTypes_PowerLevels, []) \<mapsto> e\<lparr>ev_content := c'\<rparr>)) name d
       = get_named_level (m((EventTypes_PowerLevels, []) \<mapsto> e\<lparr>ev_content := c\<rparr>)) name d"
    using same_entry_read[OF same] by (simp add: get_named_level_def get_power_level_event_def)
  show "\<forall>k v. dget c' k = Some v \<longrightarrow>
         type_is_int v \<or> (\<exists>h. v = JDict h \<and> (\<forall>k' x. dget h k' = Some x \<longrightarrow> type_is_int x))"
  proof (intro allI impI)
    fix k v assume "dget c' k = Some v"
    then show "type_is_int v \<or> (\<exists>h. v = JDict h \<and> (\<forall>k' x. dget h k' = Some x \<longrightarrow> type_is_int x))"
      using same[of k] unfolding same_entry_def same_level_def by (auto, metis option.distinct(1) option.inject type_is_int.simps(1))
  qed
qed

section \<open>Samples\<close>

definition sample_levels :: json_dict where
  "sample_levels = [(''users'', JDict [(''@m:h'', JStr '' 50 ''), (''@c:h'', JInt 100)]), (''ban'', JStr ''60'')]"

definition sample_fixed_levels :: json_dict where
  "sample_fixed_levels = [(''users'', JDict [(''@m:h'', JInt 50), (''@c:h'', JInt 100)]), (''ban'', JInt 60)]"

lemma sample_levels_fixed: "copy_and_fixup_power_levels_contents (JDict sample_levels) = Inr sample_fixed_levels"
  by code_simp

theorem fixup_keeps_levels_witness:
  "level_in_content sample_fixed_levels ''@m:h'' = level_in_content sample_levels ''@m:h''
    \<and> get_send_level ''m.room.name'' (Some []) (Some ((sample_power RV_V10 [])\<lparr>ev_content := sample_fixed_levels\<rparr>))
       = get_send_level ''m.room.name'' (Some []) (Some ((sample_power RV_V10 [])\<lparr>ev_content := sample_levels\<rparr>))
    \<and> get_named_level ((\<lambda>_. None)((EventTypes_PowerLevels, []) \<mapsto> (sample_power RV_V10 [])\<lparr>ev_content := sample_fixed_levels\<rparr>)) ''ban'' 50
       = get_named_level ((\<lambda>_. None)((EventTypes_PowerLevels, []) \<mapsto> (sample_power RV_V10 [])\<lparr>ev_content := sample_levels\<rparr>)) ''ban'' 50"
proof -
  have "wf_levels sample_levels" by code_simp
  from fixup_keeps_levels[OF sample_levels_fixed this] show ?thesis by blast
qed

definition sample_requester :: Requester where
  "sample_requester = \<lparr>req_user = ''@m:h'', req_access_token_id = Some 7, req_is_guest = False, req_scope = [],
     req_shadow_banned = False, req_device_id = Some ''B'', req_app_service = None, req_authenticated_entity = ''@m:h''\<rparr>"

definition sample_config :: SerializeEventConfig where
  "sample_config = \<lparr>as_client_event = True, client_format = format_event_for_client_v1,
     requester = Some sample_requester, only_event_fields = [''type'', ''unsigned''],
     include_stripped_room_state = False, include_admin_metadata = True\<rparr>"

definition sample_metadata :: EventMetadata where
  "sample_metadata = \<lparr>md_txn_id = Some ''t1'', md_device_id = Some ''A'', md_token_id = Some 7, md_soft_failed = True,
     md_policy_server_spammy = False\<rparr>"

definition sample_full_event :: full_event where
  "sample_full_event = FullEvent (sample_message RV_V10)
     [(''type'', JStr ''m.room.message''), (''sender'', JStr ''@m:h''), (''content'', JDict [])] [(''age_ts'', JInt 5)]
     sample_metadata None"

definition sample_serialized :: json_dict where
  "sample_serialized = [(''type'', JStr ''m.room.message''),
     (''unsigned'', JDict [(''age'', JInt 95), (''io.element.synapse.soft_failed'', JBool True)])]"

lemma sample_serialization: "serialize_event sample_config 100 sample_full_event = Inr sample_serialized"
  by code_simp


end
