(* ===== verification/Spec2Isabelle.thy ===== *)
theory Spec2Isabelle
  imports Event_Auth_Rules State_V2_Samples State_Filter_Theorems Stream_Token_Theorems Identifier_Text
    Wheel_Timer Ratelimiter_Props Xrpl_Auth_Samples Wallet_Provider_Samples Trust_Samples
    Redaction_Props Event_Format_Props
begin

text \<open>
  A verification development for the homeserver core of the repository: the rules that decide
  which events a room accepts, the resolution of conflicting room state, the filters and stream
  tokens with which clients and caches address it, and the identifiers all of them are written in.
  Paths are relative to \<open>src/textrp_briij/\<close>.

  \<^bold>\<open>The program.\<close> A room is a graph of events. An event is accepted when it passes the
  authorisation rules (\<open>event_auth.py\<close>) against a set of auth events; which fields and rules apply
  depends on the version of the room (\<open>api/room_versions.py\<close>). When branches of the graph meet,
  state resolution (\<open>state/v2.py\<close>) merges their states: it separates agreed from conflicting
  entries, collects the events in conflict, sorts the power events by a lexicographic topological
  sort and the others along the chain of power-levels events, and applies those that pass the
  authorisation rules again. State is read through filters (\<open>types/state.py\<close>), and the
  streams through which clients follow a server are addressed by tokens (\<open>types/__init__.py\<close>).

  \<^bold>\<open>Conventions.\<close> An exception is a value of \<open>py_error\<close> and a fallible function returns
  \<open>py_error + 'a\<close> (\<open>res\<close> in \<open>Prelude\<close>), so each \<open>raise\<close> is a branch. A dictionary is an
  association list in insertion order with the operations of \<open>Prelude\<close> (\<open>dget\<close>, \<open>dset\<close>, \<open>dpop\<close>);
  \<open>wf_dict\<close> says that no key occurs twice. A Python set is a list in which order and repetition do
  not matter. Python integers are \<open>int\<close>. A string is a list of characters, the code points below
  256. JSON values are the type \<open>json\<close> of \<open>Py_Json\<close>. Code that changes the event map and may not
  return is a computation (\<open>Computation\<close>): a function from the event map to \<open>None\<close> (it does not
  return), an exception, or a result with the new map; \<open>while\<close> loops are the library's
  \<open>while_option\<close>, without fuel, so no bound has to be chosen, and that they end is proved.

  \<^bold>\<open>Theories.\<close>
  \<^item> \<open>Prelude\<close>, \<open>Py_Json\<close>, \<open>Computation\<close>: results, dictionaries, strings, numbers as text, JSON, and the
    computations with their rules for invariants, termination and monotone state (the locale
    \<open>state_preorder\<close>, interpreted in \<open>State_V2_Props\<close> on the growth of the event map).
  \<^item> \<open>Room_Versions\<close>: \<open>RoomVersion\<close> and all versions. \<open>Events\<close>: the fields of \<open>EventBase\<close> that the rules
    read, with the identifiers of room, previous and auth events for every event format, from
    \<open>events/__init__.py\<close>.
  \<^item> \<open>Identifiers\<close>, \<open>Identifier_Text\<close>: server names, content URIs, identifiers with a domain and room
    identifiers, the mapping of user names to localparts, base 62 and validators (\<open>types/__init__.py\<close>,
    \<open>util/stringutils.py\<close>). Shown: parsing and printing are inverse, the mapping is one to one into
    the allowed characters, base 62 ends exactly for numbers that are not negative.
  \<^item> \<open>Event_Auth\<close>: every function of \<open>event_auth.py\<close>, one definition each or one per block of the long
    ones. The signature check, the IPv6 check and the canonical size of an event are fields of
    \<open>auth_env\<close>. \<open>Event_Auth_Props\<close> has the lemmas on each rule; \<open>Event_Auth_Theorems\<close> and
    \<open>Event_Auth_Rules\<close> have the properties: no escalation by power-levels events, what bans, kicks, joins,
    invites and redactions need, which auth events decide, the size limits.
  \<^item> \<open>Topological_Sort\<close>: \<open>lexicographical_topological_sort\<close> with its heap (the locale \<open>heap_queue\<close>), as a
    refinement of the greedy specification. \<open>State_V2\<close>: the rest of \<open>state/v2.py\<close>; the store is the
    record \<open>StateResolutionStore\<close>. \<open>State_V2_Props\<close>: the split of the state and that whatever enters
    the result is authorised. \<open>State_V2_Order\<close>, \<open>State_V2_Mainline\<close>: the two sorts.
    \<open>State_V2_Termination\<close>: the resolution ends. \<open>State_V2_Samples\<close>: a store over a table of events.
  \<^item> \<open>State_Filter\<close>: every method of \<open>StateFilter\<close>. \<open>State_Filter_Props\<close> gives the meaning of each (the locale
    \<open>filter_difference\<close> is the contract of subtraction that caches use) and reads the generated SQL;
    \<open>State_Filter_Theorems\<close> has the properties.
  \<^item> \<open>Stream_Tokens\<close>: the token classes. \<open>Stream_Token_Props\<close> treats tokens of several writers as vector clocks (the
    locale \<open>vector_clock\<close>, interpreted for room tokens and for the others), \<open>Stream_Token_Text\<close> their
    textual forms, \<open>Stream_Token_Theorems\<close> the properties.

  \<^bold>\<open>Assumptions.\<close> What the code relies on in code that is not modelled is a named hypothesis:
  \<open>faithful_store\<close> (the store returns only events that were asked for), \<open>answers\<close> (it answers from
  one set of events), \<open>ranked_store\<close> (no event is among its own auth ancestors), \<open>resolves\<close> (the
  table of writers gives back the name of an identifier it gave out). Each property that uses one
  has a witness in which it holds of a concrete store.

  \<^bold>\<open>Not modelled.\<close> Log messages, metrics and the points where long loops yield to the reactor;
  code points from 256 on and the limit of Python on the number of digits that \<open>int\<close> reads; the first
  state-resolution algorithm (\<open>state/v1.py\<close>), state groups and their caches (\<open>state/__init__.py\<close>); the
  handlers, federation, HTTP, replication, storage and configuration, which are asynchronous code
  around a database and the network; signatures and hashes (\<open>crypto\<close>), which come from libraries;
  and the compiled push-rule evaluation.
\<close>



end
